(* ===== verification/Vyre_Prelude.thy ===== *)
theory Vyre_Prelude
  imports Main "HOL-Library.Word"
begin

text \<open>
  Shared vocabulary of the development: the machine integer types of the Rust
  sources, the result type \<open>error + value\<close> with its sequencing operator,
  checked and saturating \<open>usize\<close> arithmetic, and little-endian byte strings.

  Integers keep their width: \<open>u8\<close>, \<open>u16\<close>, \<open>u32\<close>, \<open>u64\<close> are words and
  \<open>usize\<close> is the 64-bit word of the hosts the crate is built for.  Lengths of
  vectors and slices are natural numbers, with the overflow checks of the
  source written out against \<open>usize_bound\<close>.
\<close>

unbundle bit_operations_syntax

type_synonym u8 = "8 word"
type_synonym u16 = "16 word"
type_synonym u32 = "32 word"
type_synonym u64 = "64 word"
type_synonym usize = "64 word"
type_synonym bytes = "8 word list"

named_theorems result_simps \<open>evaluation of sequenced results\<close>
named_theorems le_bytes_simps \<open>lengths and inverses of little-endian byte strings\<close>

subsection \<open>Results\<close>

definition rbind :: "'e + 'a \<Rightarrow> ('a \<Rightarrow> 'e + 'b) \<Rightarrow> 'e + 'b" where
  "rbind m f = (case m of Inl e \<Rightarrow> Inl e | Inr x \<Rightarrow> f x)"

definition rguard :: "bool \<Rightarrow> 'e \<Rightarrow> 'e + unit" where
  "rguard b e = (if b then Inr () else Inl e)"

definition ok_or :: "'a option \<Rightarrow> 'e \<Rightarrow> 'e + 'a" where
  "ok_or x e = (case x of None \<Rightarrow> Inl e | Some y \<Rightarrow> Inr y)"

definition is_ok :: "'e + 'a \<Rightarrow> bool" where
  "is_ok r = (case r of Inl _ \<Rightarrow> False | Inr _ \<Rightarrow> True)"

lemma rbind_Inl [simp]: "rbind (Inl e) f = Inl e"
  by (simp add: rbind_def)

lemma rbind_Inr [simp]: "rbind (Inr x) f = f x"
  by (simp add: rbind_def)

lemma rbind_eq_Inr: "rbind m f = Inr y \<longleftrightarrow> (\<exists>x. m = Inr x \<and> f x = Inr y)"
  by (cases m) auto

lemma rbind_eq_Inl: "rbind m f = Inl e \<longleftrightarrow> m = Inl e \<or> (\<exists>x. m = Inr x \<and> f x = Inl e)"
  by (cases m) auto

lemma rbind_InrE [elim]:
  assumes "rbind m f = Inr y"
  obtains x where "m = Inr x" "f x = Inr y"
  using assms by (auto simp: rbind_eq_Inr)

lemma rbind_assoc: "rbind (rbind m f) g = rbind m (\<lambda>x. rbind (f x) g)"
  by (cases m) auto

lemma rbind_cong [fundef_cong]:
  assumes "m = m'" and "\<And>x. m' = Inr x \<Longrightarrow> f x = f' x"
  shows "rbind m f = rbind m' f'"
  using assms by (cases m') auto

lemma rguard_simps [simp]:
  "rguard True e = Inr ()"
  "rguard False e = Inl e"
  by (simp_all add: rguard_def)

lemma rguard_eq_Inr [simp]: "rguard b e = Inr u \<longleftrightarrow> b"
  by (simp add: rguard_def)

lemma ok_or_simps [simp]:
  "ok_or None e = Inl e"
  "ok_or (Some x) e = Inr x"
  by (simp_all add: ok_or_def)

lemma ok_or_eq_Inr [simp]: "ok_or x e = Inr y \<longleftrightarrow> x = Some y"
  by (cases x) auto

lemma is_ok_simps [simp]: "is_ok (Inl e) = False" "is_ok (Inr x) = True"
  by (simp_all add: is_ok_def)

lemma is_ok_iff: "is_ok r \<longleftrightarrow> (\<exists>x. r = Inr x)"
  by (cases r) auto

lemmas [result_simps] = rbind_eq_Inr rbind_eq_Inl rguard_eq_Inr ok_or_eq_Inr

subsection \<open>Checked and saturating arithmetic on \<open>usize\<close>\<close>

abbreviation usize_bound :: nat where
  "usize_bound \<equiv> 2 ^ 64"

definition usize_checked_mul :: "usize \<Rightarrow> usize \<Rightarrow> usize option" where
  "usize_checked_mul a b =
     (if unat a * unat b < usize_bound then Some (a * b) else None)"

definition usize_checked_add :: "usize \<Rightarrow> usize \<Rightarrow> usize option" where
  "usize_checked_add a b =
     (if unat a + unat b < usize_bound then Some (a + b) else None)"

text \<open>\<open>saturating_add(1)\<close> at any width.\<close>

definition saturating_inc :: "'a :: len word \<Rightarrow> 'a word" where
  "saturating_inc n = (if n = -1 then -1 else n + 1)"

definition usize_saturating_mul :: "usize \<Rightarrow> usize \<Rightarrow> usize" where
  "usize_saturating_mul a b =
     (if unat a * unat b < usize_bound then a * b else - 1)"

lemma unat_mult_small:
  fixes a b :: usize
  assumes "unat a * unat b < usize_bound"
  shows "unat (a * b) = unat a * unat b"
  using assms by (simp add: unat_word_ariths)

lemma unat_add_small:
  fixes a b :: usize
  assumes "unat a + unat b < usize_bound"
  shows "unat (a + b) = unat a + unat b"
  using assms by (simp add: unat_word_ariths)

lemma usize_checked_mul_Some:
  "usize_checked_mul a b = Some c \<longleftrightarrow> unat c = unat a * unat b"
proof
  assume "usize_checked_mul a b = Some c"
  then show "unat c = unat a * unat b"
    by (auto simp: usize_checked_mul_def unat_mult_small split: if_splits)
next
  assume eq: "unat c = unat a * unat b"
  have "unat c < usize_bound" using unsigned_less[of c, where 'a=nat] by simp
  with eq have lt: "unat a * unat b < usize_bound" by simp
  then have "c = a * b" using eq unat_mult_small[OF lt] word_unat_eq_iff by metis
  with lt show "usize_checked_mul a b = Some c" by (simp add: usize_checked_mul_def)
qed

lemma usize_checked_mul_None:
  "usize_checked_mul a b = None \<longleftrightarrow> usize_bound \<le> unat a * unat b"
  by (simp add: usize_checked_mul_def not_less)

lemma usize_checked_add_Some:
  "usize_checked_add a b = Some c \<longleftrightarrow> unat c = unat a + unat b"
proof
  assume "usize_checked_add a b = Some c"
  then show "unat c = unat a + unat b"
    by (auto simp: usize_checked_add_def unat_add_small split: if_splits)
next
  assume eq: "unat c = unat a + unat b"
  have "unat c < usize_bound" using unsigned_less[of c, where 'a=nat] by simp
  with eq have lt: "unat a + unat b < usize_bound" by simp
  then have "c = a + b" using eq unat_add_small[OF lt] word_unat_eq_iff by metis
  with lt show "usize_checked_add a b = Some c" by (simp add: usize_checked_add_def)
qed

lemma usize_checked_add_None:
  "usize_checked_add a b = None \<longleftrightarrow> usize_bound \<le> unat a + unat b"
  by (simp add: usize_checked_add_def not_less)

lemma unat_usize_saturating_mul:
  "unat (usize_saturating_mul a b) = min (unat a * unat b) (usize_bound - 1)"
proof (cases "unat a * unat b < usize_bound")
  case True
  then show ?thesis by (simp add: usize_saturating_mul_def unat_mult_small)
next
  case False
  have "unat (- 1 :: usize) = usize_bound - 1" by (simp add: unsigned_minus_1_eq_mask mask_eq_exp_minus_1)
  with False show ?thesis by (simp add: usize_saturating_mul_def)
qed

lemma unat_ucast_u8_usize [simp]: "unat (ucast (x :: u8) :: usize) = unat x"
proof -
  have "unat x < 2 ^ 64" using unsigned_less[of x, where 'a=nat] by simp
  then show ?thesis by (simp add: unsigned_ucast_eq take_bit_nat_eq_self_iff)
qed

lemma unat_ucast_u32_u64 [simp]: "unat (ucast (w :: u32) :: u64) = unat w"
proof -
  have "unat w < 2 ^ 64" using unsigned_less[of w, where 'a=nat] by simp
  then show ?thesis by (simp add: unsigned_ucast_eq take_bit_nat_eq_self_iff)
qed

lemma unat_saturating_inc:
  "unat (saturating_inc (n :: 'a :: len word)) = min (2 ^ LENGTH('a) - 1) (unat n + 1)"
proof (cases "n = -1")
  case True
  then show ?thesis
    by (simp add: saturating_inc_def unsigned_minus_1_eq_mask mask_eq_exp_minus_1)
next
  case False
  then have "unat (n + 1) = Suc (unat n)"
    using unatSuc[of n] max_word_wrap[of n] by (auto simp: add.commute)
  with False show ?thesis
    using unsigned_less[of "n + 1", where 'a = nat] by (simp add: saturating_inc_def)
qed

lemma min_unat_max [simp]:
  "min 18446744073709551615 (unat (x :: u64)) = unat x" "min 4294967295 (unat (y :: u32)) = unat y"
  using unsigned_less[of x, where 'a = nat] unsigned_less[of y, where 'a = nat] by simp_all

lemma min_min_add: "min m (min m a + b) = min m (a + b :: nat)"
  by (simp add: min_def)

lemma and_neq_0_iff: "(a :: 'a :: len word) AND b \<noteq> 0 \<longleftrightarrow> (\<exists>i. bit a i \<and> bit b i)"
  using bit_imp_le_length[of a] by (auto simp: bit_eq_iff bit_and_iff)

subsection \<open>Formatting\<close>

fun decimal :: "nat \<Rightarrow> string" where
  "decimal n = (if n < 10 then [] else decimal (n div 10)) @ [char_of (48 + n mod 10)]"

declare decimal.simps [simp del]

end
