(* ===== verification/Spec_DataType.thy ===== *)
theory Spec_DataType
  imports Vyre_Prelude
begin

text \<open>
  The frozen data types of the crate \<open>vyre-spec\<close> (\<open>src/data_type.rs\<close>) with
  their sizing rules (\<open>src/data_type/layout.rs\<close>) and layout validation
  (\<open>src/data_type/validation.rs\<close>).  The lemmas relate the four independent size
  tables of the source to each other, show that packed sizes are exact
  ceilings computed without overflow, and that a validated layout never has a
  zero-sized element.
\<close>

subsection \<open>Data types\<close>

datatype quantization_scale =
    QS_PerTensor
  | QS_PerChannel u32
  | QS_PerGroup u32

datatype quantization_zero_point =
    QZ_Absent
  | QZ_PerTensor
  | QZ_PerChannel u32
  | QZ_PerGroup u32

datatype (plugins only: code size) data_type =
    DT_U8 | DT_U16 | DT_U32 | DT_I8 | DT_I16 | DT_I32 | DT_I64 | DT_U64
  | DT_Vec2U32 | DT_Vec4U32 | DT_Bool | DT_Bytes
  | DT_Array usize
  | DT_F16 | DT_BF16 | DT_F32 | DT_F64 | DT_Tensor
  | DT_Handle u32
  | DT_Vec data_type u8
  | DT_TensorShaped data_type "u32 list"
  | DT_SparseCsr data_type
  | DT_SparseCoo data_type
  | DT_SparseBsr data_type u32 u32
  | DT_F8E4M3 | DT_F8E5M2 | DT_I4 | DT_FP4 | DT_NF4
  | DT_DeviceMesh "u32 list"
  | DT_Quantized data_type quantization_scale quantization_zero_point
  | DT_Opaque u32

fun data_type_builtin_wire_tag :: "data_type \<Rightarrow> u8 option" where
  "data_type_builtin_wire_tag DT_U32 = Some 0x01"
| "data_type_builtin_wire_tag DT_I32 = Some 0x02"
| "data_type_builtin_wire_tag DT_U64 = Some 0x03"
| "data_type_builtin_wire_tag DT_Vec2U32 = Some 0x04"
| "data_type_builtin_wire_tag DT_Vec4U32 = Some 0x05"
| "data_type_builtin_wire_tag DT_Bool = Some 0x06"
| "data_type_builtin_wire_tag DT_Bytes = Some 0x07"
| "data_type_builtin_wire_tag (DT_Array _) = Some 0x08"
| "data_type_builtin_wire_tag DT_F16 = Some 0x09"
| "data_type_builtin_wire_tag DT_BF16 = Some 0x0A"
| "data_type_builtin_wire_tag DT_F32 = Some 0x0B"
| "data_type_builtin_wire_tag DT_F64 = Some 0x0C"
| "data_type_builtin_wire_tag DT_Tensor = Some 0x0D"
| "data_type_builtin_wire_tag DT_U8 = Some 0x0E"
| "data_type_builtin_wire_tag DT_U16 = Some 0x0F"
| "data_type_builtin_wire_tag DT_I8 = Some 0x10"
| "data_type_builtin_wire_tag DT_I16 = Some 0x11"
| "data_type_builtin_wire_tag DT_I64 = Some 0x12"
| "data_type_builtin_wire_tag (DT_Handle _) = Some 0x13"
| "data_type_builtin_wire_tag (DT_Vec _ _) = Some 0x14"
| "data_type_builtin_wire_tag (DT_TensorShaped _ _) = Some 0x15"
| "data_type_builtin_wire_tag (DT_SparseCsr _) = Some 0x16"
| "data_type_builtin_wire_tag (DT_SparseCoo _) = Some 0x17"
| "data_type_builtin_wire_tag (DT_SparseBsr _ _ _) = Some 0x18"
| "data_type_builtin_wire_tag DT_F8E4M3 = Some 0x19"
| "data_type_builtin_wire_tag DT_F8E5M2 = Some 0x1A"
| "data_type_builtin_wire_tag DT_I4 = Some 0x1B"
| "data_type_builtin_wire_tag DT_FP4 = Some 0x1C"
| "data_type_builtin_wire_tag DT_NF4 = Some 0x1D"
| "data_type_builtin_wire_tag (DT_DeviceMesh _) = Some 0x1E"
| "data_type_builtin_wire_tag (DT_Quantized _ _ _) = Some 0x1F"
| "data_type_builtin_wire_tag (DT_Opaque _) = None"

fun is_float_family :: "data_type \<Rightarrow> bool" where
  "is_float_family DT_F16 = True"
| "is_float_family DT_BF16 = True"
| "is_float_family DT_F32 = True"
| "is_float_family DT_F64 = True"
| "is_float_family DT_F8E4M3 = True"
| "is_float_family DT_F8E5M2 = True"
| "is_float_family DT_FP4 = True"
| "is_float_family DT_NF4 = True"
| "is_float_family (DT_Vec element _) = is_float_family element"
| "is_float_family (DT_TensorShaped element _) = is_float_family element"
| "is_float_family (DT_SparseCsr element) = is_float_family element"
| "is_float_family (DT_SparseCoo element) = is_float_family element"
| "is_float_family (DT_SparseBsr element _ _) = is_float_family element"
| "is_float_family (DT_Quantized _ _ _) = False"
| "is_float_family _ = False"

fun is_quantized :: "data_type \<Rightarrow> bool" where
  "is_quantized (DT_Quantized _ _ _) = True"
| "is_quantized (DT_Vec element _) = is_quantized element"
| "is_quantized (DT_TensorShaped element _) = is_quantized element"
| "is_quantized (DT_SparseCsr element) = is_quantized element"
| "is_quantized (DT_SparseCoo element) = is_quantized element"
| "is_quantized (DT_SparseBsr element _ _) = is_quantized element"
| "is_quantized _ = False"

fun is_quantized_storage :: "data_type \<Rightarrow> bool" where
  "is_quantized_storage DT_I4 = True"
| "is_quantized_storage DT_I8 = True"
| "is_quantized_storage DT_I16 = True"
| "is_quantized_storage DT_U8 = True"
| "is_quantized_storage DT_U16 = True"
| "is_quantized_storage DT_F8E4M3 = True"
| "is_quantized_storage DT_F8E5M2 = True"
| "is_quantized_storage DT_FP4 = True"
| "is_quantized_storage DT_NF4 = True"
| "is_quantized_storage _ = False"

subsection \<open>Sizes\<close>

fun min_bytes :: "data_type \<Rightarrow> usize" where
  "min_bytes DT_U16 = 2"
| "min_bytes DT_I16 = 2"
| "min_bytes DT_F16 = 2"
| "min_bytes DT_BF16 = 2"
| "min_bytes DT_Bool = 4"
| "min_bytes DT_U32 = 4"
| "min_bytes DT_I32 = 4"
| "min_bytes DT_F32 = 4"
| "min_bytes (DT_Handle _) = 4"
| "min_bytes DT_I64 = 8"
| "min_bytes DT_U64 = 8"
| "min_bytes DT_Vec2U32 = 8"
| "min_bytes DT_F64 = 8"
| "min_bytes DT_Vec4U32 = 16"
| "min_bytes (DT_Vec element count) = usize_saturating_mul (min_bytes element) (ucast count)"
| "min_bytes DT_Bytes = 0"
| "min_bytes (DT_Array _) = 0"
| "min_bytes DT_Tensor = 0"
| "min_bytes (DT_TensorShaped _ _) = 0"
| "min_bytes DT_U8 = 1"
| "min_bytes DT_I8 = 1"
| "min_bytes DT_F8E4M3 = 1"
| "min_bytes DT_F8E5M2 = 1"
| "min_bytes DT_I4 = 1"
| "min_bytes DT_FP4 = 1"
| "min_bytes DT_NF4 = 1"
| "min_bytes (DT_SparseCsr _) = 0"
| "min_bytes (DT_SparseCoo _) = 0"
| "min_bytes (DT_SparseBsr _ _ _) = 0"
| "min_bytes (DT_DeviceMesh _) = 0"
| "min_bytes (DT_Quantized storage _ _) = min_bytes storage"
| "min_bytes (DT_Opaque _) = 0"

fun max_bytes :: "data_type \<Rightarrow> usize option" where
  "max_bytes DT_U8 = Some 1"
| "max_bytes DT_I8 = Some 1"
| "max_bytes DT_U16 = Some 2"
| "max_bytes DT_I16 = Some 2"
| "max_bytes DT_F16 = Some 2"
| "max_bytes DT_BF16 = Some 2"
| "max_bytes DT_U32 = Some 4"
| "max_bytes DT_I32 = Some 4"
| "max_bytes DT_Bool = Some 4"
| "max_bytes DT_I64 = Some 8"
| "max_bytes DT_U64 = Some 8"
| "max_bytes DT_Vec2U32 = Some 8"
| "max_bytes DT_F64 = Some 8"
| "max_bytes DT_Vec4U32 = Some 16"
| "max_bytes DT_F32 = Some 4"
| "max_bytes (DT_Handle _) = Some 4"
| "max_bytes (DT_Vec element count) =
     (case max_bytes element of
        Some bytes \<Rightarrow> usize_checked_mul bytes (ucast count)
      | None \<Rightarrow> None)"
| "max_bytes DT_Bytes = Some (64 * 1024 * 1024)"
| "max_bytes (DT_Array _) = Some (256 * 1024 * 1024)"
| "max_bytes DT_Tensor = Some (256 * 1024 * 1024)"
| "max_bytes (DT_TensorShaped _ _) = None"
| "max_bytes DT_F8E4M3 = Some 1"
| "max_bytes DT_F8E5M2 = Some 1"
| "max_bytes DT_I4 = Some 1"
| "max_bytes DT_FP4 = Some 1"
| "max_bytes DT_NF4 = Some 1"
| "max_bytes (DT_SparseCsr _) = None"
| "max_bytes (DT_SparseCoo _) = None"
| "max_bytes (DT_SparseBsr _ _ _) = None"
| "max_bytes (DT_DeviceMesh _) = Some 4"
| "max_bytes (DT_Quantized storage _ _) = max_bytes storage"
| "max_bytes (DT_Opaque _) = None"

fun size_bytes :: "data_type \<Rightarrow> usize option" where
  "size_bytes DT_U8 = Some 1"
| "size_bytes DT_I8 = Some 1"
| "size_bytes DT_U16 = Some 2"
| "size_bytes DT_I16 = Some 2"
| "size_bytes DT_F16 = Some 2"
| "size_bytes DT_BF16 = Some 2"
| "size_bytes DT_Bool = Some 4"
| "size_bytes DT_U32 = Some 4"
| "size_bytes DT_I32 = Some 4"
| "size_bytes DT_F32 = Some 4"
| "size_bytes DT_I64 = Some 8"
| "size_bytes DT_U64 = Some 8"
| "size_bytes DT_Vec2U32 = Some 8"
| "size_bytes DT_F64 = Some 8"
| "size_bytes DT_Vec4U32 = Some 16"
| "size_bytes (DT_Handle _) = Some 4"
| "size_bytes DT_Bytes = Some 1"
| "size_bytes (DT_Array element_size) = Some element_size"
| "size_bytes (DT_Vec element count) =
     (case size_bytes element of
        Some bytes \<Rightarrow> usize_checked_mul bytes (ucast count)
      | None \<Rightarrow> None)"
| "size_bytes DT_Tensor = None"
| "size_bytes (DT_TensorShaped _ _) = None"
| "size_bytes DT_F8E4M3 = Some 1"
| "size_bytes DT_F8E5M2 = Some 1"
| "size_bytes DT_I4 = Some 1"
| "size_bytes DT_FP4 = Some 1"
| "size_bytes DT_NF4 = Some 1"
| "size_bytes (DT_SparseCsr _) = None"
| "size_bytes (DT_SparseCoo _) = None"
| "size_bytes (DT_SparseBsr _ _ _) = None"
| "size_bytes (DT_DeviceMesh _) = Some 4"
| "size_bytes (DT_Quantized storage _ _) = size_bytes storage"
| "size_bytes (DT_Opaque _) = None"

fun element_size :: "data_type \<Rightarrow> usize option" where
  "element_size (DT_Array n) = Some n"
| "element_size (DT_Vec element _) = size_bytes element"
| "element_size (DT_TensorShaped element _) = size_bytes element"
| "element_size (DT_SparseCsr element) = size_bytes element"
| "element_size (DT_SparseCoo element) = size_bytes element"
| "element_size (DT_SparseBsr element _ _) = size_bytes element"
| "element_size (DT_Quantized storage _ _) = size_bytes storage"
| "element_size (DT_Opaque _) = None"
| "element_size _ = None"

fun bit_width :: "data_type \<Rightarrow> usize option" where
  "bit_width DT_I4 = Some 4"
| "bit_width DT_FP4 = Some 4"
| "bit_width DT_NF4 = Some 4"
| "bit_width DT_F8E4M3 = Some 8"
| "bit_width DT_F8E5M2 = Some 8"
| "bit_width DT_U8 = Some 8"
| "bit_width DT_I8 = Some 8"
| "bit_width DT_U16 = Some 16"
| "bit_width DT_I16 = Some 16"
| "bit_width DT_F16 = Some 16"
| "bit_width DT_BF16 = Some 16"
| "bit_width DT_Bool = Some 32"
| "bit_width DT_U32 = Some 32"
| "bit_width DT_I32 = Some 32"
| "bit_width DT_F32 = Some 32"
| "bit_width (DT_Handle _) = Some 32"
| "bit_width DT_I64 = Some 64"
| "bit_width DT_U64 = Some 64"
| "bit_width DT_F64 = Some 64"
| "bit_width DT_Vec2U32 = Some 64"
| "bit_width DT_Vec4U32 = Some 128"
| "bit_width (DT_DeviceMesh _) = Some 32"
| "bit_width (DT_Quantized storage _ _) = bit_width storage"
| "bit_width DT_Bytes = Some 8"
| "bit_width (DT_Vec element count) =
     (case bit_width element of
        Some bits \<Rightarrow> usize_checked_mul bits (ucast count)
      | None \<Rightarrow> None)"
| "bit_width (DT_Array _) = None"
| "bit_width DT_Tensor = None"
| "bit_width (DT_TensorShaped _ _) = None"
| "bit_width (DT_SparseCsr _) = None"
| "bit_width (DT_SparseCoo _) = None"
| "bit_width (DT_SparseBsr _ _ _) = None"
| "bit_width (DT_Opaque _) = None"

datatype (plugins only: code size) size_error =
    SE_TotalBits | SE_ByteRounding | SE_TotalBytes | SE_NestedBits | SE_NestedBytes

fun checked_bit_width_for_packed_size :: "data_type \<Rightarrow> size_error + usize option" where
  "checked_bit_width_for_packed_size DT_I4 = Inr (Some 4)"
| "checked_bit_width_for_packed_size DT_FP4 = Inr (Some 4)"
| "checked_bit_width_for_packed_size DT_NF4 = Inr (Some 4)"
| "checked_bit_width_for_packed_size DT_F8E4M3 = Inr (Some 8)"
| "checked_bit_width_for_packed_size DT_F8E5M2 = Inr (Some 8)"
| "checked_bit_width_for_packed_size DT_U8 = Inr (Some 8)"
| "checked_bit_width_for_packed_size DT_I8 = Inr (Some 8)"
| "checked_bit_width_for_packed_size DT_U16 = Inr (Some 16)"
| "checked_bit_width_for_packed_size DT_I16 = Inr (Some 16)"
| "checked_bit_width_for_packed_size DT_F16 = Inr (Some 16)"
| "checked_bit_width_for_packed_size DT_BF16 = Inr (Some 16)"
| "checked_bit_width_for_packed_size DT_Bool = Inr (Some 32)"
| "checked_bit_width_for_packed_size DT_U32 = Inr (Some 32)"
| "checked_bit_width_for_packed_size DT_I32 = Inr (Some 32)"
| "checked_bit_width_for_packed_size DT_F32 = Inr (Some 32)"
| "checked_bit_width_for_packed_size (DT_Handle _) = Inr (Some 32)"
| "checked_bit_width_for_packed_size DT_I64 = Inr (Some 64)"
| "checked_bit_width_for_packed_size DT_U64 = Inr (Some 64)"
| "checked_bit_width_for_packed_size DT_F64 = Inr (Some 64)"
| "checked_bit_width_for_packed_size DT_Vec2U32 = Inr (Some 64)"
| "checked_bit_width_for_packed_size DT_Vec4U32 = Inr (Some 128)"
| "checked_bit_width_for_packed_size (DT_DeviceMesh _) = Inr (Some 32)"
| "checked_bit_width_for_packed_size (DT_Quantized storage _ _) =
     checked_bit_width_for_packed_size storage"
| "checked_bit_width_for_packed_size DT_Bytes = Inr (Some 8)"
| "checked_bit_width_for_packed_size (DT_Vec element count) =
     rbind (checked_bit_width_for_packed_size element) (\<lambda>width.
       case width of
         None \<Rightarrow> Inr None
       | Some bits \<Rightarrow>
           ok_or (map_option Some (usize_checked_mul bits (ucast count))) SE_NestedBits)"
| "checked_bit_width_for_packed_size (DT_Array _) = Inr None"
| "checked_bit_width_for_packed_size DT_Tensor = Inr None"
| "checked_bit_width_for_packed_size (DT_TensorShaped _ _) = Inr None"
| "checked_bit_width_for_packed_size (DT_SparseCsr _) = Inr None"
| "checked_bit_width_for_packed_size (DT_SparseCoo _) = Inr None"
| "checked_bit_width_for_packed_size (DT_SparseBsr _ _ _) = Inr None"
| "checked_bit_width_for_packed_size (DT_Opaque _) = Inr None"

fun checked_size_bytes_for_packed_size :: "data_type \<Rightarrow> size_error + usize option" where
  "checked_size_bytes_for_packed_size DT_U8 = Inr (Some 1)"
| "checked_size_bytes_for_packed_size DT_I8 = Inr (Some 1)"
| "checked_size_bytes_for_packed_size DT_U16 = Inr (Some 2)"
| "checked_size_bytes_for_packed_size DT_I16 = Inr (Some 2)"
| "checked_size_bytes_for_packed_size DT_F16 = Inr (Some 2)"
| "checked_size_bytes_for_packed_size DT_BF16 = Inr (Some 2)"
| "checked_size_bytes_for_packed_size DT_Bool = Inr (Some 4)"
| "checked_size_bytes_for_packed_size DT_U32 = Inr (Some 4)"
| "checked_size_bytes_for_packed_size DT_I32 = Inr (Some 4)"
| "checked_size_bytes_for_packed_size DT_F32 = Inr (Some 4)"
| "checked_size_bytes_for_packed_size DT_I64 = Inr (Some 8)"
| "checked_size_bytes_for_packed_size DT_U64 = Inr (Some 8)"
| "checked_size_bytes_for_packed_size DT_Vec2U32 = Inr (Some 8)"
| "checked_size_bytes_for_packed_size DT_F64 = Inr (Some 8)"
| "checked_size_bytes_for_packed_size DT_Vec4U32 = Inr (Some 16)"
| "checked_size_bytes_for_packed_size (DT_Handle _) = Inr (Some 4)"
| "checked_size_bytes_for_packed_size DT_Bytes = Inr (Some 1)"
| "checked_size_bytes_for_packed_size (DT_Array n) = Inr (Some n)"
| "checked_size_bytes_for_packed_size (DT_Vec element count) =
     rbind (checked_size_bytes_for_packed_size element) (\<lambda>size.
       case size of
         None \<Rightarrow> Inr None
       | Some bytes \<Rightarrow>
           ok_or (map_option Some (usize_checked_mul bytes (ucast count))) SE_NestedBytes)"
| "checked_size_bytes_for_packed_size DT_Tensor = Inr None"
| "checked_size_bytes_for_packed_size (DT_TensorShaped _ _) = Inr None"
| "checked_size_bytes_for_packed_size DT_F8E4M3 = Inr (Some 1)"
| "checked_size_bytes_for_packed_size DT_F8E5M2 = Inr (Some 1)"
| "checked_size_bytes_for_packed_size DT_I4 = Inr (Some 1)"
| "checked_size_bytes_for_packed_size DT_FP4 = Inr (Some 1)"
| "checked_size_bytes_for_packed_size DT_NF4 = Inr (Some 1)"
| "checked_size_bytes_for_packed_size (DT_SparseCsr _) = Inr None"
| "checked_size_bytes_for_packed_size (DT_SparseCoo _) = Inr None"
| "checked_size_bytes_for_packed_size (DT_SparseBsr _ _ _) = Inr None"
| "checked_size_bytes_for_packed_size (DT_DeviceMesh _) = Inr (Some 4)"
| "checked_size_bytes_for_packed_size (DT_Quantized storage _ _) =
     checked_size_bytes_for_packed_size storage"
| "checked_size_bytes_for_packed_size (DT_Opaque _) = Inr None"

definition packed_size_bytes :: "data_type \<Rightarrow> usize \<Rightarrow> size_error + usize option" where
  "packed_size_bytes t element_count =
     rbind (checked_bit_width_for_packed_size t) (\<lambda>width.
       case width of
         Some bits \<Rightarrow>
           rbind (ok_or (usize_checked_mul bits element_count) SE_TotalBits) (\<lambda>total_bits.
             ok_or (map_option (\<lambda>rounded_bits. Some (rounded_bits div 8))
                      (usize_checked_add total_bits 7)) SE_ByteRounding)
       | None \<Rightarrow>
           rbind (checked_size_bytes_for_packed_size t) (\<lambda>size.
             case size of
               Some bytes \<Rightarrow>
                 ok_or (map_option Some (usize_checked_mul bytes element_count)) SE_TotalBytes
             | None \<Rightarrow> Inr None))"

subsection \<open>Layout validation\<close>

datatype (plugins only: code size) layout_error =
    LE_ArrayElementSize string
  | LE_VecCount string
  | LE_TensorShape string nat
  | LE_BsrBlockRows string
  | LE_BsrBlockCols string
  | LE_MeshEmpty string
  | LE_MeshAxis string nat
  | LE_QuantizedStorage string data_type
  | LE_ScaleGroupSize string
  | LE_ZeroPointGroupSize string

text \<open>The loop over \<open>iter().enumerate()\<close> that reports the first zero extent.\<close>

fun first_zero_axis :: "nat \<Rightarrow> u32 list \<Rightarrow> nat option" where
  "first_zero_axis axis [] = None"
| "first_zero_axis axis (d # ds) = (if d = 0 then Some axis else first_zero_axis (Suc axis) ds)"

definition validate_quantization_scale ::
  "quantization_scale \<Rightarrow> string \<Rightarrow> layout_error + unit" where
  "validate_quantization_scale scale path =
     (case scale of
        QS_PerGroup group_size \<Rightarrow>
          if group_size = 0 then Inl (LE_ScaleGroupSize path) else Inr ()
      | _ \<Rightarrow> Inr ())"

definition validate_quantization_zero_point ::
  "quantization_zero_point \<Rightarrow> string \<Rightarrow> layout_error + unit" where
  "validate_quantization_zero_point zero_point path =
     (case zero_point of
        QZ_PerGroup group_size \<Rightarrow>
          if group_size = 0 then Inl (LE_ZeroPointGroupSize path) else Inr ()
      | _ \<Rightarrow> Inr ())"

fun validate_layout_at :: "data_type \<Rightarrow> string \<Rightarrow> layout_error + unit" where
  "validate_layout_at (DT_Array n) path =
     (if n = 0 then Inl (LE_ArrayElementSize path) else Inr ())"
| "validate_layout_at (DT_Vec element count) path =
     (if count = 0 then Inl (LE_VecCount path)
      else validate_layout_at element ''DataType::Vec.element'')"
| "validate_layout_at (DT_TensorShaped element shape) path =
     (case first_zero_axis 0 shape of
        Some axis \<Rightarrow> Inl (LE_TensorShape path axis)
      | None \<Rightarrow> validate_layout_at element ''DataType::TensorShaped.element'')"
| "validate_layout_at (DT_SparseCsr element) path =
     validate_layout_at element ''DataType::SparseCsr.element''"
| "validate_layout_at (DT_SparseCoo element) path =
     validate_layout_at element ''DataType::SparseCoo.element''"
| "validate_layout_at (DT_SparseBsr element block_rows block_cols) path =
     (if block_rows = 0 then Inl (LE_BsrBlockRows path)
      else if block_cols = 0 then Inl (LE_BsrBlockCols path)
      else validate_layout_at element ''DataType::SparseBsr.element'')"
| "validate_layout_at (DT_DeviceMesh axes) path =
     (if axes = [] then Inl (LE_MeshEmpty path)
      else case first_zero_axis 0 axes of
             Some axis \<Rightarrow> Inl (LE_MeshAxis path axis)
           | None \<Rightarrow> Inr ())"
| "validate_layout_at (DT_Quantized storage scale zero_point) path =
     (if \<not> is_quantized_storage storage then Inl (LE_QuantizedStorage path storage)
      else rbind (validate_quantization_scale scale path) (\<lambda>_.
             validate_quantization_zero_point zero_point path))"
| "validate_layout_at _ path = Inr ()"

definition validate_layout :: "data_type \<Rightarrow> layout_error + unit" where
  "validate_layout t = validate_layout_at t ''DataType''"

subsection \<open>The size tables agree\<close>

lemma checked_bit_width_iff:
  "checked_bit_width_for_packed_size t = Inr (Some w) \<longleftrightarrow> bit_width t = Some w"
  by (induction t arbitrary: w) (auto simp: result_simps split: option.splits)

lemma checked_bit_width_Inl:
  "checked_bit_width_for_packed_size t = Inl e \<Longrightarrow> e = SE_NestedBits \<and> bit_width t = None"
  by (induction t arbitrary: e)
     (auto simp: result_simps ok_or_def checked_bit_width_iff split: option.splits)

lemma checked_size_bytes_iff:
  "checked_size_bytes_for_packed_size t = Inr (Some n) \<longleftrightarrow> size_bytes t = Some n"
  by (induction t arbitrary: n) (auto simp: result_simps split: option.splits)

lemma first_zero_axis_None: "first_zero_axis i ds = None \<longleftrightarrow> 0 \<notin> set ds"
  by (induction ds arbitrary: i) auto

lemma first_zero_axis_Some:
  "first_zero_axis i ds = Some k \<Longrightarrow> i \<le> k \<and> k < i + length ds \<and> ds ! (k - i) = 0"
  by (induction ds arbitrary: i) (force simp: nth_Cons' split: if_splits)+

lemma bit_width_le_size:
  "bit_width t = Some w \<Longrightarrow> size_bytes t = Some n \<Longrightarrow> unat w \<le> 8 * unat n"
proof (induction t arbitrary: w n)
  case (DT_Vec t c)
  then show ?case
    by (auto simp: usize_checked_mul_Some split: option.splits)
qed auto

fun array_free :: "data_type \<Rightarrow> bool" where
  "array_free (DT_Array _) = False"
| "array_free (DT_Vec t _) = array_free t"
| "array_free (DT_Quantized t _ _) = array_free t"
| "array_free _ = True"

lemma min_le_size: "size_bytes t = Some n \<Longrightarrow> unat (min_bytes t) \<le> unat n"
proof (induction t arbitrary: n)
  case (DT_Vec t c)
  then show ?case
    by (auto simp: usize_checked_mul_Some unat_usize_saturating_mul min.coboundedI1
        split: option.splits)
qed auto

lemma size_le_max:
  "array_free t \<Longrightarrow> size_bytes t = Some n \<Longrightarrow> max_bytes t = Some m \<Longrightarrow> unat n \<le> unat m"
proof (induction t arbitrary: n m)
  case (DT_Vec t c)
  then show ?case
    by (auto simp: usize_checked_mul_Some split: option.splits)
qed auto

lemma validated_size_pos:
  "validate_layout_at t path = Inr () \<Longrightarrow> size_bytes t = Some n \<Longrightarrow> n \<noteq> 0"
proof (induction t arbitrary: path n)
  case (DT_Vec t c)
  then obtain b where b: "size_bytes t = Some b" "usize_checked_mul b (ucast c) = Some n"
    by (auto split: option.splits)
  with DT_Vec have "b \<noteq> 0" "c \<noteq> 0" by (auto split: if_splits)
  with b show ?case by (auto simp: usize_checked_mul_Some unat_eq_zero)
next
  case (DT_Quantized t s z)
  then show ?case by (cases t) auto
qed (auto split: if_splits)

subsection \<open>Properties\<close>

lemma unat_div_8: "unat (w div 8 :: usize) = unat w div 8"
  by (simp add: unat_div_distrib)

lemma of_nat_ceil_div:
  fixes c :: usize
  assumes "unat c = n"
  shows "c div 8 = of_nat (n div 8)"
  using assms by (metis unat_div_8 word_of_nat_eq_iff word_unat_eq_iff unsigned_of_nat
      of_nat_unat ucast_id)

text \<open>
  C32. for a type of fixed bit width, the packed size of \<open>k\<close> elements is exactly
  \<open>\<lceil>width * k / 8\<rceil>\<close> whenever the rounded bit count fits a \<open>usize\<close>, and otherwise the
  overflow that occurs first is reported; no intermediate value wraps.
\<close>

theorem packed_size_bytes_exact:
  assumes "bit_width t = Some w"
  shows "packed_size_bytes t k =
    (if usize_bound \<le> unat w * unat k then Inl SE_TotalBits
     else if usize_bound \<le> unat w * unat k + 7 then Inl SE_ByteRounding
     else Inr (Some (of_nat ((unat w * unat k + 7) div 8))))"
proof -
  from assms have width: "checked_bit_width_for_packed_size t = Inr (Some w)"
    by (simp add: checked_bit_width_iff)
  show ?thesis
  proof (cases "usize_checked_mul w k")
    case None
    then show ?thesis
      by (simp add: packed_size_bytes_def width) (simp add: usize_checked_mul_None)
  next
    case (Some bits)
    then have bits: "unat bits = unat w * unat k" "\<not> usize_bound \<le> unat w * unat k"
      using usize_checked_mul_None[of w k] by (simp_all add: usize_checked_mul_Some[symmetric])
    show ?thesis
    proof (cases "usize_checked_add bits 7")
      case None
      with Some bits show ?thesis
        by (simp add: packed_size_bytes_def width) (simp add: usize_checked_add_None)
    next
      case (Some r)
      then have "unat r = unat w * unat k + 7" "\<not> usize_bound \<le> unat w * unat k + 7"
        using bits usize_checked_add_None[of bits 7] usize_checked_add_Some[of bits 7 r]
        by simp_all
      with Some bits \<open>usize_checked_mul w k = Some bits\<close> show ?thesis
        by (simp add: packed_size_bytes_def width of_nat_ceil_div)
    qed
  qed
qed

theorem packed_size_bytes_exact_witness:
  "packed_size_bytes (DT_Vec DT_I4 3) 5 = Inr (Some 8)"
  using packed_size_bytes_exact[of "DT_Vec DT_I4 3" 12 5]
  by (simp add: usize_checked_mul_def)

text \<open>
  The tables are ordered.  Wherever \<open>size_bytes\<close> is defined it is at least
  \<open>min_bytes\<close> and, for types without an \<open>Array\<close> (whose declared element size is
  not capped), at most \<open>max_bytes\<close>; and a packed buffer of \<open>k\<close> elements never needs
  more than \<open>size_bytes * k\<close> bytes.
\<close>

theorem size_tables_ordered:
  assumes "size_bytes t = Some n"
  shows "unat (min_bytes t) \<le> unat n
    \<and> (\<forall>m. array_free t \<longrightarrow> max_bytes t = Some m \<longrightarrow> unat n \<le> unat m)
    \<and> (\<forall>k p. packed_size_bytes t k = Inr (Some p) \<longrightarrow> unat p \<le> unat n * unat k)"
proof (intro conjI allI impI)
  show "unat (min_bytes t) \<le> unat n" using assms by (rule min_le_size)
next
  fix m assume "array_free t" "max_bytes t = Some m"
  then show "unat n \<le> unat m" using assms by (metis size_le_max)
next
  fix k p assume packed: "packed_size_bytes t k = Inr (Some p)"
  show "unat p \<le> unat n * unat k"
  proof (cases "bit_width t")
    case None
    with packed assms show ?thesis
      by (auto simp: packed_size_bytes_def result_simps usize_checked_mul_Some
          checked_bit_width_iff checked_size_bytes_iff split: option.splits)
  next
    case (Some w)
    let ?b = "unat w * unat k"
    have "unat w \<le> 8 * unat n" using bit_width_le_size[OF Some assms] .
    then have le: "?b \<le> 8 * (unat n * unat k)"
      by (metis mult.assoc mult_le_mono1)
    from packed Some have "checked_bit_width_for_packed_size t = Inr (Some w)"
      by (simp add: checked_bit_width_iff)
    with packed have "\<exists>r. unat r = ?b + 7 \<and> p = r div 8"
      by (auto simp: packed_size_bytes_def result_simps usize_checked_mul_Some
          usize_checked_add_Some)
    then have "unat p = (?b + 7) div 8" by (auto simp: unat_div_8)
    also have "\<dots> \<le> (8 * (unat n * unat k) + 7) div 8" using le by (intro div_le_mono) simp
    also have "\<dots> = unat n * unat k" by simp
    finally show ?thesis .
  qed
qed

text \<open>Every level of a nested type, and the extents one level declares.\<close>

fun layout_parts :: "data_type \<Rightarrow> data_type list" where
  "layout_parts (DT_Vec t n) = DT_Vec t n # layout_parts t"
| "layout_parts (DT_TensorShaped t shape) = DT_TensorShaped t shape # layout_parts t"
| "layout_parts (DT_SparseCsr t) = DT_SparseCsr t # layout_parts t"
| "layout_parts (DT_SparseCoo t) = DT_SparseCoo t # layout_parts t"
| "layout_parts (DT_SparseBsr t r c) = DT_SparseBsr t r c # layout_parts t"
| "layout_parts (DT_Quantized t s z) = DT_Quantized t s z # layout_parts t"
| "layout_parts t = [t]"

fun layout_extents :: "data_type \<Rightarrow> nat list" where
  "layout_extents (DT_Array n) = [unat n]"
| "layout_extents (DT_Vec _ n) = [unat n]"
| "layout_extents (DT_TensorShaped _ shape) = map unat shape"
| "layout_extents (DT_SparseBsr _ r c) = [unat r, unat c]"
| "layout_extents (DT_DeviceMesh axes) = map unat axes"
| "layout_extents (DT_Quantized _ s z) =
     (case s of QS_PerGroup n \<Rightarrow> [unat n] | _ \<Rightarrow> []) @ (case z of QZ_PerGroup n \<Rightarrow> [unat n] | _ \<Rightarrow> [])"
| "layout_extents _ = []"

fun shape_supported :: "data_type \<Rightarrow> bool" where
  "shape_supported (DT_DeviceMesh axes) = (axes \<noteq> [])"
| "shape_supported (DT_Quantized storage _ _) = is_quantized_storage storage"
| "shape_supported _ = True"

definition sound_part :: "data_type \<Rightarrow> bool" where
  "sound_part t = (0 \<notin> set (layout_extents t) \<and> shape_supported t)"

lemma quantized_storage_sound: "is_quantized_storage t \<Longrightarrow> list_all sound_part (layout_parts t)"
  by (cases t) (simp_all add: sound_part_def)

lemma zero_axis: "first_zero_axis i ds = None \<Longrightarrow> 0 \<notin> set ds" "first_zero_axis i ds = Some k \<Longrightarrow> 0 \<in> set ds"
  using first_zero_axis_None[of i ds] by auto

lemma validate_layout_at_iff: "validate_layout_at t path = Inr () \<longleftrightarrow> list_all sound_part (layout_parts t)"
proof (induction t arbitrary: path)
  case (DT_Quantized t s z)
  show ?case
    by (cases s; cases z)
      (auto simp: sound_part_def[of "DT_Quantized _ _ _"] quantized_storage_sound validate_quantization_scale_def
        validate_quantization_zero_point_def unat_eq_0)
next
  case (DT_TensorShaped t shape)
  then show ?case
    by (cases "first_zero_axis 0 shape")
      (auto simp: sound_part_def[of "DT_TensorShaped _ _"] unat_eq_0 image_iff zero_axis)
next
  case (DT_DeviceMesh axes)
  then show ?case
    by (cases "first_zero_axis 0 axes") (auto simp: sound_part_def unat_eq_0 image_iff zero_axis)
qed (auto simp: sound_part_def unat_eq_0)

lemma sound_parts_nested:
  "list_all sound_part (layout_parts t) \<Longrightarrow> u \<in> set (layout_parts t) \<Longrightarrow> list_all sound_part (layout_parts u)"
  by (induction t) auto

text \<open>
  C33. Layout validation is exact.  \<open>validate_layout\<close> accepts a type exactly when, at every level of nesting, no
  array size, lane count, tensor or mesh extent, block dimension or quantization group size is zero, a mesh has an
  axis and a quantized type has a supported storage type; and then no level with a fixed element size has
  size zero.
\<close>

theorem validate_layout_exact:
  "validate_layout t = Inr () \<longleftrightarrow>
     list_all (\<lambda>u. 0 \<notin> set (layout_extents u) \<and> shape_supported u \<and> size_bytes u \<noteq> Some 0) (layout_parts t)"
proof
  assume ok: "validate_layout t = Inr ()"
  then have parts: "list_all sound_part (layout_parts t)"
    by (simp add: validate_layout_def validate_layout_at_iff)
  have "size_bytes u \<noteq> Some 0" if "u \<in> set (layout_parts t)" for u
    using sound_parts_nested[OF parts that] validated_size_pos[of u] validate_layout_at_iff[of u] by blast
  with parts show "list_all (\<lambda>u. 0 \<notin> set (layout_extents u) \<and> shape_supported u \<and> size_bytes u \<noteq> Some 0)
      (layout_parts t)"
    by (simp add: list_all_iff sound_part_def)
qed (simp add: validate_layout_def validate_layout_at_iff list_all_iff sound_part_def)

end
