(* ===== verification/Spec_Ops.thy ===== *)
theory Spec_Ops
  imports Vyre_Prelude
begin

text \<open>
  The operator enumerations of \<open>vyre-spec\<close> (binary, unary, atomic and collective
  operators, buffer access modes), the memory orderings of
  \<open>vyre-foundation/src/runtime/memory_model.rs\<close>, extension identifiers, and the
  wire tag tables of \<open>vyre-foundation/src/serial/wire/tags\<close>.  The tables of the
  wire codec are lists searched in order, as in the source; the locale
  \<open>tag_table\<close> collects what the codec relies on (no tag and no operator occurs
  twice, no builtin tag is the extension marker) and is interpreted on each table.
\<close>

subsection \<open>Operators\<close>

datatype op_intensity = OI_Free | OI_Light | OI_Medium | OI_Heavy

datatype (plugins only: code size) bin_op =
    BO_Add | BO_Sub | BO_Mul | BO_Div | BO_Mod | BO_WrappingAdd | BO_WrappingSub
    | BO_BitAnd | BO_BitOr | BO_BitXor | BO_Shl | BO_Shr | BO_Eq | BO_Ne | BO_Lt | BO_Gt
    | BO_Le | BO_Ge | BO_And | BO_Or | BO_AbsDiff | BO_Min | BO_Max | BO_SaturatingAdd
    | BO_SaturatingSub | BO_SaturatingMul | BO_Shuffle | BO_Ballot | BO_WaveReduce
    | BO_WaveBroadcast | BO_RotateLeft | BO_RotateRight | BO_MulHigh
  | BO_Opaque u32

datatype (plugins only: code size) un_op =
    UO_Negate | UO_BitNot | UO_LogicalNot | UO_Popcount | UO_Clz | UO_Ctz
    | UO_ReverseBits | UO_Cos | UO_Sin | UO_Abs | UO_Sqrt | UO_Floor | UO_Ceil
    | UO_Round | UO_Trunc | UO_Sign | UO_IsNan | UO_IsInf | UO_IsFinite | UO_Exp
    | UO_Log | UO_Log2 | UO_Exp2 | UO_Tan | UO_Acos | UO_Asin | UO_Atan | UO_Tanh
    | UO_Sinh | UO_Cosh | UO_InverseSqrt | UO_Unpack4Low | UO_Unpack4High
    | UO_Unpack8Low | UO_Unpack8High | UO_Reciprocal
  | UO_Opaque u32

datatype (plugins only: code size) atomic_op =
    AO_Add | AO_Or | AO_And | AO_Xor | AO_Min | AO_Max | AO_Exchange
    | AO_CompareExchange | AO_CompareExchangeWeak | AO_FetchNand | AO_LruUpdate
  | AO_Opaque u32

datatype buffer_access = BA_ReadOnly | BA_ReadWrite | BA_Uniform | BA_WriteOnly | BA_Workgroup

datatype (plugins only: code size) collective_op = CO_Sum | CO_Min | CO_Max | CO_BitAnd | CO_BitOr | CO_BitXor

datatype (plugins only: code size) memory_ordering =
  MO_Relaxed | MO_Acquire | MO_Release | MO_AcqRel | MO_SeqCst | MO_GridSync

fun bin_op_builtin_wire_tag :: "bin_op \<Rightarrow> u8 option" where
  "bin_op_builtin_wire_tag BO_Add = Some 0x01"
| "bin_op_builtin_wire_tag BO_Sub = Some 0x02"
| "bin_op_builtin_wire_tag BO_Mul = Some 0x03"
| "bin_op_builtin_wire_tag BO_Div = Some 0x04"
| "bin_op_builtin_wire_tag BO_Mod = Some 0x05"
| "bin_op_builtin_wire_tag BO_BitAnd = Some 0x06"
| "bin_op_builtin_wire_tag BO_BitOr = Some 0x07"
| "bin_op_builtin_wire_tag BO_BitXor = Some 0x08"
| "bin_op_builtin_wire_tag BO_Shl = Some 0x09"
| "bin_op_builtin_wire_tag BO_Shr = Some 0x0A"
| "bin_op_builtin_wire_tag BO_Eq = Some 0x0B"
| "bin_op_builtin_wire_tag BO_Ne = Some 0x0C"
| "bin_op_builtin_wire_tag BO_Lt = Some 0x0D"
| "bin_op_builtin_wire_tag BO_Gt = Some 0x0E"
| "bin_op_builtin_wire_tag BO_AbsDiff = Some 0x0F"
| "bin_op_builtin_wire_tag BO_Le = Some 0x10"
| "bin_op_builtin_wire_tag BO_Ge = Some 0x11"
| "bin_op_builtin_wire_tag BO_And = Some 0x12"
| "bin_op_builtin_wire_tag BO_Or = Some 0x13"
| "bin_op_builtin_wire_tag BO_Min = Some 0x14"
| "bin_op_builtin_wire_tag BO_Max = Some 0x15"
| "bin_op_builtin_wire_tag BO_SaturatingAdd = Some 0x16"
| "bin_op_builtin_wire_tag BO_SaturatingSub = Some 0x17"
| "bin_op_builtin_wire_tag BO_SaturatingMul = Some 0x18"
| "bin_op_builtin_wire_tag BO_Shuffle = Some 0x19"
| "bin_op_builtin_wire_tag BO_Ballot = Some 0x1A"
| "bin_op_builtin_wire_tag BO_WaveReduce = Some 0x1B"
| "bin_op_builtin_wire_tag BO_WaveBroadcast = Some 0x1C"
| "bin_op_builtin_wire_tag BO_RotateLeft = Some 0x1D"
| "bin_op_builtin_wire_tag BO_RotateRight = Some 0x1E"
| "bin_op_builtin_wire_tag BO_WrappingAdd = Some 0x1F"
| "bin_op_builtin_wire_tag BO_WrappingSub = Some 0x20"
| "bin_op_builtin_wire_tag BO_MulHigh = Some 0x21"
| "bin_op_builtin_wire_tag (BO_Opaque _) = None"

fun un_op_builtin_wire_tag :: "un_op \<Rightarrow> u8 option" where
  "un_op_builtin_wire_tag UO_Negate = Some 0x01"
| "un_op_builtin_wire_tag UO_BitNot = Some 0x02"
| "un_op_builtin_wire_tag UO_LogicalNot = Some 0x03"
| "un_op_builtin_wire_tag UO_Popcount = Some 0x04"
| "un_op_builtin_wire_tag UO_Clz = Some 0x05"
| "un_op_builtin_wire_tag UO_Ctz = Some 0x06"
| "un_op_builtin_wire_tag UO_ReverseBits = Some 0x07"
| "un_op_builtin_wire_tag UO_Cos = Some 0x08"
| "un_op_builtin_wire_tag UO_Sin = Some 0x09"
| "un_op_builtin_wire_tag UO_Abs = Some 0x0A"
| "un_op_builtin_wire_tag UO_Sqrt = Some 0x0B"
| "un_op_builtin_wire_tag UO_Floor = Some 0x0C"
| "un_op_builtin_wire_tag UO_Ceil = Some 0x0D"
| "un_op_builtin_wire_tag UO_Round = Some 0x0E"
| "un_op_builtin_wire_tag UO_Trunc = Some 0x0F"
| "un_op_builtin_wire_tag UO_Sign = Some 0x10"
| "un_op_builtin_wire_tag UO_IsNan = Some 0x11"
| "un_op_builtin_wire_tag UO_IsInf = Some 0x12"
| "un_op_builtin_wire_tag UO_IsFinite = Some 0x13"
| "un_op_builtin_wire_tag UO_Exp = Some 0x14"
| "un_op_builtin_wire_tag UO_Log = Some 0x15"
| "un_op_builtin_wire_tag UO_Log2 = Some 0x16"
| "un_op_builtin_wire_tag UO_Exp2 = Some 0x17"
| "un_op_builtin_wire_tag UO_Tan = Some 0x18"
| "un_op_builtin_wire_tag UO_Acos = Some 0x19"
| "un_op_builtin_wire_tag UO_Asin = Some 0x1A"
| "un_op_builtin_wire_tag UO_Atan = Some 0x1B"
| "un_op_builtin_wire_tag UO_Tanh = Some 0x1C"
| "un_op_builtin_wire_tag UO_Sinh = Some 0x1D"
| "un_op_builtin_wire_tag UO_Cosh = Some 0x1E"
| "un_op_builtin_wire_tag UO_InverseSqrt = Some 0x1F"
| "un_op_builtin_wire_tag UO_Unpack4Low = Some 0x20"
| "un_op_builtin_wire_tag UO_Unpack4High = Some 0x21"
| "un_op_builtin_wire_tag UO_Unpack8Low = Some 0x22"
| "un_op_builtin_wire_tag UO_Unpack8High = Some 0x23"
| "un_op_builtin_wire_tag UO_Reciprocal = Some 0x24"
| "un_op_builtin_wire_tag (UO_Opaque _) = None"

fun atomic_op_builtin_wire_tag :: "atomic_op \<Rightarrow> u8 option" where
  "atomic_op_builtin_wire_tag AO_Add = Some 0x01"
| "atomic_op_builtin_wire_tag AO_Or = Some 0x02"
| "atomic_op_builtin_wire_tag AO_And = Some 0x03"
| "atomic_op_builtin_wire_tag AO_Xor = Some 0x04"
| "atomic_op_builtin_wire_tag AO_Min = Some 0x05"
| "atomic_op_builtin_wire_tag AO_Max = Some 0x06"
| "atomic_op_builtin_wire_tag AO_Exchange = Some 0x07"
| "atomic_op_builtin_wire_tag AO_CompareExchange = Some 0x08"
| "atomic_op_builtin_wire_tag AO_CompareExchangeWeak = Some 0x09"
| "atomic_op_builtin_wire_tag AO_FetchNand = Some 0x0A"
| "atomic_op_builtin_wire_tag AO_LruUpdate = Some 0x0B"
| "atomic_op_builtin_wire_tag (AO_Opaque _) = None"

fun intensity :: "bin_op \<Rightarrow> op_intensity" where
  "intensity BO_Add = OI_Light"
| "intensity BO_Sub = OI_Light"
| "intensity BO_BitAnd = OI_Light"
| "intensity BO_BitOr = OI_Light"
| "intensity BO_BitXor = OI_Light"
| "intensity BO_Shl = OI_Light"
| "intensity BO_Shr = OI_Light"
| "intensity BO_WrappingAdd = OI_Light"
| "intensity BO_WrappingSub = OI_Light"
| "intensity BO_RotateLeft = OI_Light"
| "intensity BO_RotateRight = OI_Light"
| "intensity BO_SaturatingAdd = OI_Light"
| "intensity BO_SaturatingSub = OI_Light"
| "intensity BO_SaturatingMul = OI_Light"
| "intensity BO_AbsDiff = OI_Light"
| "intensity BO_Ballot = OI_Heavy"
| "intensity BO_Shuffle = OI_Heavy"
| "intensity BO_WaveReduce = OI_Heavy"
| "intensity BO_WaveBroadcast = OI_Heavy"
| "intensity _ = OI_Medium"

fun collective_op_builtin_wire_tag :: "collective_op \<Rightarrow> u8" where
  "collective_op_builtin_wire_tag CO_Sum = 0x01"
| "collective_op_builtin_wire_tag CO_Min = 0x02"
| "collective_op_builtin_wire_tag CO_Max = 0x03"
| "collective_op_builtin_wire_tag CO_BitAnd = 0x04"
| "collective_op_builtin_wire_tag CO_BitOr = 0x05"
| "collective_op_builtin_wire_tag CO_BitXor = 0x06"

definition collective_op_from_wire_tag :: "u8 \<Rightarrow> u8 + collective_op" where
  "collective_op_from_wire_tag tag =
     (if tag = 0x01 then Inr CO_Sum
      else if tag = 0x02 then Inr CO_Min
      else if tag = 0x03 then Inr CO_Max
      else if tag = 0x04 then Inr CO_BitAnd
      else if tag = 0x05 then Inr CO_BitOr
      else if tag = 0x06 then Inr CO_BitXor
      else Inl tag)"

fun wire_tag :: "memory_ordering \<Rightarrow> u8" where
  "wire_tag MO_Relaxed = 0"
| "wire_tag MO_Acquire = 1"
| "wire_tag MO_Release = 2"
| "wire_tag MO_AcqRel = 3"
| "wire_tag MO_SeqCst = 4"
| "wire_tag MO_GridSync = 5"

definition memory_ordering_from_wire_tag :: "u8 \<Rightarrow> u8 + memory_ordering" where
  "memory_ordering_from_wire_tag tag =
     (if tag = 0 then Inr MO_Relaxed
      else if tag = 1 then Inr MO_Acquire
      else if tag = 2 then Inr MO_Release
      else if tag = 3 then Inr MO_AcqRel
      else if tag = 4 then Inr MO_SeqCst
      else if tag = 5 then Inr MO_GridSync
      else Inl tag)"

definition is_valid_for_atomic_rmw :: "memory_ordering \<Rightarrow> bool" where
  "is_valid_for_atomic_rmw ord =
     (ord = MO_Relaxed \<or> ord = MO_Acquire \<or> ord = MO_Release \<or> ord = MO_AcqRel \<or> ord = MO_SeqCst)"

definition is_valid_for_barrier :: "memory_ordering \<Rightarrow> bool" where
  "is_valid_for_barrier ord =
     (ord = MO_Acquire \<or> ord = MO_Release \<or> ord = MO_AcqRel \<or> ord = MO_SeqCst \<or> ord = MO_GridSync)"

fun access_tag :: "buffer_access \<Rightarrow> u8" where
  "access_tag BA_ReadOnly = 0"
| "access_tag BA_ReadWrite = 1"
| "access_tag BA_Uniform = 2"
| "access_tag BA_Workgroup = 3"
| "access_tag BA_WriteOnly = 4"

definition access_from_tag :: "u8 \<Rightarrow> u8 + buffer_access" where
  "access_from_tag tag =
     (if tag = 0 then Inr BA_ReadOnly
      else if tag = 1 then Inr BA_ReadWrite
      else if tag = 2 then Inr BA_Uniform
      else if tag = 3 then Inr BA_Workgroup
      else if tag = 4 then Inr BA_WriteOnly
      else Inl tag)"

subsection \<open>Extension identifiers\<close>

text \<open>\<open>fnv1a_with_high_bit\<close> folds the bytes of the name; \<open>bytes[i] as u32\<close> zero-extends.\<close>

fun fnv1a_loop :: "u32 \<Rightarrow> bytes \<Rightarrow> u32" where
  "fnv1a_loop hash [] = hash"
| "fnv1a_loop hash (b # bs) = fnv1a_loop ((hash XOR ucast b) * 0x01000193) bs"

definition fnv1a_with_high_bit :: "bytes \<Rightarrow> u32" where
  "fnv1a_with_high_bit name = fnv1a_loop 0x811c9dc5 name OR 0x80000000"

definition is_extension :: "u32 \<Rightarrow> bool" where
  "is_extension raw = (raw AND 0x80000000 \<noteq> 0)"

subsection \<open>Wire tag tables\<close>

definition ATOMIC_OP_TAGS :: "(u8 \<times> atomic_op) list" where
  "ATOMIC_OP_TAGS =
  [(0x01, AO_Add),
   (0x02, AO_Or),
   (0x03, AO_And),
   (0x04, AO_Xor),
   (0x05, AO_Min),
   (0x06, AO_Max),
   (0x07, AO_Exchange),
   (0x08, AO_CompareExchange),
   (0x09, AO_CompareExchangeWeak),
   (0x0A, AO_FetchNand),
   (0x0B, AO_LruUpdate)]"

definition BIN_OP_TAGS :: "(u8 \<times> bin_op) list" where
  "BIN_OP_TAGS =
  [(0x01, BO_Add),
   (0x02, BO_Sub),
   (0x03, BO_Mul),
   (0x04, BO_Div),
   (0x05, BO_Mod),
   (0x06, BO_BitAnd),
   (0x07, BO_BitOr),
   (0x08, BO_BitXor),
   (0x09, BO_Shl),
   (0x0A, BO_Shr),
   (0x0B, BO_Eq),
   (0x0C, BO_Ne),
   (0x0D, BO_Lt),
   (0x0E, BO_Gt),
   (0x0F, BO_Le),
   (0x10, BO_Ge),
   (0x11, BO_And),
   (0x12, BO_Or),
   (0x13, BO_AbsDiff),
   (0x14, BO_Min),
   (0x15, BO_Max),
   (0x16, BO_SaturatingAdd),
   (0x17, BO_SaturatingSub),
   (0x18, BO_SaturatingMul),
   (0x19, BO_Shuffle),
   (0x1A, BO_Ballot),
   (0x1B, BO_WaveReduce),
   (0x1C, BO_WaveBroadcast),
   (0x1D, BO_RotateLeft),
   (0x1E, BO_RotateRight),
   (0x1F, BO_WrappingAdd),
   (0x20, BO_WrappingSub),
   (0x21, BO_MulHigh)]"

definition UN_OP_TAGS :: "(u8 \<times> un_op) list" where
  "UN_OP_TAGS =
  [(0x01, UO_Negate),
   (0x02, UO_BitNot),
   (0x03, UO_LogicalNot),
   (0x04, UO_Popcount),
   (0x05, UO_Clz),
   (0x06, UO_Ctz),
   (0x07, UO_ReverseBits),
   (0x08, UO_Cos),
   (0x09, UO_Sin),
   (0x0A, UO_Abs),
   (0x0B, UO_Sqrt),
   (0x0C, UO_Floor),
   (0x0D, UO_Ceil),
   (0x0E, UO_Round),
   (0x0F, UO_Trunc),
   (0x10, UO_Sign),
   (0x11, UO_IsNan),
   (0x12, UO_IsInf),
   (0x13, UO_IsFinite),
   (0x14, UO_Exp),
   (0x15, UO_Log),
   (0x16, UO_Log2),
   (0x17, UO_Exp2),
   (0x18, UO_Tan),
   (0x19, UO_Acos),
   (0x1A, UO_Asin),
   (0x1B, UO_Atan),
   (0x1C, UO_Tanh),
   (0x1D, UO_Sinh),
   (0x1E, UO_Cosh),
   (0x1F, UO_InverseSqrt),
   (0x20, UO_Unpack4Low),
   (0x21, UO_Unpack4High),
   (0x22, UO_Unpack8Low),
   (0x23, UO_Unpack8High),
   (0x24, UO_Reciprocal)]"

fun find_tag :: "'a \<Rightarrow> (u8 \<times> 'a) list \<Rightarrow> u8 option" where
  "find_tag v [] = None"
| "find_tag v ((tag, candidate) # rest) = (if candidate = v then Some tag else find_tag v rest)"

fun decode_tag :: "u8 \<Rightarrow> (u8 \<times> 'a) list \<Rightarrow> string \<Rightarrow> (string \<times> u8) + 'a" where
  "decode_tag tag [] kind = Inl (kind, tag)"
| "decode_tag tag ((candidate, v) # rest) kind =
     (if candidate = tag then Inr v else decode_tag tag rest kind)"

definition encode_tag :: "'a \<Rightarrow> (u8 \<times> 'a) list \<Rightarrow> string \<Rightarrow> string + u8" where
  "encode_tag v table unknown_variant = ok_or (find_tag v table) unknown_variant"

definition bin_op_tag :: "bin_op \<Rightarrow> string + u8" where
  "bin_op_tag op = encode_tag op BIN_OP_TAGS ''unknown BinOp variant''"

definition un_op_tag :: "un_op \<Rightarrow> string + u8" where
  "un_op_tag op = encode_tag op UN_OP_TAGS ''unknown UnOp variant''"

definition atomic_op_tag :: "atomic_op \<Rightarrow> string + u8" where
  "atomic_op_tag op = encode_tag op ATOMIC_OP_TAGS ''unknown AtomicOp variant''"

definition bin_op_from_tag :: "u8 \<Rightarrow> (string \<times> u8) + bin_op" where
  "bin_op_from_tag tag = decode_tag tag BIN_OP_TAGS ''binary''"

definition un_op_from_tag :: "u8 \<Rightarrow> (string \<times> u8) + un_op" where
  "un_op_from_tag tag = decode_tag tag UN_OP_TAGS ''unary''"

definition atomic_op_from_tag :: "u8 \<Rightarrow> (string \<times> u8) + atomic_op" where
  "atomic_op_from_tag tag = decode_tag tag ATOMIC_OP_TAGS ''atomic''"

subsection \<open>Laws of a tag table\<close>

locale tag_table =
  fixes table :: "(u8 \<times> 'a) list"
  assumes distinct_tags: "distinct (map fst table)"
    and distinct_ops: "distinct (map snd table)"
    and no_marker: "0x80 \<notin> set (map fst table)"
begin

lemma find_tag_iff: "find_tag v table = Some tag \<longleftrightarrow> (tag, v) \<in> set table"
  using distinct_ops by (induction table) (force split: if_splits)+

lemma decode_tag_iff: "decode_tag tag table kind = Inr v \<longleftrightarrow> (tag, v) \<in> set table"
  using distinct_tags by (induction table) (force split: if_splits)+

lemma decode_encode: "encode_tag v table msg = Inr tag \<longleftrightarrow> decode_tag tag table kind = Inr v"
  by (simp add: encode_tag_def find_tag_iff decode_tag_iff)

lemma encode_not_marker: "encode_tag v table msg = Inr tag \<Longrightarrow> tag \<noteq> 0x80"
  using no_marker by (force simp: encode_tag_def find_tag_iff)

lemma encode_decode:
  "encode_tag v table msg = Inr tag \<Longrightarrow> tag \<noteq> 0x80 \<and> decode_tag tag table kind = Inr v"
  using encode_not_marker decode_encode[of v msg tag kind] by blast

end

interpretation bin_tags: tag_table BIN_OP_TAGS
  by unfold_locales (simp_all add: BIN_OP_TAGS_def)

interpretation un_tags: tag_table UN_OP_TAGS
  by unfold_locales (simp_all add: UN_OP_TAGS_def)

interpretation atomic_tags: tag_table ATOMIC_OP_TAGS
  by unfold_locales (simp_all add: ATOMIC_OP_TAGS_def)

lemma collective_roundtrip [simp]:
  "collective_op_from_wire_tag (collective_op_builtin_wire_tag op) = Inr op"
  by (cases op) (simp_all add: collective_op_from_wire_tag_def)

lemma memory_ordering_roundtrip [simp]: "memory_ordering_from_wire_tag (wire_tag ord) = Inr ord"
  by (cases ord) (simp_all add: memory_ordering_from_wire_tag_def)

lemma access_roundtrip [simp]: "access_from_tag (access_tag a) = Inr a"
  by (cases a) (simp_all add: access_from_tag_def)

subsection \<open>Properties\<close>

text \<open>
  C34. the operator tag codecs of the wire format are exact inverses.  A tag decodes
  to an operator exactly when that operator encodes to it, every builtin operator
  has a tag, extension operators have none, and no builtin tag collides with the
  extension marker \<open>0x80\<close>.
\<close>

theorem op_tag_codecs_inverse:
  "(bin_op_tag b = Inr t \<longleftrightarrow> bin_op_from_tag t = Inr b)
   \<and> (un_op_tag u = Inr t \<longleftrightarrow> un_op_from_tag t = Inr u)
   \<and> (atomic_op_tag a = Inr t \<longleftrightarrow> atomic_op_from_tag t = Inr a)
   \<and> is_ok (bin_op_tag b) = (\<nexists>i. b = BO_Opaque i)
   \<and> is_ok (un_op_tag u) = (\<nexists>i. u = UO_Opaque i)
   \<and> is_ok (atomic_op_tag a) = (\<nexists>i. a = AO_Opaque i)
   \<and> bin_op_tag b \<noteq> Inr 0x80 \<and> un_op_tag u \<noteq> Inr 0x80 \<and> atomic_op_tag a \<noteq> Inr 0x80"
proof (intro conjI)
  show "bin_op_tag b = Inr t \<longleftrightarrow> bin_op_from_tag t = Inr b"
    by (simp add: bin_op_tag_def bin_op_from_tag_def bin_tags.decode_encode)
  show "un_op_tag u = Inr t \<longleftrightarrow> un_op_from_tag t = Inr u"
    by (simp add: un_op_tag_def un_op_from_tag_def un_tags.decode_encode)
  show "atomic_op_tag a = Inr t \<longleftrightarrow> atomic_op_from_tag t = Inr a"
    by (simp add: atomic_op_tag_def atomic_op_from_tag_def atomic_tags.decode_encode)
  show "is_ok (bin_op_tag b) = (\<nexists>i. b = BO_Opaque i)"
    by (cases b) (simp_all add: bin_op_tag_def encode_tag_def BIN_OP_TAGS_def)
  show "is_ok (un_op_tag u) = (\<nexists>i. u = UO_Opaque i)"
    by (cases u) (simp_all add: un_op_tag_def encode_tag_def UN_OP_TAGS_def)
  show "is_ok (atomic_op_tag a) = (\<nexists>i. a = AO_Opaque i)"
    by (cases a) (simp_all add: atomic_op_tag_def encode_tag_def ATOMIC_OP_TAGS_def)
  show "bin_op_tag b \<noteq> Inr 0x80" using bin_tags.encode_not_marker by (auto simp: bin_op_tag_def)
  show "un_op_tag u \<noteq> Inr 0x80" using un_tags.encode_not_marker by (auto simp: un_op_tag_def)
  show "atomic_op_tag a \<noteq> Inr 0x80"
    using atomic_tags.encode_not_marker by (auto simp: atomic_op_tag_def)
qed

text \<open>
  C35. the frozen tag table of \<open>vyre-spec\<close> and the table the wire codec uses assign
  different bytes to exactly five binary operators (\<open>AbsDiff\<close>, \<open>Le\<close>, \<open>Ge\<close>, \<open>And\<close>,
  \<open>Or\<close>), while the unary and atomic tables coincide everywhere.
\<close>

theorem spec_tags_vs_wire_tags:
  "(bin_op_builtin_wire_tag b \<noteq> find_tag b BIN_OP_TAGS
      \<longleftrightarrow> b \<in> {BO_AbsDiff, BO_Le, BO_Ge, BO_And, BO_Or})
   \<and> un_op_builtin_wire_tag u = find_tag u UN_OP_TAGS
   \<and> atomic_op_builtin_wire_tag a = find_tag a ATOMIC_OP_TAGS"
proof (intro conjI)
  show "bin_op_builtin_wire_tag b \<noteq> find_tag b BIN_OP_TAGS
      \<longleftrightarrow> b \<in> {BO_AbsDiff, BO_Le, BO_Ge, BO_And, BO_Or}"
    by (cases b) (simp_all add: BIN_OP_TAGS_def)
  show "un_op_builtin_wire_tag u = find_tag u UN_OP_TAGS"
    by (cases u) (simp_all add: UN_OP_TAGS_def)
  show "atomic_op_builtin_wire_tag a = find_tag a ATOMIC_OP_TAGS"
    by (cases a) (simp_all add: ATOMIC_OP_TAGS_def)
qed

lemma high_bit_OR: "(h OR 0x80000000) AND 0x80000000 = (0x80000000 :: u32)"
  by (rule bit_word_eqI) (auto simp: bit_simps)

text \<open>
  An extension identifier derived from a name always lies in the reserved range,
  whatever the name.
\<close>

theorem fnv1a_in_extension_range: "is_extension (fnv1a_with_high_bit name)"
  by (simp add: is_extension_def fnv1a_with_high_bit_def high_bit_OR)

end
