(* ===== verification/Wire_Framing.thy ===== *)
theory Wire_Framing
  imports Spec_DataType Spec_Ops
begin

text \<open>
  The framing layer of the wire format (\<open>vyre-foundation/src/serial/wire.rs\<close>,
  \<open>serial/wire/framing\<close>, and the LEB128 routines of \<open>encode/to_wire.rs\<close>,
  \<open>decode/from_wire.rs\<close> and \<open>serial/output_set.rs\<close>).

  Encoders take the output vector and return the extended one; decoders take a
  reader (byte slice and cursor) and return a value with the advanced reader, or
  a decode error.  The recursion counter of the source's \<open>Reader\<close> is an argument of
  the recursive decoders instead of a field: \<open>node\<close> and \<open>expr\<close> increment it on
  entry and decrement it on exit, so every callee runs one level below its caller
  and the caller's own value is back when the callee returns.

  Strings are byte sequences (\<open>string\<close> with one \<open>char\<close> per UTF-8 byte).
  \<open>reads m bs v\<close> says that \<open>m\<close>, placed before the bytes \<open>bs\<close> anywhere in any
  input, returns \<open>v\<close> and consumes exactly \<open>bs\<close>; it composes along \<open>rd_bind\<close>, which
  is what all round-trip proofs of the codec rest on.  The locale \<open>codec\<close> is the
  contract between an encoder and a decoder.
\<close>

subsection \<open>Limits\<close>

definition MAX_BUFFERS :: nat where "MAX_BUFFERS = 16384"
definition MAX_NODES :: nat where "MAX_NODES = 1000000"
definition MAX_ARGS :: nat where "MAX_ARGS = 4096"
definition MAX_STRING_LEN :: nat where "MAX_STRING_LEN = 2 ^ 20"
definition MAX_OPAQUE_PAYLOAD_LEN :: nat where "MAX_OPAQUE_PAYLOAD_LEN = MAX_ARGS * 1024"
definition MAX_DECODE_DEPTH :: nat where "MAX_DECODE_DEPTH = 64"
definition MAX_PROGRAM_BYTES :: nat where "MAX_PROGRAM_BYTES = 64 * 1024 * 1024"

definition MAGIC :: bytes where "MAGIC = [0x56, 0x59, 0x52, 0x45]"
definition WIRE_FORMAT_VERSION :: u16 where "WIRE_FORMAT_VERSION = 4"

subsection \<open>Errors\<close>

text \<open>One constructor per rejection of the source, with the values its message carries.\<close>

datatype (plugins only: code size) encode_error =
    EE_StringTooLong nat
  | EE_LenOverflow string nat
  | EE_LenU64 nat
  | EE_UnknownVariant string
  | EE_ArrayElementSize usize
  | EE_TensorRank nat
  | EE_MeshRank nat
  | EE_QuantizedStorage
  | EE_ScaleGroupSize
  | EE_ZeroPointGroupSize
  | EE_OpaqueExprPayload nat
  | EE_OpaqueNodePayload nat
  | EE_WorkgroupSize nat
  | EE_WorkgroupCount string
  | EE_LiveOutCount string
  | EE_RangeElement string
  | EE_RangeOverflow string
  | EE_RangeOrder string
  | EE_RangeEnd string
  | EE_RegionId nat
  | EE_RegionElement
  | EE_RegionStorage
  | EE_OutputIndex nat
  | EE_Panic

text \<open>Errors of the program envelope and of the region and output tables.\<close>

datatype (plugins only: code size) program_decode_error =
    PD_BlobTooLarge nat
  | PD_VersionMismatch u16
  | PD_HeaderTruncated nat
  | PD_Flags u16
  | PD_EndianFlag
  | PD_Integrity
  | PD_TrailingBytes
  | PD_MissingMetadata
  | PD_FirstNotMetadata string
  | PD_MetadataOperands
  | PD_NodeOperands nat
  | PD_NodeTrailing nat
  | PD_NodeOpId nat
  | PD_OperandOrder u32 nat
  | PD_MetadataMarker
  | PD_EntryOpIdTag u8
  | PD_WorkgroupSize nat
  | PD_NonComposable u8
  | PD_OutputCount string
  | PD_LiveOutCount string
  | PD_RangeTag u8
  | PD_RangeOrder usize usize
  | PD_MetadataTrailing

datatype (plugins only: code size) region_decode_error =
    RG_RegionTableCount nat nat
  | RG_RegionId u32 nat
  | RG_MemoryKind u8
  | RG_Access u8
  | RG_ShapeTag u8
  | RG_ShapeValue string u64
  | RG_ShapeTrailing
  | RG_HintsTrailing
  | RG_RegionCount u32 u32
  | RG_WorkgroupCount string
  | RG_RangeElement string
  | RG_RangeOverflow string
  | RG_RangeEnd string
  | RG_CoalesceTag u8
  | RG_CacheLocality u8
  | RG_OutputBound u32 nat
  | RG_OutputAccess u32
  | RG_OutputOrder u32
  | RG_OutputCanonical
  | RG_OutputIndexU32 nat

datatype (plugins only: code size) decode_error =
    DE_OffsetOverflow
  | DE_Truncated
  | DE_Magic
  | DE_VersionTruncated
  | DE_Version u16
  | DE_LenLimit string nat nat
  | DE_Utf8
  | DE_LebOverflow
  | DE_LebUnterminated
  | DE_LebU32 u64
  | DE_LebLimit string nat nat
  | DE_NodeDepth
  | DE_ExprDepth
  | DE_NodeTag u8
  | DE_ExprTag u8
  | DE_OpTag string u8
  | DE_DataTypeTag u8
  | DE_DataTypePayload u8
  | DE_QuantizedStorage data_type
  | DE_ScaleParam u32
  | DE_ScaleTag u64
  | DE_ZeroPointParam u32
  | DE_ZeroPointTag u64
  | DE_ReservedExtensionId string u32
  | DE_MemoryOrderingTag u8
  | DE_CollectiveTag u8
  | DE_RegionPresence u8
  | DE_DuplicateResolver string
  | DE_NoResolver string
  | DE_Extension string
  | DE_Program program_decode_error
  | DE_Region region_decode_error

subsection \<open>Little-endian integers\<close>

definition u16_to_le_bytes :: "u16 \<Rightarrow> bytes" where
  "u16_to_le_bytes w = [ucast w, ucast (drop_bit 8 w)]"

definition u16_from_le_bytes :: "u8 \<Rightarrow> u8 \<Rightarrow> u16" where
  "u16_from_le_bytes b0 b1 = ucast b0 OR push_bit 8 (ucast b1)"

definition u32_to_le_bytes :: "u32 \<Rightarrow> bytes" where
  "u32_to_le_bytes w =
     [ucast w, ucast (drop_bit 8 w), ucast (drop_bit 16 w), ucast (drop_bit 24 w)]"

definition u32_from_le_bytes :: "u8 \<Rightarrow> u8 \<Rightarrow> u8 \<Rightarrow> u8 \<Rightarrow> u32" where
  "u32_from_le_bytes b0 b1 b2 b3 =
     ucast b0 OR push_bit 8 (ucast b1) OR push_bit 16 (ucast b2) OR push_bit 24 (ucast b3)"

definition u64_to_le_bytes :: "u64 \<Rightarrow> bytes" where
  "u64_to_le_bytes w = u32_to_le_bytes (ucast w) @ u32_to_le_bytes (ucast (drop_bit 32 w))"

definition u64_from_le_bytes :: "u32 \<Rightarrow> u32 \<Rightarrow> u64" where
  "u64_from_le_bytes lo hi = ucast lo OR push_bit 32 (ucast hi)"

lemma u16_le_roundtrip:
  "u16_from_le_bytes (ucast w) (ucast (drop_bit 8 w)) = w"
  by (rule bit_word_eqI) (auto simp: u16_from_le_bytes_def bit_simps)

lemma u32_le_roundtrip:
  "u32_from_le_bytes (ucast w) (ucast (drop_bit 8 w)) (ucast (drop_bit 16 w))
     (ucast (drop_bit 24 w)) = w"
proof (rule bit_word_eqI)
  fix n assume "n < LENGTH(32)"
  then show "bit (u32_from_le_bytes (ucast w) (ucast (drop_bit 8 w)) (ucast (drop_bit 16 w))
      (ucast (drop_bit 24 w))) n = bit w n"
    by (cases "n < 16"; cases "n < 24") (auto simp: u32_from_le_bytes_def bit_simps)
qed

lemma u64_le_roundtrip: "u64_from_le_bytes (ucast w) (ucast (drop_bit 32 w)) = w"
  by (rule bit_word_eqI) (auto simp: u64_from_le_bytes_def bit_simps)

lemma length_le_bytes [le_bytes_simps, simp]:
  "length (u16_to_le_bytes a) = 2" "length (u32_to_le_bytes b) = 4"
  "length (u64_to_le_bytes c) = 8"
  by (simp_all add: u16_to_le_bytes_def u32_to_le_bytes_def u64_to_le_bytes_def)

subsection \<open>Strings and UTF-8\<close>

definition as_bytes :: "string \<Rightarrow> bytes" where
  "as_bytes s = map (\<lambda>c. of_nat (of_char c)) s"

definition of_bytes :: "bytes \<Rightarrow> string" where
  "of_bytes bs = map (\<lambda>b. char_of (unat b)) bs"

definition utf8_cont :: "u8 \<Rightarrow> bool" where
  "utf8_cont b = (0x80 \<le> b \<and> b \<le> 0xBF)"

text \<open>
  The byte sequences \<open>std::str::from_utf8\<close> accepts: the well-formed sequences of
  the Unicode standard (no overlong forms, no surrogates, nothing above U+10FFFF).
\<close>

fun utf8_valid :: "bytes \<Rightarrow> bool" where
  "utf8_valid [] = True"
| "utf8_valid (b # rest) =
     (if b \<le> 0x7F then utf8_valid rest
      else case rest of
        [] \<Rightarrow> False
      | b1 # rest1 \<Rightarrow>
          if 0xC2 \<le> b \<and> b \<le> 0xDF then utf8_cont b1 \<and> utf8_valid rest1
          else case rest1 of
            [] \<Rightarrow> False
          | b2 # rest2 \<Rightarrow>
              if b = 0xE0 then 0xA0 \<le> b1 \<and> b1 \<le> 0xBF \<and> utf8_cont b2 \<and> utf8_valid rest2
              else if 0xE1 \<le> b \<and> b \<le> 0xEC \<or> b = 0xEE \<or> b = 0xEF then
                utf8_cont b1 \<and> utf8_cont b2 \<and> utf8_valid rest2
              else if b = 0xED then 0x80 \<le> b1 \<and> b1 \<le> 0x9F \<and> utf8_cont b2 \<and> utf8_valid rest2
              else case rest2 of
                [] \<Rightarrow> False
              | b3 # rest3 \<Rightarrow>
                  if b = 0xF0 then
                    0x90 \<le> b1 \<and> b1 \<le> 0xBF \<and> utf8_cont b2 \<and> utf8_cont b3 \<and> utf8_valid rest3
                  else if 0xF1 \<le> b \<and> b \<le> 0xF3 then
                    utf8_cont b1 \<and> utf8_cont b2 \<and> utf8_cont b3 \<and> utf8_valid rest3
                  else if b = 0xF4 then
                    0x80 \<le> b1 \<and> b1 \<le> 0x8F \<and> utf8_cont b2 \<and> utf8_cont b3 \<and> utf8_valid rest3
                  else False)"

text \<open>The invariant of Rust's \<open>str\<close>.\<close>

definition is_str :: "string \<Rightarrow> bool" where
  "is_str s = utf8_valid (as_bytes s)"

definition str_from_utf8 :: "bytes \<Rightarrow> string option" where
  "str_from_utf8 bs = (if utf8_valid bs then Some (of_bytes bs) else None)"

lemma length_as_bytes [simp]: "length (as_bytes s) = length s"
  by (simp add: as_bytes_def)

lemma char_of_of_char_u8 [simp]: "char_of (unat (of_nat (of_char c) :: u8)) = c"
proof -
  have "(of_char c :: nat) < 2 ^ 8" using nat_of_char_less_256[of c] by simp
  then have "unat (of_nat (of_char c) :: u8) = of_char c"
    by (simp add: unat_of_nat take_bit_nat_eq_self_iff)
  then show ?thesis by simp
qed

lemma of_bytes_as_bytes [simp]: "of_bytes (as_bytes s) = s"
  by (simp add: of_bytes_def as_bytes_def comp_def)

lemma str_from_utf8_as_bytes [simp]: "is_str s \<Longrightarrow> str_from_utf8 (as_bytes s) = Some s"
  by (simp add: str_from_utf8_def is_str_def)

lemma is_str_ascii:
  assumes "list_all (\<lambda>c. (of_char c :: nat) < 128) s"
  shows "is_str s"
proof -
  have "utf8_valid (as_bytes s)" using assms
  proof (induction s)
    case (Cons c s)
    then have "(of_nat (of_char c) :: u8) \<le> 0x7F"
      by (simp add: word_le_nat_alt unat_of_nat)
    with Cons show ?case by (simp add: as_bytes_def)
  qed (simp add: as_bytes_def)
  then show ?thesis by (simp add: is_str_def)
qed

subsection \<open>Appending\<close>

definition put_u8 :: "bytes \<Rightarrow> u8 \<Rightarrow> bytes" where
  "put_u8 out b = out @ [b]"

definition put_u32 :: "bytes \<Rightarrow> u32 \<Rightarrow> bytes" where
  "put_u32 out w = out @ u32_to_le_bytes w"

definition put_len_u32 :: "bytes \<Rightarrow> nat \<Rightarrow> string \<Rightarrow> encode_error + bytes" where
  "put_len_u32 out n label =
     (if n < 2 ^ 32 then Inr (put_u32 out (of_nat n)) else Inl (EE_LenOverflow label n))"

definition put_string :: "bytes \<Rightarrow> string \<Rightarrow> encode_error + bytes" where
  "put_string out s =
     (if length s > MAX_STRING_LEN then Inl (EE_StringTooLong (length s))
      else rbind (put_len_u32 out (length s) ''string length'') (\<lambda>out.
             Inr (out @ as_bytes s)))"

text \<open>The loops \<open>for x in xs { put(out, x)?; }\<close>.\<close>

fun put_all :: "(bytes \<Rightarrow> 'a \<Rightarrow> encode_error + bytes) \<Rightarrow> bytes \<Rightarrow> 'a list \<Rightarrow> encode_error + bytes"
where
  "put_all put out [] = Inr out"
| "put_all put out (x # xs) = rbind (put out x) (\<lambda>out. put_all put out xs)"

definition u64_of_len :: "nat \<Rightarrow> encode_error + u64" where
  "u64_of_len n = (if n < 2 ^ 64 then Inr (of_nat n) else Inl (EE_LenU64 n))"

subsection \<open>The reader\<close>

record reader =
  rd_bytes :: bytes
  rd_pos :: nat

type_synonym 'a parser = "reader \<Rightarrow> decode_error + ('a \<times> reader)"

definition rd_ret :: "'a \<Rightarrow> 'a parser" where
  "rd_ret x r = Inr (x, r)"

definition rd_fail :: "decode_error \<Rightarrow> 'a parser" where
  "rd_fail e r = Inl e"

definition rd_bind :: "'a parser \<Rightarrow> ('a \<Rightarrow> 'b parser) \<Rightarrow> 'b parser" where
  "rd_bind m k r = (case m r of Inl e \<Rightarrow> Inl e | Inr (x, r') \<Rightarrow> k x r')"

definition rd_lift :: "decode_error + 'a \<Rightarrow> 'a parser" where
  "rd_lift m r = (case m of Inl e \<Rightarrow> Inl e | Inr x \<Rightarrow> Inr (x, r))"

definition map_err :: "('e \<Rightarrow> 'f) \<Rightarrow> 'e + 'a \<Rightarrow> 'f + 'a" where
  "map_err f m = (case m of Inl e \<Rightarrow> Inl (f e) | Inr x \<Rightarrow> Inr x)"

definition rd_start :: "bytes \<Rightarrow> reader" where
  "rd_start bs = \<lparr>rd_bytes = bs, rd_pos = 0\<rparr>"

definition rd_at_end :: "reader \<Rightarrow> bool" where
  "rd_at_end r = (rd_pos r = length (rd_bytes r))"

definition rd_take :: "nat \<Rightarrow> bytes parser" where
  "rd_take n r =
     (if rd_pos r + n \<ge> usize_bound then Inl DE_OffsetOverflow
      else if rd_pos r + n > length (rd_bytes r) then Inl DE_Truncated
      else Inr (take n (drop (rd_pos r) (rd_bytes r)), r\<lparr>rd_pos := rd_pos r + n\<rparr>))"

definition rd_u8 :: "u8 parser" where
  "rd_u8 = rd_bind (rd_take 1) (\<lambda>bs. rd_ret (bs ! 0))"

definition rd_u32 :: "u32 parser" where
  "rd_u32 = rd_bind (rd_take 4) (\<lambda>bs.
     rd_ret (u32_from_le_bytes (bs ! 0) (bs ! 1) (bs ! 2) (bs ! 3)))"

definition rd_u64 :: "u64 parser" where
  "rd_u64 = rd_bind (rd_take 8) (\<lambda>bs.
     rd_ret (u64_from_le_bytes
       (u32_from_le_bytes (bs ! 0) (bs ! 1) (bs ! 2) (bs ! 3))
       (u32_from_le_bytes (bs ! 4) (bs ! 5) (bs ! 6) (bs ! 7))))"

definition rd_bounded_len :: "nat \<Rightarrow> string \<Rightarrow> nat parser" where
  "rd_bounded_len limit label = rd_bind rd_u32 (\<lambda>raw.
     if unat raw > limit then rd_fail (DE_LenLimit label (unat raw) limit) else rd_ret (unat raw))"

definition rd_string :: "string parser" where
  "rd_string = rd_bind (rd_bounded_len MAX_STRING_LEN ''string length'') (\<lambda>len.
     rd_bind (rd_take len) (\<lambda>bs. rd_lift (ok_or (str_from_utf8 bs) DE_Utf8)))"

text \<open>The counted loops \<open>for _ in 0..count { v.push(m()?) }\<close>.\<close>

fun rd_repeat :: "nat \<Rightarrow> 'a parser \<Rightarrow> 'a list parser" where
  "rd_repeat 0 m = rd_ret []"
| "rd_repeat (Suc n) m = rd_bind m (\<lambda>x. rd_bind (rd_repeat n m) (\<lambda>xs. rd_ret (x # xs)))"

definition expect_magic :: "unit parser" where
  "expect_magic r =
     (if length (rd_bytes r) < length MAGIC \<or> take (length MAGIC) (rd_bytes r) \<noteq> MAGIC
      then Inl DE_Magic
      else if length (rd_bytes r) < length MAGIC + 2 then Inl DE_VersionTruncated
      else let version = u16_from_le_bytes (rd_bytes r ! 4) (rd_bytes r ! 5) in
           if version \<noteq> WIRE_FORMAT_VERSION then Inl (DE_Version version)
           else Inr ((), r\<lparr>rd_pos := length MAGIC + 2\<rparr>))"

lemma rd_bind_cong [fundef_cong]:
  assumes "m r = m' r'" and "r = r'"
    and "\<And>x s. m' r' = Inr (x, s) \<Longrightarrow> k x s = k' x s"
  shows "rd_bind m k r = rd_bind m' k' r'"
  using assms by (auto simp: rd_bind_def split: sum.splits)

lemma rd_bind_Inr:
  "rd_bind m k r = Inr y \<longleftrightarrow> (\<exists>x s. m r = Inr (x, s) \<and> k x s = Inr y)"
  by (auto simp: rd_bind_def split: sum.splits)

lemma rd_bind_steps:
  "rd_bind (rd_bind m f) k = rd_bind m (\<lambda>x. rd_bind (f x) k)"
  "rd_bind (rd_ret x) g = g x"
  "rd_bind (rd_fail e) h = rd_fail e"
  "rd_bind (if b then m else m') h' = (if b then rd_bind m h' else rd_bind m' h')"
  by (auto simp: fun_eq_iff rd_bind_def rd_ret_def rd_fail_def split: sum.splits)

lemma rd_bind_const: "(\<And>r. m r = Inr (v, r)) \<Longrightarrow> rd_bind m k = k v"
  by (simp add: fun_eq_iff rd_bind_def)

lemma rd_ret_Inr: "rd_ret x r = Inr y \<longleftrightarrow> y = (x, r)"
  by (auto simp: rd_ret_def)

lemma rd_fail_Inr: "rd_fail e r = Inr y \<longleftrightarrow> False"
  by (simp add: rd_fail_def)

lemma rd_lift_Inr: "rd_lift m r = Inr y \<longleftrightarrow> (\<exists>x. m = Inr x \<and> y = (x, r))"
  by (cases m) (auto simp: rd_lift_def)

lemma map_err_Inr [simp]: "map_err f m = Inr x \<longleftrightarrow> m = Inr x"
  by (cases m) (auto simp: map_err_def)

lemma map_err_simps [simp]: "map_err f (Inl e) = Inl (f e)" "map_err f (Inr x) = Inr x"
  by (simp_all add: map_err_def)

lemmas rd_Inr = rd_bind_Inr rd_ret_Inr rd_fail_Inr rd_lift_Inr

subsection \<open>Bounds of a reader\<close>

definition rd_wf :: "reader \<Rightarrow> bool" where
  "rd_wf r = (rd_pos r \<le> length (rd_bytes r))"

definition safe_parser :: "'a parser \<Rightarrow> bool" where
  "safe_parser m = (\<forall>r x r'. m r = Inr (x, r') \<longrightarrow>
     rd_bytes r' = rd_bytes r \<and> rd_pos r \<le> rd_pos r' \<and> (rd_wf r \<longrightarrow> rd_wf r'))"

named_theorems safe_intros \<open>parsers whose cursor only advances and stays in bounds\<close>

lemma safe_parserD:
  assumes "safe_parser m" "m r = Inr (x, r')"
  shows "rd_bytes r' = rd_bytes r" "rd_pos r \<le> rd_pos r'" "rd_wf r \<Longrightarrow> rd_wf r'"
  using assms by (auto simp: safe_parser_def)

definition advanced :: "reader \<Rightarrow> reader \<Rightarrow> bool" where
  "advanced r r' = (rd_bytes r' = rd_bytes r \<and> rd_pos r \<le> rd_pos r' \<and> (rd_wf r \<longrightarrow> rd_wf r'))"

lemma safe_advanced: "safe_parser m \<Longrightarrow> m r = Inr (x, r') \<Longrightarrow> advanced r r'"
  by (auto simp: safe_parser_def advanced_def)

lemma advanced_trans: "advanced r s \<Longrightarrow> advanced s t \<Longrightarrow> advanced r t"
  by (auto simp: advanced_def)

lemma safe_ret [safe_intros]: "safe_parser (rd_ret x)"
  by (simp add: safe_parser_def rd_ret_def)

lemma safe_fail [safe_intros]: "safe_parser (rd_fail e)"
  by (simp add: safe_parser_def rd_fail_def)

lemma safe_lift [safe_intros]: "safe_parser (rd_lift m)"
  by (auto simp: safe_parser_def rd_lift_Inr)

lemma safe_bind [safe_intros]:
  assumes "safe_parser m" "\<And>x. safe_parser (k x)"
  shows "safe_parser (rd_bind m k)"
  using assms unfolding safe_parser_def by (fastforce simp: rd_bind_Inr)

lemma safe_if [safe_intros]:
  "safe_parser m \<Longrightarrow> safe_parser m' \<Longrightarrow> safe_parser (if b then m else m')"
  by simp

lemma safe_case_prod [safe_intros]:
  "(\<And>a b. safe_parser (f a b)) \<Longrightarrow> safe_parser (case p of (a, b) \<Rightarrow> f a b)"
  by (cases p) simp

lemma safe_take [safe_intros]: "safe_parser (rd_take n)"
  by (auto simp: safe_parser_def rd_take_def rd_wf_def split: if_splits)

lemma safe_u8 [safe_intros]: "safe_parser rd_u8"
  unfolding rd_u8_def by (intro safe_intros)

lemma safe_u32 [safe_intros]: "safe_parser rd_u32"
  unfolding rd_u32_def by (intro safe_intros)

lemma safe_u64 [safe_intros]: "safe_parser rd_u64"
  unfolding rd_u64_def by (intro safe_intros)

lemma safe_bounded_len [safe_intros]: "safe_parser (rd_bounded_len n l)"
  unfolding rd_bounded_len_def by (intro safe_intros)

lemma safe_string [safe_intros]: "safe_parser rd_string"
  unfolding rd_string_def by (intro safe_intros)

lemma safe_repeat [safe_intros]: "safe_parser m \<Longrightarrow> safe_parser (rd_repeat n m)"
  by (induction n) (auto intro: safe_intros)

lemma rd_u8_advances:
  assumes "rd_u8 r = Inr (b, r')"
  shows "rd_bytes r' = rd_bytes r \<and> rd_pos r' = Suc (rd_pos r) \<and> rd_pos r < length (rd_bytes r)"
  using assms by (auto simp: rd_u8_def rd_take_def rd_Inr split: if_splits)

subsection \<open>Reading back what was written\<close>

definition rd_at :: "bytes \<Rightarrow> bytes \<Rightarrow> reader" where
  "rd_at pre post = \<lparr>rd_bytes = pre @ post, rd_pos = length pre\<rparr>"

definition reads :: "'a parser \<Rightarrow> bytes \<Rightarrow> 'a \<Rightarrow> bool" where
  "reads m bs v = (\<forall>pre post. length (pre @ bs @ post) < usize_bound \<longrightarrow>
     m (rd_at pre (bs @ post)) = Inr (v, rd_at (pre @ bs) post))"

named_theorems reads_intros \<open>parsers reading back encoded bytes\<close>

lemma readsI:
  assumes "\<And>pre post. length (pre @ bs @ post) < usize_bound \<Longrightarrow>
    m (rd_at pre (bs @ post)) = Inr (v, rd_at (pre @ bs) post)"
  shows "reads m bs v"
  using assms by (simp add: reads_def)

lemma readsD:
  assumes "reads m bs v" "length pre + length bs + length post < usize_bound"
  shows "m (rd_at pre (bs @ post)) = Inr (v, rd_at (pre @ bs) post)"
  using assms by (simp add: reads_def)

lemma reads_start:
  assumes "reads m bs v" "length bs < usize_bound"
  shows "m (rd_start bs) = Inr (v, \<lparr>rd_bytes = bs, rd_pos = length bs\<rparr>)"
  using readsD[OF assms(1), of "[]" "[]"] assms(2) by (simp add: rd_at_def rd_start_def)

lemma reads_ret [reads_intros]: "reads (rd_ret v) [] v"
  by (simp add: reads_def rd_ret_def)

lemma reads_lift: "m = Inr v \<Longrightarrow> reads (rd_lift m) [] v"
  by (simp add: reads_def rd_lift_def)

lemma reads_bind:
  assumes "reads m bs x" "reads (k x) cs v"
  shows "reads (rd_bind m k) (bs @ cs) v"
proof (rule readsI)
  fix pre post :: bytes assume len: "length (pre @ (bs @ cs) @ post) < usize_bound"
  have "m (rd_at pre (bs @ cs @ post)) = Inr (x, rd_at (pre @ bs) (cs @ post))"
    using assms(1) len by (intro readsD) auto
  moreover have "k x (rd_at (pre @ bs) (cs @ post)) = Inr (v, rd_at ((pre @ bs) @ cs) post)"
    using assms(2) len by (intro readsD) auto
  ultimately show "rd_bind m k (rd_at pre ((bs @ cs) @ post)) = Inr (v, rd_at (pre @ bs @ cs) post)"
    by (simp add: rd_bind_def)
qed

lemma reads_bind_nil:
  assumes "reads m bs x" "reads (k x) [] v"
  shows "reads (rd_bind m k) bs v"
  using reads_bind[of m bs x k "[]" v] assms by simp

lemma reads_cong: "reads m bs v \<Longrightarrow> bs = cs \<Longrightarrow> v = w \<Longrightarrow> reads m cs w"
  by simp

lemma reads_take: "length bs = n \<Longrightarrow> reads (rd_take n) bs bs"
  by (rule readsI) (auto simp: rd_take_def rd_at_def)

lemma reads_u8 [reads_intros]: "reads rd_u8 [b] b"
  unfolding rd_u8_def
  by (rule reads_bind_nil[OF reads_take]) (simp_all add: reads_ret)

lemma reads_u8_bind: "reads (k b) bs v \<Longrightarrow> reads (rd_bind rd_u8 k) (b # bs) v"
  using reads_bind[OF reads_u8, of k b bs v] by simp

lemma reads_u32 [reads_intros]: "reads rd_u32 (u32_to_le_bytes w) w"
  unfolding rd_u32_def
proof (rule reads_bind_nil[OF reads_take])
  show "length (u32_to_le_bytes w) = 4" by simp
  show "reads (rd_ret (u32_from_le_bytes (u32_to_le_bytes w ! 0) (u32_to_le_bytes w ! 1)
      (u32_to_le_bytes w ! 2) (u32_to_le_bytes w ! 3))) [] w"
    by (rule reads_cong[OF reads_ret]) (simp_all add: u32_to_le_bytes_def u32_le_roundtrip)
qed

lemma reads_u32_bind:
  "reads (k w) bs v \<Longrightarrow> reads (rd_bind rd_u32 k) (u32_to_le_bytes w @ bs) v"
  by (rule reads_bind[OF reads_u32])

lemma reads_u64 [reads_intros]: "reads rd_u64 (u64_to_le_bytes w) w"
  unfolding rd_u64_def
  by (rule reads_bind_nil[OF reads_take], simp, rule reads_cong[OF reads_ret])
     (simp_all add: u64_to_le_bytes_def u32_to_le_bytes_def nth_append u32_le_roundtrip
        u64_le_roundtrip)

lemma unat_of_nat_u32: "n < 2 ^ 32 \<Longrightarrow> unat (of_nat n :: u32) = n"
  by (simp add: unat_of_nat take_bit_nat_eq_self_iff)

lemma reads_bounded_len:
  "n \<le> limit \<Longrightarrow> n < 2 ^ 32 \<Longrightarrow>
   reads (rd_bounded_len limit label) (u32_to_le_bytes (of_nat n)) n"
  unfolding rd_bounded_len_def
  by (rule reads_bind_nil[OF reads_u32]) (simp add: unat_of_nat_u32 reads_ret)

lemma reads_string:
  assumes "is_str s" "length s \<le> MAX_STRING_LEN"
  shows "reads rd_string (u32_to_le_bytes (of_nat (length s)) @ as_bytes s) s"
  unfolding rd_string_def
proof (rule reads_bind)
  show "reads (rd_bounded_len MAX_STRING_LEN ''string length'')
          (u32_to_le_bytes (of_nat (length s))) (length s)"
    using assms(2) by (intro reads_bounded_len) (simp_all add: MAX_STRING_LEN_def)
  show "reads (rd_bind (rd_take (length s)) (\<lambda>bs. rd_lift (ok_or (str_from_utf8 bs) DE_Utf8)))
          (as_bytes s) s"
    by (rule reads_bind_nil[OF reads_take], simp, rule reads_lift) (simp add: assms(1))
qed

lemma put_string_Inr:
  "put_string out s = Inr out' \<longleftrightarrow>
   length s \<le> MAX_STRING_LEN \<and>
   out' = out @ u32_to_le_bytes (of_nat (length s)) @ as_bytes s"
  by (auto simp: put_string_def put_len_u32_def put_u32_def result_simps MAX_STRING_LEN_def)

lemma put_len_u32_Inr:
  "put_len_u32 out n label = Inr out' \<longleftrightarrow> n < 2 ^ 32 \<and> out' = out @ u32_to_le_bytes (of_nat n)"
  by (auto simp: put_len_u32_def put_u32_def)

subsection \<open>Refused input\<close>

definition refuses :: "'a parser \<Rightarrow> bytes \<Rightarrow> decode_error \<Rightarrow> bool" where
  "refuses m bs e = (\<forall>pre post. length (pre @ bs @ post) < usize_bound \<longrightarrow>
     m (rd_at pre (bs @ post)) = Inl e)"

lemma refuses_fail: "refuses (rd_fail e) bs e"
  by (simp add: refuses_def rd_fail_def)

lemma refuses_bind:
  assumes "reads m bs x" "refuses (k x) cs e"
  shows "refuses (rd_bind m k) (bs @ cs) e"
  unfolding refuses_def
proof (intro allI impI)
  fix pre post :: bytes assume len: "length (pre @ (bs @ cs) @ post) < usize_bound"
  then have "m (rd_at pre (bs @ cs @ post)) = Inr (x, rd_at (pre @ bs) (cs @ post))"
    by (intro readsD[OF assms(1)]) simp
  with assms(2) len show "rd_bind m k (rd_at pre ((bs @ cs) @ post)) = Inl e"
    by (simp add: rd_bind_def refuses_def)
qed

subsection \<open>What a parser returns\<close>

definition yields :: "'a parser \<Rightarrow> ('a \<Rightarrow> bool) \<Rightarrow> bool" where
  "yields m P = (\<forall>r x r'. m r = Inr (x, r') \<longrightarrow> P x)"

lemma yieldsD: "yields m P \<Longrightarrow> m r = Inr (x, r') \<Longrightarrow> P x"
  by (auto simp: yields_def)

lemma yields_ret: "P x \<Longrightarrow> yields (rd_ret x) P"
  by (simp add: yields_def rd_ret_def)

lemma yields_fail: "yields (rd_fail e) P"
  by (simp add: yields_def rd_fail_def)

lemma yields_lift: "(\<And>x. m = Inr x \<Longrightarrow> P x) \<Longrightarrow> yields (rd_lift m) P"
  by (auto simp: yields_def rd_lift_Inr)

lemma yields_bind:
  "yields m Q \<Longrightarrow> (\<And>x. Q x \<Longrightarrow> yields (k x) P) \<Longrightarrow> yields (rd_bind m k) P"
  unfolding yields_def rd_bind_Inr by blast

lemma yields_bind_any: "(\<And>x. yields (k x) P) \<Longrightarrow> yields (rd_bind m k) P"
  unfolding yields_def rd_bind_Inr by blast

lemma yields_bind_lift:
  "(\<And>x. m = Inr x \<Longrightarrow> yields (k x) P) \<Longrightarrow> yields (rd_bind (rd_lift m) k) P"
  by (auto simp: yields_def rd_bind_Inr rd_lift_Inr)

lemma yields_case_prod:
  "(\<And>a b. x = (a, b) \<Longrightarrow> yields (f a b) P) \<Longrightarrow> yields (case x of (a, b) \<Rightarrow> f a b) P"
  by (cases x) simp

lemma yields_if: "(b \<Longrightarrow> yields m P) \<Longrightarrow> (\<not> b \<Longrightarrow> yields m' P) \<Longrightarrow> yields (if b then m else m') P"
  by simp

lemma yields_repeat: "yields m P \<Longrightarrow> yields (rd_repeat n m) (\<lambda>xs. length xs = n \<and> list_all P xs)"
proof (induction n)
  case (Suc n)
  have "yields (rd_bind m (\<lambda>x. rd_bind (rd_repeat n m) (\<lambda>xs. rd_ret (x # xs))))
      (\<lambda>xs. length xs = Suc n \<and> list_all P xs)"
    by (rule yields_bind[OF Suc.prems], rule yields_bind[OF Suc.IH[OF Suc.prems]])
       (simp add: yields_ret)
  then show ?case by simp
qed (simp add: yields_ret)

lemma yields_bounded_len: "yields (rd_bounded_len limit label) (\<lambda>n. n \<le> limit)"
  unfolding rd_bounded_len_def
  by (rule yields_bind_any, rule yields_if) (simp_all add: yields_fail yields_ret)

lemma as_bytes_of_bytes [simp]: "as_bytes (of_bytes bs) = bs"
proof -
  have "unat b mod 256 = unat b" for b :: u8
    using unsigned_less[of b, where 'a = nat] by simp
  then show ?thesis by (simp add: as_bytes_def of_bytes_def comp_def)
qed

lemma length_of_bytes [simp]: "length (of_bytes bs) = length bs"
  by (simp add: of_bytes_def)

lemma yields_string: "yields rd_string (\<lambda>s. is_str s \<and> length s \<le> MAX_STRING_LEN)"
proof -
  have "yields (rd_bind (rd_take n) (\<lambda>bs. rd_lift (ok_or (str_from_utf8 bs) DE_Utf8)))
      (\<lambda>s. is_str s \<and> length s \<le> MAX_STRING_LEN)" if "n \<le> MAX_STRING_LEN" for n
  proof (rule yields_bind[where Q = "\<lambda>bs. length bs \<le> n"])
    show "yields (rd_take n) (\<lambda>bs. length bs \<le> n)"
      by (auto simp: yields_def rd_take_def split: if_splits)
    fix bs :: bytes assume "length bs \<le> n"
    with that show "yields (rd_lift (ok_or (str_from_utf8 bs) DE_Utf8))
        (\<lambda>s. is_str s \<and> length s \<le> MAX_STRING_LEN)"
      by (intro yields_lift) (auto simp: str_from_utf8_def is_str_def result_simps split: if_splits)
  qed
  then show ?thesis unfolding rd_string_def by (intro yields_bind[OF yields_bounded_len])
qed

subsection \<open>Encoders that a parser reads back\<close>

text \<open>
  \<open>put\<close> only appends, and whatever it appends is read by \<open>m\<close> as \<open>v\<close>.  Sequencing on both
  sides preserves this, so a codec proof follows the shape of the encoder.
\<close>

definition wrote :: "(bytes \<Rightarrow> encode_error + bytes) \<Rightarrow> 'a parser \<Rightarrow> 'a \<Rightarrow> bool" where
  "wrote put m v =
     (\<forall>out out'. put out = Inr out' \<longrightarrow> (\<exists>bs. out' = out @ bs \<and> reads m bs v))"

lemma wroteD: "wrote put m v \<Longrightarrow> put out = Inr out' \<Longrightarrow> \<exists>bs. out' = out @ bs \<and> reads m bs v"
  by (simp add: wrote_def)

lemma wrote_ret: "wrote Inr (rd_ret v) v"
  by (auto simp: wrote_def intro: reads_ret)

lemma wrote_bind:
  assumes "wrote f m x" "wrote g (k x) v"
  shows "wrote (\<lambda>out. rbind (f out) g) (rd_bind m k) v"
  unfolding wrote_def
proof (intro allI impI)
  fix out out' assume "rbind (f out) g = Inr out'"
  then obtain mid where "f out = Inr mid" "g mid = Inr out'" by (auto elim: rbind_InrE)
  then obtain bs cs where "mid = out @ bs" "reads m bs x" "out' = mid @ cs" "reads (k x) cs v"
    using assms by (metis wroteD)
  then show "\<exists>bs. out' = out @ bs \<and> reads (rd_bind m k) bs v"
    by (auto intro!: exI[of _ "bs @ cs"] reads_bind)
qed

lemma wrote_u8:
  assumes "wrote g (k b) v"
  shows "wrote (\<lambda>out. g (put_u8 out b)) (rd_bind rd_u8 k) v"
  using assms unfolding wrote_def by (fastforce simp: put_u8_def intro: reads_u8_bind)

lemma wrote_u32:
  assumes "wrote g (k w) v"
  shows "wrote (\<lambda>out. g (put_u32 out w)) (rd_bind rd_u32 k) v"
  using assms unfolding wrote_def by (fastforce simp: put_u32_def intro: reads_u32_bind)

lemma wrote_last:
  assumes "wrote f m x" "reads (k x) [] v"
  shows "wrote f (rd_bind m k) v"
  using assms unfolding wrote_def by (fastforce intro: reads_bind_nil)

lemma wrote_nil: "reads m [] v \<Longrightarrow> wrote Inr m v"
  by (auto simp: wrote_def)

lemma wrote_seq_u8:
  assumes "wrote (\<lambda>out. Inr (put_u8 out b)) m x" "wrote g (k x) v"
  shows "wrote (\<lambda>out. g (put_u8 out b)) (rd_bind m k) v"
  using wrote_bind[of "\<lambda>out. Inr (put_u8 out b)" m x g k v] assms by simp

lemma wrote_put_all:
  assumes "\<And>x. x \<in> set xs \<Longrightarrow> wrote (\<lambda>out. put out x) m (norm x)"
  shows "wrote (\<lambda>out. put_all put out xs) (rd_repeat (length xs) m) (map norm xs)"
  using assms
proof (induction xs)
  case Nil
  then show ?case by (simp add: wrote_nil reads_ret)
next
  case (Cons x xs)
  have "wrote (\<lambda>out. put_all put out xs)
      (rd_bind (rd_repeat (length xs) m) (\<lambda>ys. rd_ret (norm x # ys))) (norm x # map norm xs)"
    using Cons by (intro wrote_last[OF _ reads_ret]) simp
  with Cons.prems show ?case
    by (simp add: wrote_bind[of "\<lambda>out. put out x" m "norm x"])
qed

subsection \<open>The contract between an encoder and a decoder\<close>

text \<open>
  \<open>put\<close> appends to an output vector, \<open>get\<close> decodes; \<open>norm\<close> is the value that comes
  back (the encoder may canonicalise), \<open>fits\<close> the values the decoder's limits admit.
\<close>

locale codec =
  fixes put :: "bytes \<Rightarrow> 'a \<Rightarrow> encode_error + bytes"
    and get :: "'b parser"
    and norm :: "'a \<Rightarrow> 'b"
    and fits :: "'a \<Rightarrow> bool"
  assumes put_get:
    "put out x = Inr out' \<Longrightarrow> fits x \<Longrightarrow> \<exists>bs. out' = out @ bs \<and> reads get bs (norm x)"
begin

lemma put_wrote: "fits x \<Longrightarrow> wrote (\<lambda>out. put out x) get (norm x)"
  unfolding wrote_def using put_get by blast

lemma put_all_reads:
  "put_all put out xs = Inr out' \<Longrightarrow> list_all fits xs \<Longrightarrow>
   \<exists>bs. out' = out @ bs \<and> reads (rd_repeat (length xs) get) bs (map norm xs)"
proof (induction xs arbitrary: out)
  case Nil
  then show ?case using reads_ret[of "[]"] by auto
next
  case (Cons x xs)
  then obtain mid where "put out x = Inr mid" "put_all put mid xs = Inr out'" by (auto elim: rbind_InrE)
  moreover from this(1) Cons.prems obtain bs where "mid = out @ bs" "reads get bs (norm x)"
    using put_get by (metis list.pred_inject(2))
  moreover from \<open>put_all put mid xs = Inr out'\<close> Cons obtain cs where
    "out' = mid @ cs" "reads (rd_repeat (length xs) get) cs (map norm xs)" by auto
  ultimately have "out' = out @ bs @ cs"
    "reads (rd_repeat (length (x # xs)) get) (bs @ cs) (map norm (x # xs))"
    by (auto intro!: reads_bind reads_bind_nil[OF _ reads_ret])
  then show ?case by blast
qed

end

interpretation string_codec: codec put_string rd_string "\<lambda>s. s" is_str
  by unfold_locales (auto simp: put_string_Inr intro: reads_string)

lemmas wrote_string = string_codec.put_wrote

interpretation u32_codec: codec "\<lambda>out w. Inr (put_u32 out w)" rd_u32 "\<lambda>w. w" "\<lambda>_. True"
  by unfold_locales (auto simp: put_u32_def intro: reads_u32)

lemma wrote_len_u32:
  "n \<le> limit \<Longrightarrow> wrote (\<lambda>out. put_len_u32 out n label) (rd_bounded_len limit label') n"
  by (auto simp: wrote_def put_len_u32_Inr intro: reads_bounded_len)

lemma wrote_raw: "wrote (\<lambda>out. Inr (out @ bs)) (rd_take (length bs)) bs"
  by (auto simp: wrote_def intro: reads_take)

lemma wrote_lift:
  assumes "x = Inr y" "wrote g (k y) v"
  shows "wrote g (rd_bind (rd_lift x) k) v"
  using assms by (simp add: rd_lift_def rd_bind_def[abs_def] wrote_def reads_def)

lemma wrote_ret_eq: "v = w \<Longrightarrow> wrote Inr (rd_ret v) w"
  by (simp add: wrote_ret)

lemma wrote_guard:
  "(\<not> b \<Longrightarrow> wrote g m v) \<Longrightarrow> wrote (\<lambda>out. if b then Inl e else g out) m v"
  by (cases b) (simp_all add: wrote_def)

lemma wrote_bytes:
  "wrote g (k bs) v \<Longrightarrow> wrote (\<lambda>out. g (out @ bs)) (rd_bind (rd_take (length bs)) k) v"
  using wrote_bind[OF wrote_raw, where g = g and k = k and v = v] by simp

end
