(* ===== verification/Wire_DataType.thy ===== *)
theory Wire_DataType
  imports Wire_Framing
begin

text \<open>
  The data type codec: \<open>serial/wire/tags/data_type_tag.rs\<close> and
  \<open>tags/data_type_from_tag.rs\<close>, with \<open>Reader::data_type\<close> and the quantization
  readers of \<open>serial/wire/decode/impl_reader.rs\<close>.  The decoder recurses on the
  element type without a depth counter; it terminates because every level consumes
  its tag byte.  Proved: encoding only appends, and decoding what was appended
  gives the type back, for every type whose extension identifiers lie in the
  extension range (the decoder rejects the others).
\<close>

subsection \<open>Encoding\<close>

fun data_type_tag :: "data_type \<Rightarrow> u8" where
  "data_type_tag DT_U32 = 0x01"
| "data_type_tag DT_I32 = 0x02"
| "data_type_tag DT_U64 = 0x03"
| "data_type_tag DT_Vec2U32 = 0x04"
| "data_type_tag DT_Vec4U32 = 0x05"
| "data_type_tag DT_Bool = 0x06"
| "data_type_tag DT_Bytes = 0x07"
| "data_type_tag (DT_Array _) = 0x08"
| "data_type_tag DT_F16 = 0x09"
| "data_type_tag DT_BF16 = 0x0A"
| "data_type_tag DT_F32 = 0x0B"
| "data_type_tag DT_F64 = 0x0C"
| "data_type_tag DT_Tensor = 0x0D"
| "data_type_tag DT_U8 = 0x0E"
| "data_type_tag DT_U16 = 0x0F"
| "data_type_tag DT_I8 = 0x10"
| "data_type_tag DT_I16 = 0x11"
| "data_type_tag DT_I64 = 0x12"
| "data_type_tag (DT_Handle _) = 0x13"
| "data_type_tag (DT_Vec _ _) = 0x14"
| "data_type_tag (DT_TensorShaped _ _) = 0x15"
| "data_type_tag (DT_SparseCsr _) = 0x16"
| "data_type_tag (DT_SparseCoo _) = 0x17"
| "data_type_tag (DT_SparseBsr _ _ _) = 0x18"
| "data_type_tag DT_F8E4M3 = 0x19"
| "data_type_tag DT_F8E5M2 = 0x1A"
| "data_type_tag DT_I4 = 0x1B"
| "data_type_tag DT_FP4 = 0x1C"
| "data_type_tag DT_NF4 = 0x1D"
| "data_type_tag (DT_DeviceMesh _) = 0x1E"
| "data_type_tag (DT_Quantized _ _ _) = 0x1F"
| "data_type_tag (DT_Opaque _) = 0x80"

fun put_quantization_scale :: "bytes \<Rightarrow> quantization_scale \<Rightarrow> encode_error + bytes" where
  "put_quantization_scale out QS_PerTensor = Inr (put_u32 (put_u8 out 0) 0)"
| "put_quantization_scale out (QS_PerChannel axis) = Inr (put_u32 (put_u8 out 1) axis)"
| "put_quantization_scale out (QS_PerGroup group_size) =
     (if group_size = 0 then Inl EE_ScaleGroupSize
      else Inr (put_u32 (put_u8 out 2) group_size))"

fun put_quantization_zero_point ::
  "bytes \<Rightarrow> quantization_zero_point \<Rightarrow> encode_error + bytes" where
  "put_quantization_zero_point out QZ_Absent = Inr (put_u32 (put_u8 out 0) 0)"
| "put_quantization_zero_point out QZ_PerTensor = Inr (put_u32 (put_u8 out 1) 0)"
| "put_quantization_zero_point out (QZ_PerChannel axis) = Inr (put_u32 (put_u8 out 2) axis)"
| "put_quantization_zero_point out (QZ_PerGroup group_size) =
     (if group_size = 0 then Inl EE_ZeroPointGroupSize
      else Inr (put_u32 (put_u8 out 3) group_size))"

fun put_u32s :: "bytes \<Rightarrow> u32 list \<Rightarrow> bytes" where
  "put_u32s out [] = out"
| "put_u32s out (d # ds) = put_u32s (put_u32 out d) ds"

fun put_data_type :: "bytes \<Rightarrow> data_type \<Rightarrow> encode_error + bytes" where
  "put_data_type out (DT_Array n) =
     (let out = put_u8 out (data_type_tag (DT_Array n)) in
      if unat n < 2 ^ 32 then Inr (put_u32 out (ucast n)) else Inl (EE_ArrayElementSize n))"
| "put_data_type out (DT_Opaque i) = Inr (put_u32 (put_u8 out (data_type_tag (DT_Opaque i))) i)"
| "put_data_type out (DT_Handle i) = Inr (put_u32 (put_u8 out (data_type_tag (DT_Handle i))) i)"
| "put_data_type out (DT_Vec element count) =
     rbind (put_data_type (put_u8 out (data_type_tag (DT_Vec element count))) element) (\<lambda>out.
       Inr (put_u8 out count))"
| "put_data_type out (DT_TensorShaped element shape) =
     rbind (put_data_type (put_u8 out (data_type_tag (DT_TensorShaped element shape))) element)
       (\<lambda>out. if length shape < 2 ^ 32
              then Inr (put_u32s (put_u32 out (of_nat (length shape))) shape)
              else Inl (EE_TensorRank (length shape)))"
| "put_data_type out (DT_SparseCsr element) =
     put_data_type (put_u8 out (data_type_tag (DT_SparseCsr element))) element"
| "put_data_type out (DT_SparseCoo element) =
     put_data_type (put_u8 out (data_type_tag (DT_SparseCoo element))) element"
| "put_data_type out (DT_SparseBsr element block_rows block_cols) =
     rbind (put_data_type (put_u8 out (data_type_tag (DT_SparseBsr element block_rows block_cols)))
              element) (\<lambda>out.
       Inr (put_u32 (put_u32 out block_rows) block_cols))"
| "put_data_type out (DT_DeviceMesh axes) =
     (let out = put_u8 out (data_type_tag (DT_DeviceMesh axes)) in
      if length axes < 2 ^ 32
      then Inr (put_u32s (put_u32 out (of_nat (length axes))) axes)
      else Inl (EE_MeshRank (length axes)))"
| "put_data_type out (DT_Quantized storage scale zero_point) =
     (let out = put_u8 out (data_type_tag (DT_Quantized storage scale zero_point)) in
      if \<not> is_quantized_storage storage then Inl EE_QuantizedStorage
      else rbind (put_data_type out storage) (\<lambda>out.
             rbind (put_quantization_scale out scale) (\<lambda>out.
               put_quantization_zero_point out zero_point)))"
| "put_data_type out t = Inr (put_u8 out (data_type_tag t))"

subsection \<open>Decoding\<close>

definition data_type_from_tag :: "u8 \<Rightarrow> decode_error + data_type" where
  "data_type_from_tag tag =
     (if tag = 0x01 then Inr DT_U32
      else if tag = 0x02 then Inr DT_I32
      else if tag = 0x03 then Inr DT_U64
      else if tag = 0x04 then Inr DT_Vec2U32
      else if tag = 0x05 then Inr DT_Vec4U32
      else if tag = 0x06 then Inr DT_Bool
      else if tag = 0x07 then Inr DT_Bytes
      else if tag = 0x09 then Inr DT_F16
      else if tag = 0x0A then Inr DT_BF16
      else if tag = 0x0B then Inr DT_F32
      else if tag = 0x0C then Inr DT_F64
      else if tag = 0x0D then Inr DT_Tensor
      else if tag = 0x0E then Inr DT_U8
      else if tag = 0x0F then Inr DT_U16
      else if tag = 0x10 then Inr DT_I8
      else if tag = 0x11 then Inr DT_I16
      else if tag = 0x12 then Inr DT_I64
      else if tag = 0x19 then Inr DT_F8E4M3
      else if tag = 0x1A then Inr DT_F8E5M2
      else if tag = 0x1B then Inr DT_I4
      else if tag = 0x1C then Inr DT_FP4
      else if tag = 0x1D then Inr DT_NF4
      else if tag = 0x08 \<or> tag = 0x13 \<or> tag = 0x14 \<or> tag = 0x15 \<or> tag = 0x16 \<or> tag = 0x17 \<or> tag = 0x18 \<or> tag = 0x1E \<or> tag = 0x1F \<or> tag = 0x80
      then Inl (DE_DataTypePayload tag)
      else Inl (DE_DataTypeTag tag))"

definition reject_reserved_extension_id :: "u32 \<Rightarrow> string \<Rightarrow> decode_error + u32" where
  "reject_reserved_extension_id raw surface =
     (if raw AND 0x80000000 = 0 then Inl (DE_ReservedExtensionId surface raw) else Inr raw)"

definition rd_quantization_scale :: "quantization_scale parser" where
  "rd_quantization_scale = rd_bind rd_u8 (\<lambda>tag. rd_bind rd_u32 (\<lambda>param.
     if tag = 0 then
       if param \<noteq> 0 then rd_fail (DE_ScaleParam param) else rd_ret QS_PerTensor
     else if tag = 1 then rd_ret (QS_PerChannel param)
     else if tag = 2 then
       if param = 0 then rd_fail (DE_ScaleParam param) else rd_ret (QS_PerGroup param)
     else rd_fail (DE_ScaleTag (ucast tag))))"

definition rd_quantization_zero_point :: "quantization_zero_point parser" where
  "rd_quantization_zero_point = rd_bind rd_u8 (\<lambda>tag. rd_bind rd_u32 (\<lambda>param.
     if tag = 0 then
       if param \<noteq> 0 then rd_fail (DE_ZeroPointParam param) else rd_ret QZ_Absent
     else if tag = 1 then
       if param \<noteq> 0 then rd_fail (DE_ZeroPointParam param) else rd_ret QZ_PerTensor
     else if tag = 2 then rd_ret (QZ_PerChannel param)
     else if tag = 3 then
       if param = 0 then rd_fail (DE_ZeroPointParam param) else rd_ret (QZ_PerGroup param)
     else rd_fail (DE_ZeroPointTag (ucast tag))))"

function rd_data_type :: "data_type parser" where
  "rd_data_type r = rd_bind rd_u8 (\<lambda>tag r.
     if tag = 0x08 then
       rd_bind rd_u32 (\<lambda>n. rd_ret (DT_Array (ucast n))) r
     else if tag = 0x13 then
       rd_bind rd_u32 (\<lambda>i. rd_ret (DT_Handle i)) r
     else if tag = 0x14 then
       rd_bind rd_data_type (\<lambda>element. rd_bind rd_u8 (\<lambda>count.
         rd_ret (DT_Vec element count))) r
     else if tag = 0x15 then
       rd_bind rd_data_type (\<lambda>element. rd_bind rd_u32 (\<lambda>len.
         rd_bind (rd_repeat (unat len) rd_u32) (\<lambda>shape.
           rd_ret (DT_TensorShaped element shape)))) r
     else if tag = 0x16 then
       rd_bind rd_data_type (\<lambda>element. rd_ret (DT_SparseCsr element)) r
     else if tag = 0x17 then
       rd_bind rd_data_type (\<lambda>element. rd_ret (DT_SparseCoo element)) r
     else if tag = 0x18 then
       rd_bind rd_data_type (\<lambda>element. rd_bind rd_u32 (\<lambda>block_rows. rd_bind rd_u32 (\<lambda>block_cols.
         rd_ret (DT_SparseBsr element block_rows block_cols)))) r
     else if tag = 0x1E then
       rd_bind rd_u32 (\<lambda>len. rd_bind (rd_repeat (unat len) rd_u32) (\<lambda>axes.
         rd_ret (DT_DeviceMesh axes))) r
     else if tag = 0x1F then
       rd_bind rd_data_type (\<lambda>storage.
         if \<not> is_quantized_storage storage then rd_fail (DE_QuantizedStorage storage)
         else rd_bind rd_quantization_scale (\<lambda>scale.
                rd_bind rd_quantization_zero_point (\<lambda>zero_point.
                  rd_ret (DT_Quantized storage scale zero_point)))) r
     else if tag = 0x80 then
       rd_bind rd_u32 (\<lambda>raw. rd_bind (rd_lift (reject_reserved_extension_id raw ''DataType''))
         (\<lambda>i. rd_ret (DT_Opaque i))) r
     else rd_lift (data_type_from_tag tag) r) r"
  by pat_completeness auto

termination rd_data_type
  by (relation "measure (\<lambda>r. length (rd_bytes r) - rd_pos r)") (auto dest!: rd_u8_advances)

declare rd_data_type.simps [simp del]

subsection \<open>Round trip\<close>

fun data_type_ids_ok :: "data_type \<Rightarrow> bool" where
  "data_type_ids_ok (DT_Opaque i) = is_extension i"
| "data_type_ids_ok (DT_Vec t _) = data_type_ids_ok t"
| "data_type_ids_ok (DT_TensorShaped t _) = data_type_ids_ok t"
| "data_type_ids_ok (DT_SparseCsr t) = data_type_ids_ok t"
| "data_type_ids_ok (DT_SparseCoo t) = data_type_ids_ok t"
| "data_type_ids_ok (DT_SparseBsr t _ _) = data_type_ids_ok t"
| "data_type_ids_ok (DT_Quantized t _ _) = data_type_ids_ok t"
| "data_type_ids_ok _ = True"

lemma put_u32s_eq: "put_u32s out ds = out @ concat (map u32_to_le_bytes ds)"
  by (induction ds arbitrary: out) (simp_all add: put_u32_def)

lemma reads_u32s: "reads (rd_repeat (length ds) rd_u32) (concat (map u32_to_le_bytes ds)) ds"
  by (induction ds)
     (auto intro!: reads_ret reads_u32_bind reads_bind_nil[OF _ reads_ret])

lemma reads_counted_u32s:
  assumes "length ds < 2 ^ 32" "reads (k ds) bs v"
  shows "reads (rd_bind rd_u32 (\<lambda>len. rd_bind (rd_repeat (unat len) rd_u32) k))
    (u32_to_le_bytes (of_nat (length ds)) @ concat (map u32_to_le_bytes ds) @ bs) v"
  using assms by (auto simp: unat_of_nat_u32 intro!: reads_u32_bind reads_bind[OF reads_u32s])

lemma reject_reserved_ok: "is_extension i \<Longrightarrow> reject_reserved_extension_id i s = Inr i"
  by (simp add: reject_reserved_extension_id_def is_extension_def)

lemma put_quantization_scale_reads:
  assumes "put_quantization_scale out q = Inr out'"
  shows "\<exists>bs. out' = out @ bs \<and> reads rd_quantization_scale bs q"
  using assms unfolding rd_quantization_scale_def
  by (cases q)
     (auto simp: put_u8_def put_u32_def split: if_splits
       intro!: exI reads_u8_bind reads_bind_nil[OF reads_u32] reads_ret)

lemma put_quantization_zero_point_reads:
  assumes "put_quantization_zero_point out q = Inr out'"
  shows "\<exists>bs. out' = out @ bs \<and> reads rd_quantization_zero_point bs q"
  using assms unfolding rd_quantization_zero_point_def
  by (cases q)
     (auto simp: put_u8_def put_u32_def split: if_splits
       intro!: exI reads_u8_bind reads_bind_nil[OF reads_u32] reads_ret)

lemma reads_data_type_scalar:
  assumes "data_type_from_tag tag = Inr t"
    and "tag \<notin> {0x08, 0x13, 0x14, 0x15, 0x16, 0x17, 0x18, 0x1E, 0x1F, 0x80}"
  shows "reads rd_data_type [tag] t"
  using assms by (subst rd_data_type.simps[abs_def]) (auto intro!: reads_u8_bind reads_lift)

lemma ucast_u32_usize: "unat (n :: usize) < 2 ^ 32 \<Longrightarrow> ucast (ucast n :: u32) = n"
  by (simp add: word_unat_eq_iff unsigned_ucast_eq unsigned_take_bit_eq take_bit_nat_eq_self_iff)

text \<open>One lemma per payload-carrying constructor, then all of them by induction.\<close>

lemma reads_dt_array:
  "unat n < 2 ^ 32 \<Longrightarrow> reads rd_data_type (0x08 # u32_to_le_bytes (ucast n)) (DT_Array n)"
  by (subst rd_data_type.simps[abs_def], rule reads_u8_bind)
     (auto simp: ucast_u32_usize reads_ret intro!: reads_bind_nil[OF reads_u32])

lemma reads_dt_handle:
  "reads rd_data_type (0x13 # u32_to_le_bytes i) (DT_Handle i)"
  by (subst rd_data_type.simps[abs_def], rule reads_u8_bind)
     (auto intro!: reads_bind_nil[OF reads_u32] reads_ret)

lemma reads_dt_vec:
  "reads rd_data_type bs t \<Longrightarrow> reads rd_data_type (0x14 # bs @ [c]) (DT_Vec t c)"
  by (subst rd_data_type.simps[abs_def], rule reads_u8_bind)
     (auto intro!: reads_bind reads_u8_bind reads_ret)

lemma reads_dt_csr:
  "reads rd_data_type bs t \<Longrightarrow> reads rd_data_type (0x16 # bs) (DT_SparseCsr t)"
  by (subst rd_data_type.simps[abs_def], rule reads_u8_bind)
     (auto intro!: reads_bind_nil reads_ret)

lemma reads_dt_coo:
  "reads rd_data_type bs t \<Longrightarrow> reads rd_data_type (0x17 # bs) (DT_SparseCoo t)"
  by (subst rd_data_type.simps[abs_def], rule reads_u8_bind)
     (auto intro!: reads_bind_nil reads_ret)

lemma reads_dt_bsr:
  "reads rd_data_type bs t \<Longrightarrow> reads rd_data_type (0x18 # bs @ u32_to_le_bytes x @ u32_to_le_bytes y) (DT_SparseBsr t x y)"
  by (subst rd_data_type.simps[abs_def], rule reads_u8_bind)
     (auto intro!: reads_bind reads_u32_bind reads_bind_nil[OF reads_u32] reads_ret)

lemma reads_dt_tensor:
  "reads rd_data_type bs t \<Longrightarrow> length ds < 2 ^ 32 \<Longrightarrow> 
   reads rd_data_type (0x15 # bs @ u32_to_le_bytes (of_nat (length ds)) @ concat (map u32_to_le_bytes ds))
      (DT_TensorShaped t ds)"
  by (subst rd_data_type.simps[abs_def], rule reads_u8_bind)
     (auto intro!: reads_bind[of rd_data_type bs t] reads_counted_u32s[where bs = "[]", simplified] reads_ret)

lemma reads_dt_mesh:
  "length ds < 2 ^ 32 \<Longrightarrow> 
   reads rd_data_type (0x1E # u32_to_le_bytes (of_nat (length ds)) @ concat (map u32_to_le_bytes ds))
      (DT_DeviceMesh ds)"
  by (subst rd_data_type.simps[abs_def], rule reads_u8_bind)
     (auto intro!: reads_counted_u32s[where bs = "[]", simplified] reads_ret)

lemma reads_dt_quantized:
  "reads rd_data_type bs t \<Longrightarrow> is_quantized_storage t \<Longrightarrow>
   reads rd_quantization_scale cs s \<Longrightarrow> reads rd_quantization_zero_point ds z \<Longrightarrow> 
   reads rd_data_type (0x1F # bs @ cs @ ds) (DT_Quantized t s z)"
  by (subst rd_data_type.simps[abs_def], rule reads_u8_bind)
     (auto intro!: reads_bind reads_bind_nil[OF _ reads_ret])

lemma reads_dt_opaque:
  "is_extension i \<Longrightarrow> reads rd_data_type (0x80 # u32_to_le_bytes i) (DT_Opaque i)"
  by (subst rd_data_type.simps[abs_def], rule reads_u8_bind)
     (auto intro!: reads_bind_nil[OF reads_u32] reads_bind_nil[OF reads_lift] reads_ret
       simp: reject_reserved_ok)

lemmas put_simps = put_u8_def put_u32_def put_u32s_eq Let_def

lemma put_data_type_reads:
  "put_data_type out t = Inr out' \<Longrightarrow> data_type_ids_ok t \<Longrightarrow>
   \<exists>bs. out' = out @ bs \<and> reads rd_data_type bs t"
proof (induction t arbitrary: out out')
  case (DT_Vec t c)
  then obtain mid where "put_data_type (out @ [0x14]) t = Inr mid" "out' = mid @ [c]"
    by (auto simp: put_simps elim!: rbind_InrE)
  with DT_Vec show ?case by (fastforce intro: reads_dt_vec)
next
  case (DT_TensorShaped t ds)
  then obtain mid where "put_data_type (out @ [0x15]) t = Inr mid" "length ds < 2 ^ 32"
    "out' = mid @ u32_to_le_bytes (of_nat (length ds)) @ concat (map u32_to_le_bytes ds)"
    by (auto simp: put_simps elim!: rbind_InrE split: if_splits)
  with DT_TensorShaped show ?case by (fastforce intro: reads_dt_tensor)
next
  case (DT_SparseCsr t)
  then have "put_data_type (out @ [0x16]) t = Inr out'" by (simp add: put_simps)
  with DT_SparseCsr show ?case by (fastforce intro: reads_dt_csr)
next
  case (DT_SparseCoo t)
  then have "put_data_type (out @ [0x17]) t = Inr out'" by (simp add: put_simps)
  with DT_SparseCoo show ?case by (fastforce intro: reads_dt_coo)
next
  case (DT_SparseBsr t x y)
  then obtain mid where "put_data_type (out @ [0x18]) t = Inr mid"
    "out' = mid @ u32_to_le_bytes x @ u32_to_le_bytes y"
    by (auto simp: put_simps elim!: rbind_InrE)
  with DT_SparseBsr show ?case by (fastforce intro: reads_dt_bsr)
next
  case (DT_Quantized t s z)
  then obtain m1 m2 where st: "is_quantized_storage t"
    and m: "put_data_type (out @ [0x1F]) t = Inr m1" "put_quantization_scale m1 s = Inr m2"
    "put_quantization_zero_point m2 z = Inr out'"
    by (auto simp: put_simps elim!: rbind_InrE split: if_splits)
  from DT_Quantized m(1) obtain bs where "m1 = out @ [0x1F] @ bs" "reads rd_data_type bs t"
    by fastforce
  moreover from put_quantization_scale_reads[OF m(2)] obtain cs where
    "m2 = m1 @ cs" "reads rd_quantization_scale cs s" by blast
  moreover from put_quantization_zero_point_reads[OF m(3)] obtain ds where
    "out' = m2 @ ds" "reads rd_quantization_zero_point ds z" by blast
  ultimately have "out' = out @ (0x1F # bs @ cs @ ds)"
    "reads rd_data_type (0x1F # bs @ cs @ ds) (DT_Quantized t s z)"
    using st by (auto intro: reads_dt_quantized)
  then show ?case by blast
qed (auto simp: put_simps data_type_from_tag_def split: if_splits
      intro!: exI reads_dt_array reads_dt_handle reads_dt_mesh reads_dt_opaque
        reads_data_type_scalar)

lemma safe_quantization_scale [safe_intros]: "safe_parser rd_quantization_scale"
  unfolding rd_quantization_scale_def by (intro safe_intros)

lemma safe_quantization_zero_point [safe_intros]: "safe_parser rd_quantization_zero_point"
  unfolding rd_quantization_zero_point_def by (intro safe_intros)

lemma data_type_from_tag_ids_ok: "data_type_from_tag tag = Inr t \<Longrightarrow> data_type_ids_ok t"
  by (auto simp: data_type_from_tag_def split: if_splits)

lemma reject_reserved_Inr: "reject_reserved_extension_id raw s = Inr i \<Longrightarrow> is_extension i"
  by (auto simp: reject_reserved_extension_id_def is_extension_def split: if_splits)

lemma rd_data_type_ok:
  "rd_data_type r = Inr (t, r') \<Longrightarrow> data_type_ids_ok t \<and> advanced r r'"
proof (induction r arbitrary: t r'
    rule: measure_induct_rule[where f = "\<lambda>r. length (rd_bytes r) - rd_pos r"])
  case (less r)
  obtain tag s where tag: "rd_u8 r = Inr (tag, s)"
    using less.prems by (subst (asm) rd_data_type.simps) (auto simp: rd_bind_Inr)
  have sub: "data_type_ids_ok u \<and> advanced s s'" if "rd_data_type s = Inr (u, s')" for u s'
    using less.IH[OF _ that] rd_u8_advances[OF tag] by auto
  note adv = safe_advanced[OF safe_u8] safe_advanced[OF safe_u32]
    safe_advanced[OF safe_repeat[OF safe_u32]] safe_advanced[OF safe_quantization_scale]
    safe_advanced[OF safe_quantization_zero_point]
  have "data_type_ids_ok t \<and> advanced s r'"
    using less.prems tag
    by (subst (asm) rd_data_type.simps)
       (auto simp: rd_bind_Inr rd_ret_Inr rd_fail_Inr rd_lift_Inr split: if_splits
          dest!: sub adv data_type_from_tag_ids_ok reject_reserved_Inr 
          intro: advanced_trans simp: advanced_def)
  with adv(1)[OF tag] show ?case by (blast intro: advanced_trans)
qed

lemma yields_data_type: "yields rd_data_type data_type_ids_ok"
  by (auto simp: yields_def dest: rd_data_type_ok)

lemma safe_data_type [safe_intros]: "safe_parser rd_data_type"
  using rd_data_type_ok by (auto simp: safe_parser_def advanced_def)

interpretation data_type_codec: codec put_data_type rd_data_type "\<lambda>t. t" data_type_ids_ok
  by unfold_locales (rule put_data_type_reads)

subsection \<open>Properties\<close>

text \<open>
  C11. Data types round-trip through the wire codec, exactly when their opaque parts have registrable ids.  If
  encoding succeeds, then decoding at the position where the appended bytes start returns the same type and
  stops exactly behind them, whatever surrounds them, if and only if every \<open>Opaque\<close> identifier in the type, at any
  depth, lies in the extension range: the encoder writes an identifier of the reserved range, the decoder
  refuses it.
\<close>

theorem data_type_roundtrip:
  assumes "put_data_type pre t = Inr out" and "length (out @ post) < usize_bound"
  shows "data_type_ids_ok t \<longleftrightarrow>
    rd_data_type \<lparr>rd_bytes = out @ post, rd_pos = length pre\<rparr>
      = Inr (t, \<lparr>rd_bytes = out @ post, rd_pos = length out\<rparr>)
    \<and> take (length pre) out = pre"
proof
  assume "data_type_ids_ok t"
  then obtain bs where bs: "out = pre @ bs" "reads rd_data_type bs t"
    using put_data_type_reads[OF assms(1)] by blast
  with assms(2) readsD[OF bs(2), of pre post]
  show "rd_data_type \<lparr>rd_bytes = out @ post, rd_pos = length pre\<rparr>
      = Inr (t, \<lparr>rd_bytes = out @ post, rd_pos = length out\<rparr>) \<and> take (length pre) out = pre"
    by (simp add: rd_at_def)
qed (use yieldsD[OF yields_data_type] in blast)

theorem data_type_roundtrip_witness:
  "let t = DT_Quantized DT_I4 (QS_PerGroup 64) QZ_Absent; out = [1, 0x1F, 0x1B, 2, 64, 0, 0, 0, 0, 0, 0, 0, 0] in
   put_data_type [1] t = Inr out
   \<and> rd_data_type \<lparr>rd_bytes = out @ [5], rd_pos = 1\<rparr> = Inr (t, \<lparr>rd_bytes = out @ [5], rd_pos = 13\<rparr>)"
  using data_type_roundtrip[of "[1]" "DT_Quantized DT_I4 (QS_PerGroup 64) QZ_Absent"
      "[1, 0x1F, 0x1B, 2, 64, 0, 0, 0, 0, 0, 0, 0, 0]" "[5]"]
  by (simp add: put_simps u32_to_le_bytes_def)

end
