(* ===== verification/Wire_Leb.thy ===== *)
theory Wire_Leb
  imports Wire_Framing
begin

text \<open>
  LEB128 integers of the wire envelope: the encoders \<open>put_leb_u64\<close>, \<open>put_leb_u32\<close>,
  \<open>put_leb_str\<close> (\<open>serial/wire/encode/to_wire.rs\<close>; \<open>serial/output_set.rs\<close> has the same
  loop and the length function \<open>leb_u64_len\<close>) and the decoders \<open>leb_u64\<close>, \<open>leb_u32\<close>,
  \<open>leb_len\<close>, \<open>leb_string\<close> (\<open>serial/wire/decode/from_wire.rs\<close>).  Proved: decoding
  inverts encoding for every 64-bit value, the encoding has the predicted length
  and at most ten bytes, and the decoder is total on its ten-iteration loop.
\<close>

subsection \<open>Encoding\<close>

function put_leb_u64 :: "bytes \<Rightarrow> u64 \<Rightarrow> bytes" where
  "put_leb_u64 out v =
     (let byte = ucast (v AND 0x7F) :: u8;
          v' = drop_bit 7 v;
          byte = (if v' \<noteq> 0 then byte OR 0x80 else byte);
          out = out @ [byte]
      in if v' = 0 then out else put_leb_u64 out v')"
  by pat_completeness auto

lemma unat_drop_bit_7: "unat (drop_bit 7 (v :: u64)) = unat v div 128"
  by (simp only: unat_drop_bit_eq) (simp add: drop_bit_eq_div)

lemma drop_bit_7_less: "drop_bit 7 v \<noteq> 0 \<Longrightarrow> unat (drop_bit 7 v) < unat (v :: u64)"
proof -
  assume nz: "drop_bit 7 v \<noteq> 0"
  then have "0 < unat v" by (auto simp: unat_gt_0)
  then show ?thesis by (simp add: unat_drop_bit_7)
qed

termination put_leb_u64
  by (relation "measure (\<lambda>(out, v). unat v)") (auto simp: drop_bit_7_less)

declare put_leb_u64.simps [simp del]

definition put_leb_u32 :: "bytes \<Rightarrow> u32 \<Rightarrow> bytes" where
  "put_leb_u32 out v = put_leb_u64 out (ucast v)"

definition put_leb_str :: "bytes \<Rightarrow> string \<Rightarrow> encode_error + bytes" where
  "put_leb_str out s =
     rbind (u64_of_len (length s)) (\<lambda>n. Inr (put_leb_u64 out n @ as_bytes s))"

function leb_u64_len :: "u64 \<Rightarrow> nat" where
  "leb_u64_len v = (if v \<ge> 0x80 then 1 + leb_u64_len (drop_bit 7 v) else 1)"
  by pat_completeness auto

lemma ge_128_drop_bit: "v \<ge> 0x80 \<longleftrightarrow> drop_bit 7 v \<noteq> 0" for v :: u64
proof -
  have "drop_bit 7 v = 0 \<longleftrightarrow> unat v div 128 = 0"
    using unat_drop_bit_7[of v] by (metis unat_eq_zero)
  moreover have "unat v div 128 = 0 \<longleftrightarrow> unat v < 128" by auto
  ultimately show ?thesis by (simp add: word_le_nat_alt not_less)
qed

termination leb_u64_len
  by (relation "measure unat") (auto simp: ge_128_drop_bit drop_bit_7_less)

declare leb_u64_len.simps [simp del]

subsection \<open>Decoding\<close>

text \<open>The loop \<open>for shift in (0..70).step_by(7)\<close>.\<close>

definition leb_shifts :: "nat list" where
  "leb_shifts = [0, 7, 14, 21, 28, 35, 42, 49, 56, 63]"

fun leb_u64_loop :: "nat list \<Rightarrow> u64 \<Rightarrow> u64 parser" where
  "leb_u64_loop [] result = rd_fail DE_LebUnterminated"
| "leb_u64_loop (shift # shifts) result = rd_bind rd_u8 (\<lambda>byte.
     if shift = 63 \<and> byte > 1 then rd_fail DE_LebOverflow
     else let result = result OR push_bit shift (ucast (byte AND 0x7F)) in
          if byte AND 0x80 = 0 then rd_ret result else leb_u64_loop shifts result)"

definition leb_u64 :: "u64 parser" where
  "leb_u64 = leb_u64_loop leb_shifts 0"

definition leb_u32 :: "u32 parser" where
  "leb_u32 = rd_bind leb_u64 (\<lambda>v.
     if unat v < 2 ^ 32 then rd_ret (ucast v) else rd_fail (DE_LebU32 v))"

definition leb_len :: "nat \<Rightarrow> string \<Rightarrow> nat parser" where
  "leb_len limit label = rd_bind leb_u64 (\<lambda>v.
     if unat v > limit then rd_fail (DE_LebLimit label (unat v) limit) else rd_ret (unat v))"

definition leb_string :: "string parser" where
  "leb_string = rd_bind (leb_len MAX_STRING_LEN ''string length'') (\<lambda>len.
     rd_bind (rd_take len) (\<lambda>bs. rd_lift (ok_or (str_from_utf8 bs) DE_Utf8)))"

subsection \<open>The bytes written\<close>

text \<open>The encoding as a function of the value alone.\<close>

function leb_bytes :: "u64 \<Rightarrow> bytes" where
  "leb_bytes v =
     (if drop_bit 7 v = 0 then [ucast (v AND 0x7F)]
      else (ucast (v AND 0x7F) OR 0x80) # leb_bytes (drop_bit 7 v))"
  by pat_completeness auto

termination leb_bytes
  by (relation "measure unat") (auto simp: drop_bit_7_less)

declare leb_bytes.simps [simp del]

lemma put_leb_u64_eq: "put_leb_u64 out v = out @ leb_bytes v"
proof (induction out v rule: put_leb_u64.induct)
  case (1 out v)
  then show ?case
    by (subst put_leb_u64.simps, subst leb_bytes.simps) (simp add: Let_def)
qed

lemma length_leb_bytes: "length (leb_bytes v) = leb_u64_len v"
proof (induction v rule: leb_bytes.induct)
  case (1 v)
  then show ?case
    by (subst leb_bytes.simps, subst leb_u64_len.simps) (simp add: ge_128_drop_bit)
qed

lemma leb_u64_len_bound:
  "unat v < 2 ^ (7 * n) \<Longrightarrow> 0 < n \<Longrightarrow> leb_u64_len v \<le> n"
proof (induction v arbitrary: n rule: leb_u64_len.induct)
  case (1 v)
  show ?case
  proof (cases "v \<ge> 0x80")
    case True
    then have ge: "128 \<le> unat v" by (simp add: word_le_nat_alt)
    with 1 obtain m where n: "n = Suc m" "0 < m"
      by (cases n; cases "n = 1") auto
    have "unat (drop_bit 7 v) < 2 ^ (7 * m)"
      using 1(2) n by (simp add: unat_drop_bit_7 power_add less_mult_imp_div_less)
    with True n 1(1)[of m] show ?thesis by (subst leb_u64_len.simps) simp
  next
    case False
    with 1 show ?thesis by (subst leb_u64_len.simps) simp
  qed
qed

lemma leb_u64_len_le_10: "leb_u64_len v \<le> 10"
proof (rule leb_u64_len_bound)
  have "unat v < 2 ^ 64" using unsigned_less[of v, where 'a=nat] by simp
  then show "unat v < 2 ^ (7 * 10)" by simp
qed simp

subsection \<open>Reading back\<close>

lemma bit_leb_constants:
  "bit (0x7F :: int) n \<longleftrightarrow> n < 7" "bit (0x80 :: int) n \<longleftrightarrow> n = 7"
  "bit (0x7F :: nat) n \<longleftrightarrow> n < 7" "bit (0x80 :: nat) n \<longleftrightarrow> n = 7"
proof -
  have "(0x7F :: int) = mask 7" "(0x80 :: int) = 2 ^ 7" "(0x7F :: nat) = mask 7" "(0x80 :: nat) = 2 ^ 7"
    by (simp_all add: mask_eq_exp_minus_1)
  note eqs = this
  show "bit (0x7F :: int) n \<longleftrightarrow> n < 7" by (simp only: eqs bit_mask_iff) auto
  show "bit (0x80 :: int) n \<longleftrightarrow> n = 7" by (simp only: eqs bit_exp_iff) auto
  show "bit (0x7F :: nat) n \<longleftrightarrow> n < 7" by (simp only: eqs bit_mask_iff) auto
  show "bit (0x80 :: nat) n \<longleftrightarrow> n = 7" by (simp only: eqs bit_exp_iff) auto
qed

lemma byte_low: "ucast ((ucast (v AND 0x7F) :: u8) AND 0x7F) = v AND (0x7F :: u64)"
  by (rule bit_word_eqI) (auto simp: bit_simps bit_leb_constants)

lemma byte_low_marked:
  "ucast ((ucast (v AND 0x7F) OR 0x80 :: u8) AND 0x7F) = v AND (0x7F :: u64)"
  by (rule bit_word_eqI) (auto simp: bit_simps bit_leb_constants)

lemma byte_last: "(ucast (v AND (0x7F :: u64)) :: u8) AND 0x80 = 0"
  by (rule bit_word_eqI) (auto simp: bit_simps bit_leb_constants)

lemma byte_more: "(ucast (v AND (0x7F :: u64)) OR 0x80 :: u8) AND 0x80 \<noteq> 0"
proof -
  have "bit ((ucast (v AND (0x7F :: u64)) OR 0x80 :: u8) AND 0x80) 7"
    by (simp add: bit_simps bit_leb_constants)
  then show ?thesis by auto
qed

lemma leb_join:
  "push_bit s (v AND 0x7F) OR push_bit (s + 7) (drop_bit 7 v) = push_bit s (v :: u64)"
proof (rule bit_word_eqI)
  fix n assume "n < LENGTH(64)"
  then show "bit (push_bit s (v AND 0x7F) OR push_bit (s + 7) (drop_bit 7 v)) n
      = bit (push_bit s v) n"
    by (cases "s \<le> n"; cases "n - s < 7") (auto simp: bit_simps bit_leb_constants)
qed

lemma leb_low_only: "drop_bit 7 v = 0 \<Longrightarrow> v AND 0x7F = (v :: u64)"
  using leb_join[of 0 v] by simp

lemma leb_shifts_step:
  "k < 10 \<Longrightarrow> drop k leb_shifts = 7 * k # drop (Suc k) leb_shifts"
proof -
  assume "k < 10"
  then have "k \<in> {0, 1, 2, 3, 4, 5, 6, 7, 8, 9}" by auto
  then show ?thesis by (auto simp: leb_shifts_def)
qed

lemma leb_loop_reads:
  "k < 10 \<Longrightarrow> unat v < 2 ^ (64 - 7 * k) \<Longrightarrow>
   reads (leb_u64_loop (drop k leb_shifts) acc) (leb_bytes v) (acc OR push_bit (7 * k) v)"
proof (induction v arbitrary: k acc rule: leb_bytes.induct)
  case (1 v)
  show ?case
  proof (cases "drop_bit 7 v = 0")
    case True
    have small: "\<not> (7 * k = 63 \<and> (ucast (v AND 0x7F) :: u8) > 1)"
    proof
      assume *: "7 * k = 63 \<and> (ucast (v AND 0x7F) :: u8) > 1"
      with 1 have "unat v < 2" by simp
      then have "v = 0 \<or> v = 1" by (auto simp: word_unat_eq_iff)
      with * show False by auto
    qed
    have eq: "leb_bytes v = [ucast (v AND 0x7F)]"
      using True by (subst leb_bytes.simps) simp
    show ?thesis
      unfolding eq leb_shifts_step[OF 1(2)] leb_u64_loop.simps
      by (rule reads_bind_nil[OF reads_u8])
         (use small byte_last[of v] byte_low[of v] in
           \<open>auto simp: leb_low_only[OF True] reads_ret Let_def\<close>)
  next
    case False
    then have "128 \<le> unat v" using ge_128_drop_bit[of v] by (simp add: word_le_nat_alt)
    with 1 have "(2::nat) ^ 7 < 2 ^ (64 - 7 * k)" by simp
    then have k: "7 < 64 - 7 * k" by (metis one_less_numeral_iff power_less_imp_less_exp semiring_norm(76))
    then have "Suc k < 10" by simp
    have "unat (drop_bit 7 v) < 2 ^ (64 - 7 * Suc k)"
    proof -
      from k have "64 - 7 * k = (64 - 7 * Suc k) + 7" by simp
      then have "(2::nat) ^ (64 - 7 * k) = 2 ^ (64 - 7 * Suc k) * 2 ^ 7" by (metis power_add)
      then have "(2::nat) ^ (64 - 7 * k) = 2 ^ (64 - 7 * Suc k) * 128" by simp
      with 1 show ?thesis by (simp add: unat_drop_bit_7 less_mult_imp_div_less)
    qed
    moreover have "(acc OR push_bit (7 * k) (v AND 0x7F)) OR push_bit (7 * Suc k) (drop_bit 7 v)
        = acc OR push_bit (7 * k) v"
      using leb_join[of "7 * k" v] by (simp only: or.assoc mult_Suc_right add.commute)
    ultimately have rest:
      "reads (leb_u64_loop (drop (Suc k) leb_shifts) (acc OR push_bit (7 * k) (v AND 0x7F)))
        (leb_bytes (drop_bit 7 v)) (acc OR push_bit (7 * k) v)"
      using 1(1)[OF False, of "Suc k" "acc OR push_bit (7 * k) (v AND 0x7F)"] \<open>Suc k < 10\<close>
      by (simp only:)
    have eq: "leb_bytes v = [ucast (v AND 0x7F) OR 0x80] @ leb_bytes (drop_bit 7 v)"
      using False by (subst leb_bytes.simps) simp
    show ?thesis
      unfolding eq leb_shifts_step[OF 1(2)] leb_u64_loop.simps
      by (rule reads_bind[OF reads_u8]) (use \<open>Suc k < 10\<close> rest in \<open>auto simp: byte_more byte_low_marked\<close>)
  qed
qed

lemma reads_leb_u64 [reads_intros]: "reads leb_u64 (leb_bytes v) v"
proof -
  have "unat v < 2 ^ 64" using unsigned_less[of v, where 'a=nat] by simp
  then show ?thesis using leb_loop_reads[of 0 v 0] by (simp add: leb_u64_def)
qed

lemma unat_of_nat_u64: "n < 2 ^ 64 \<Longrightarrow> unat (of_nat n :: u64) = n"
  by (simp add: unat_of_nat take_bit_nat_eq_self_iff)

lemma ucast_down_up_u32 [simp]: "ucast (ucast (w :: u32) :: u64) = w"
  by (rule bit_word_eqI) (simp add: bit_simps)

lemma reads_leb_u32 [reads_intros]: "reads leb_u32 (leb_bytes (ucast w)) w"
  unfolding leb_u32_def
proof (rule reads_bind_nil[OF reads_leb_u64])
  have "unat w < 2 ^ 32" using unsigned_less[of w, where 'a=nat] by simp
  then show "reads (if unat (ucast w :: u64) < 2 ^ 32 then rd_ret (ucast (ucast w :: u64))
      else rd_fail (DE_LebU32 (ucast w))) [] w"
    by (simp add: reads_ret)
qed

lemma reads_leb_len:
  "n \<le> limit \<Longrightarrow> n < 2 ^ 64 \<Longrightarrow> reads (leb_len limit label) (leb_bytes (of_nat n)) n"
  unfolding leb_len_def
  by (rule reads_bind_nil[OF reads_leb_u64]) (simp add: unat_of_nat_u64 reads_ret)

lemma reads_leb_string:
  assumes "is_str s" "length s \<le> MAX_STRING_LEN"
  shows "reads leb_string (leb_bytes (of_nat (length s)) @ as_bytes s) s"
  unfolding leb_string_def
proof (rule reads_bind)
  show "reads (leb_len MAX_STRING_LEN ''string length'') (leb_bytes (of_nat (length s))) (length s)"
    using assms(2) by (intro reads_leb_len) (simp_all add: MAX_STRING_LEN_def)
  show "reads (rd_bind (rd_take (length s)) (\<lambda>bs. rd_lift (ok_or (str_from_utf8 bs) DE_Utf8)))
          (as_bytes s) s"
    by (rule reads_bind_nil[OF reads_take], simp, rule reads_lift) (simp add: assms(1))
qed

lemma put_leb_str_Inr:
  "put_leb_str out s = Inr out' \<longleftrightarrow>
   length s < 2 ^ 64 \<and> out' = out @ leb_bytes (of_nat (length s)) @ as_bytes s"
  by (auto simp: put_leb_str_def u64_of_len_def put_leb_u64_eq)

lemma safe_leb_loop [safe_intros]: "safe_parser (leb_u64_loop shifts acc)"
  by (induction shifts arbitrary: acc) (auto simp: Let_def intro!: safe_intros)

lemma safe_leb_u64 [safe_intros]: "safe_parser leb_u64"
  by (simp add: leb_u64_def safe_leb_loop)

lemma safe_leb_u32 [safe_intros]: "safe_parser leb_u32"
  unfolding leb_u32_def by (intro safe_intros)

lemma safe_leb_len [safe_intros]: "safe_parser (leb_len n l)"
  unfolding leb_len_def by (intro safe_intros)

lemma safe_leb_string [safe_intros]: "safe_parser leb_string"
  unfolding leb_string_def by (intro safe_intros)

lemma yields_leb_len: "yields (leb_len limit label) (\<lambda>n. n \<le> limit)"
  unfolding leb_len_def by (rule yields_bind_any, rule yields_if) (simp_all add: yields_fail yields_ret)

interpretation leb_u32_codec: codec "\<lambda>out w. Inr (put_leb_u32 out w)" leb_u32 "\<lambda>w. w" "\<lambda>_. True"
  by unfold_locales (auto simp: put_leb_u32_def put_leb_u64_eq intro: reads_leb_u32)

interpretation leb_str_codec:
  codec put_leb_str leb_string "\<lambda>s. s" "\<lambda>s. is_str s \<and> length s \<le> MAX_STRING_LEN"
  by unfold_locales (auto simp: put_leb_str_Inr intro: reads_leb_string)

lemma wrote_leb_u64:
  assumes "wrote g (k v) w"
  shows "wrote (\<lambda>out. g (put_leb_u64 out v)) (rd_bind leb_u64 k) w"
  using assms unfolding wrote_def
  by (fastforce simp: put_leb_u64_eq intro: reads_bind[OF reads_leb_u64])

lemma wrote_leb_u32:
  assumes "wrote g (k v) w"
  shows "wrote (\<lambda>out. g (put_leb_u32 out v)) (rd_bind leb_u32 k) w"
  using assms unfolding wrote_def
  by (fastforce simp: put_leb_u64_eq put_leb_u32_def intro: reads_bind[OF reads_leb_u32])

lemma wrote_leb_len:
  assumes "wrote g (k n) w" "n \<le> limit"
  shows "wrote (\<lambda>out. rbind (u64_of_len n) (\<lambda>v. g (put_leb_u64 out v))) (rd_bind (leb_len limit label) k) w"
  unfolding wrote_def
proof (intro allI impI)
  fix out out' assume "rbind (u64_of_len n) (\<lambda>v. g (put_leb_u64 out v)) = Inr out'"
  then have n: "n < 2 ^ 64" and "g (out @ leb_bytes (of_nat n)) = Inr out'"
    by (auto simp: u64_of_len_def put_leb_u64_eq split: if_splits)
  then obtain bs where "out' = (out @ leb_bytes (of_nat n)) @ bs" "reads (k n) bs w"
    using wroteD[OF assms(1)] by metis
  with n assms(2) show "\<exists>bs. out' = out @ bs \<and> reads (rd_bind (leb_len limit label) k) bs w"
    by (auto intro: reads_bind[OF reads_leb_len])
qed

subsection \<open>Properties\<close>

text \<open>
  C6. LEB128 integers round-trip.  Wherever the bytes written by \<open>put_leb_u64\<close> for a
  64-bit value stand in an input that fits the address space, \<open>leb_u64\<close> returns that
  value and leaves the cursor just behind them; exactly \<open>leb_u64_len\<close> bytes, and never
  more than ten, are appended to the output.
\<close>

theorem leb_u64_roundtrip:
  assumes "length (put_leb_u64 pre v @ post) < usize_bound"
  shows "leb_u64 \<lparr>rd_bytes = put_leb_u64 pre v @ post, rd_pos = length pre\<rparr>
      = Inr (v, \<lparr>rd_bytes = put_leb_u64 pre v @ post, rd_pos = length (put_leb_u64 pre v)\<rparr>)
    \<and> length (put_leb_u64 pre v) = length pre + leb_u64_len v
    \<and> leb_u64_len v \<le> 10"
proof (intro conjI)
  have "leb_u64 (rd_at pre (leb_bytes v @ post)) = Inr (v, rd_at (pre @ leb_bytes v) post)"
    using assms by (intro readsD[OF reads_leb_u64]) (simp add: put_leb_u64_eq)
  then show "leb_u64 \<lparr>rd_bytes = put_leb_u64 pre v @ post, rd_pos = length pre\<rparr>
      = Inr (v, \<lparr>rd_bytes = put_leb_u64 pre v @ post, rd_pos = length (put_leb_u64 pre v)\<rparr>)"
    by (simp add: rd_at_def put_leb_u64_eq)
  show "length (put_leb_u64 pre v) = length pre + leb_u64_len v"
    by (simp add: put_leb_u64_eq length_leb_bytes)
  show "leb_u64_len v \<le> 10" by (rule leb_u64_len_le_10)
qed

theorem leb_u64_roundtrip_witness:
  "leb_u64 \<lparr>rd_bytes = put_leb_u64 [7] 300 @ [9], rd_pos = 1\<rparr>
      = Inr (300, \<lparr>rd_bytes = put_leb_u64 [7] 300 @ [9], rd_pos = 3\<rparr>)
    \<and> put_leb_u64 [7] 300 = [7, 0xAC, 0x02]"
proof -
  have len: "put_leb_u64 [7] 300 = [7, 0xAC, 0x02]"
    by (simp add: put_leb_u64.simps Let_def)
  then show ?thesis using leb_u64_roundtrip[of "[7]" 300 "[9]"] by simp
qed

text \<open>
  C37. the decoder does not insist on the shortest form.  Besides the one byte the
  encoder emits for zero, every padded form of two to ten bytes decodes to zero as
  well, so distinct byte strings decode to the same integer.
\<close>

theorem leb_u64_accepts_overlong:
  assumes "k \<le> 9"
  shows "reads leb_u64 (replicate k 0x80 @ [0]) 0 \<and> put_leb_u64 [] 0 = [0]"
proof -
  have "reads (leb_u64_loop (drop (9 - j) leb_shifts) 0) (replicate i 0x80 @ [0]) 0"
    if "i \<le> j" "j \<le> 9" for i j
    using that
  proof (induction i arbitrary: j)
    case 0
    then show ?case
      using leb_loop_reads[of "9 - j" 0 0] by (simp add: leb_bytes.simps)
  next
    case (Suc i)
    then obtain j' where j: "j = Suc j'" by (cases j) auto
    have "reads (leb_u64_loop (drop (Suc (9 - j)) leb_shifts) 0) (replicate i 0x80 @ [0]) 0"
    proof -
      have "Suc (9 - j) = 9 - j'" using Suc.prems j by simp
      then show ?thesis using Suc.IH[of j'] Suc.prems j by simp
    qed
    then have "reads (leb_u64_loop (drop (9 - j) leb_shifts) 0)
        ([0x80] @ replicate i 0x80 @ [0]) 0"
      using j Suc.prems
      by (subst leb_shifts_step, simp, simp only: leb_u64_loop.simps)
         (rule reads_bind[OF reads_u8], auto simp: Let_def)
    then show ?case by simp
  qed
  from this[of k 9] assms show ?thesis
    by (simp add: leb_u64_def put_leb_u64.simps)
qed

theorem leb_u64_accepts_overlong_witness:
  "reads leb_u64 [0x80, 0x80, 0] 0 \<and> put_leb_u64 [] 0 = [0]"
  using leb_u64_accepts_overlong[of 2] by (simp add: numeral_eq_Suc)

end
