(* ===== verification/Ir_Model.thy ===== *)
theory Ir_Model
  imports Spec_DataType Spec_Ops
begin

text \<open>
  The intermediate representation: expressions and statement nodes
  (\<open>vyre-foundation/src/ir_inner/model/generated.rs\<close>), buffer declarations
  (\<open>program/buffer_decl.rs\<close>) and programs (\<open>program/core.rs\<close>, \<open>builder.rs\<close>,
  \<open>meta.rs\<close>).  Identifiers are byte strings, \<open>i32\<close> and \<open>f32\<close> literals are their 32-bit
  patterns, and an extension node is what the rest of the system sees of the trait
  object: its kind and its wire payload.  Of the lazily filled caches of \<open>Program\<close>
  only the output index is kept, because the decoder fills it.
\<close>

subsection \<open>Expressions and nodes\<close>

record extension =
  ext_kind :: string
  ext_payload :: bytes

datatype (plugins only: code size) expr =
    E_LitU32 u32
  | E_LitI32 u32
  | E_LitF32 u32
  | E_LitBool bool
  | E_Var string
  | E_Load string expr
  | E_BufLen string
  | E_InvocationId u8
  | E_WorkgroupId u8
  | E_LocalId u8
  | E_BinOp bin_op expr expr
  | E_UnOp un_op expr
  | E_Call string "expr list"
  | E_Select expr expr expr
  | E_Cast data_type expr
  | E_Fma expr expr expr
  | E_Atomic atomic_op string expr "expr option" expr memory_ordering
  | E_SubgroupBallot expr
  | E_SubgroupShuffle expr expr
  | E_SubgroupAdd expr
  | E_SubgroupLocalId
  | E_SubgroupSize
  | E_Opaque extension

datatype (plugins only: code size) node =
    N_Let string expr
  | N_Assign string expr
  | N_Store string expr expr
  | N_If expr "node list" "node list"
  | N_Loop string expr expr "node list"
  | N_IndirectDispatch string u64
  | N_AsyncLoad string string expr expr string
  | N_AsyncStore string string expr expr string
  | N_AsyncWait string
  | N_Trap expr string
  | N_Resume string
  | N_AllReduce string collective_op u32
  | N_AllGather string string u32
  | N_ReduceScatter string string collective_op u32
  | N_Broadcast string u32 u32
  | N_Return
  | N_Barrier memory_ordering
  | N_Block "node list"
  | N_Region string "string option" "node list"
  | N_Opaque extension

fun node_op_id :: "node \<Rightarrow> string" where
  "node_op_id (N_Let _ _) = ''vyre.node.let''"
| "node_op_id (N_Assign _ _) = ''vyre.node.assign''"
| "node_op_id (N_Store _ _ _) = ''vyre.node.store''"
| "node_op_id (N_If _ _ _) = ''vyre.node.if''"
| "node_op_id (N_Loop _ _ _ _) = ''vyre.node.loop''"
| "node_op_id N_Return = ''vyre.node.return''"
| "node_op_id (N_Block _) = ''vyre.node.block''"
| "node_op_id (N_Barrier _) = ''vyre.node.barrier''"
| "node_op_id (N_Region _ _ _) = ''vyre.node.region''"
| "node_op_id (N_IndirectDispatch _ _) = ''vyre.node.indirect_dispatch''"
| "node_op_id (N_AsyncLoad _ _ _ _ _) = ''vyre.node.async_load''"
| "node_op_id (N_AsyncStore _ _ _ _ _) = ''vyre.node.async_store''"
| "node_op_id (N_AsyncWait _) = ''vyre.node.async_wait''"
| "node_op_id (N_Trap _ _) = ''vyre.node.trap''"
| "node_op_id (N_Resume _) = ''vyre.node.resume''"
| "node_op_id (N_AllReduce _ _ _) = ''vyre.node.all_reduce''"
| "node_op_id (N_AllGather _ _ _) = ''vyre.node.all_gather''"
| "node_op_id (N_ReduceScatter _ _ _ _) = ''vyre.node.reduce_scatter''"
| "node_op_id (N_Broadcast _ _ _) = ''vyre.node.broadcast''"
| "node_op_id (N_Opaque extension) = ext_kind extension"

subsection \<open>Buffer declarations\<close>

datatype (plugins only: code size) memory_kind =
  MK_Global | MK_Shared | MK_Uniform | MK_Local | MK_Readonly | MK_Persistent | MK_Push

datatype cache_locality = CL_Streaming | CL_Temporal | CL_Random

record memory_hints =
  coalesce_axis :: "u8 option"
  preferred_alignment :: u32
  cache_locality :: cache_locality

definition default_hints :: memory_hints where
  "default_hints =
     \<lparr>coalesce_axis = None, preferred_alignment = 0, cache_locality = CL_Temporal\<rparr>"

datatype linear_type = LT_Linear | LT_Affine | LT_Relevant | LT_Unrestricted

definition forbids_drop :: "linear_type \<Rightarrow> bool" where
  "forbids_drop t = (t = LT_Linear \<or> t = LT_Relevant)"

definition forbids_reuse :: "linear_type \<Rightarrow> bool" where
  "forbids_reuse t = (t = LT_Linear \<or> t = LT_Affine)"

datatype (plugins only: code size) shape_predicate =
    SP_AtLeast u32
  | SP_AtMost u32
  | SP_Exactly u32
  | SP_MultipleOf u32
  | SP_ModEquals u32 u32
  | SP_AffineRange u64 u64 u64 u64
  | SP_And shape_predicate shape_predicate
  | SP_Or shape_predicate shape_predicate
  | SP_Not shape_predicate

text \<open>The affine form is evaluated in \<open>i128\<close>, where none of its operations can overflow.\<close>

fun holds :: "shape_predicate \<Rightarrow> u32 \<Rightarrow> bool" where
  "holds (SP_AtLeast n) count = (count \<ge> n)"
| "holds (SP_AtMost n) count = (count \<le> n)"
| "holds (SP_Exactly n) count = (count = n)"
| "holds (SP_MultipleOf n) count = (n \<noteq> 0 \<and> count mod n = 0)"
| "holds (SP_ModEquals modulus remainder) count =
     (modulus \<noteq> 0 \<and> remainder < modulus \<and> count mod modulus = remainder)"
| "holds (SP_AffineRange scale offset lo hi) count =
     (let v = uint count * sint scale + sint offset in sint lo \<le> v \<and> v \<le> sint hi)"
| "holds (SP_And a b) count = (holds a count \<and> holds b count)"
| "holds (SP_Or a b) count = (holds a count \<or> holds b count)"
| "holds (SP_Not p) count = (\<not> holds p count)"

record buffer_decl =
  bd_name :: string
  bd_binding :: u32
  bd_access :: buffer_access
  bd_kind :: memory_kind
  bd_element :: data_type
  bd_count :: u32
  bd_is_output :: bool
  bd_pipeline_live_out :: bool
  bd_output_byte_range :: "(usize \<times> usize) option"
  bd_hints :: memory_hints
  bd_bytes_extraction :: bool
  bd_linear_type :: linear_type
  bd_shape_predicate :: "shape_predicate option"

fun storage_kind :: "buffer_access \<Rightarrow> memory_kind" where
  "storage_kind BA_ReadOnly = MK_Readonly"
| "storage_kind BA_Uniform = MK_Uniform"
| "storage_kind BA_Workgroup = MK_Shared"
| "storage_kind _ = MK_Global"

definition bd_storage :: "string \<Rightarrow> u32 \<Rightarrow> buffer_access \<Rightarrow> data_type \<Rightarrow> buffer_decl" where
  "bd_storage name binding access element =
     \<lparr>bd_name = name, bd_binding = binding, bd_access = access, bd_kind = storage_kind access,
      bd_element = element, bd_count = 0, bd_is_output = False, bd_pipeline_live_out = False,
      bd_output_byte_range = None, bd_hints = default_hints, bd_bytes_extraction = False,
      bd_linear_type = LT_Unrestricted, bd_shape_predicate = None\<rparr>"

definition bd_read :: "string \<Rightarrow> u32 \<Rightarrow> data_type \<Rightarrow> buffer_decl" where
  "bd_read name binding element = bd_storage name binding BA_ReadOnly element"

definition bd_read_write :: "string \<Rightarrow> u32 \<Rightarrow> data_type \<Rightarrow> buffer_decl" where
  "bd_read_write name binding element = bd_storage name binding BA_ReadWrite element"

definition bd_output :: "string \<Rightarrow> u32 \<Rightarrow> data_type \<Rightarrow> buffer_decl" where
  "bd_output name binding element =
     (bd_read_write name binding element)\<lparr>bd_is_output := True, bd_pipeline_live_out := True\<rparr>"

definition bd_workgroup :: "string \<Rightarrow> u32 \<Rightarrow> data_type \<Rightarrow> buffer_decl" where
  "bd_workgroup name count element =
     \<lparr>bd_name = name, bd_binding = 0, bd_access = BA_Workgroup, bd_kind = MK_Shared,
      bd_element = element, bd_count = count, bd_is_output = False, bd_pipeline_live_out = False,
      bd_output_byte_range = None, bd_hints = default_hints, bd_bytes_extraction = False,
      bd_linear_type = LT_Unrestricted, bd_shape_predicate = None\<rparr>"

definition bd_uniform :: "string \<Rightarrow> u32 \<Rightarrow> data_type \<Rightarrow> buffer_decl" where
  "bd_uniform name binding element = bd_storage name binding BA_Uniform element"

definition static_byte_len :: "buffer_decl \<Rightarrow> size_error + usize option" where
  "static_byte_len b =
     (if bd_count b = 0 then Inr None else packed_size_bytes (bd_element b) (ucast (bd_count b)))"

subsection \<open>Programs\<close>

record program =
  pg_entry_op_id :: "string option"
  pg_buffers :: "buffer_decl list"
  pg_buffer_index :: "string \<rightharpoonup> nat"
  pg_workgroup_size :: "u32 \<times> u32 \<times> u32"
  pg_entry :: "node list"
  pg_output_index :: "u32 list option"
  pg_non_composable :: bool

fun build_buffer_index_from :: "nat \<Rightarrow> (string \<rightharpoonup> nat) \<Rightarrow> buffer_decl list \<Rightarrow> (string \<rightharpoonup> nat)" where
  "build_buffer_index_from i index [] = index"
| "build_buffer_index_from i index (b # bs) =
     build_buffer_index_from (Suc i)
       (case index (bd_name b) of None \<Rightarrow> index(bd_name b \<mapsto> i) | Some _ \<Rightarrow> index) bs"

definition build_buffer_index :: "buffer_decl list \<Rightarrow> (string \<rightharpoonup> nat)" where
  "build_buffer_index bs = build_buffer_index_from 0 Map.empty bs"

text \<open>Interning the names in \<open>new_raw\<close> shares storage and does not change any name.\<close>

definition new_raw :: "buffer_decl list \<Rightarrow> u32 \<times> u32 \<times> u32 \<Rightarrow> node list \<Rightarrow> program" where
  "new_raw buffers workgroup_size entry =
     \<lparr>pg_entry_op_id = None, pg_buffers = buffers,
      pg_buffer_index = build_buffer_index buffers, pg_workgroup_size = workgroup_size,
      pg_entry = entry, pg_output_index = None, pg_non_composable = False\<rparr>"

fun is_region :: "node \<Rightarrow> bool" where
  "is_region (N_Region _ _ _) = True"
| "is_region _ = False"

definition ROOT_REGION_GENERATOR :: string where
  "ROOT_REGION_GENERATOR = ''vyre.program.root''"

definition entry_needs_root_region :: "node list \<Rightarrow> bool" where
  "entry_needs_root_region entry = (entry = [] \<or> list_ex (\<lambda>n. \<not> is_region n) entry)"

definition wrap_entry :: "node list \<Rightarrow> node list" where
  "wrap_entry entry =
     (if \<not> entry_needs_root_region entry then entry
      else [N_Region ROOT_REGION_GENERATOR None entry])"

definition wrapped :: "buffer_decl list \<Rightarrow> u32 \<times> u32 \<times> u32 \<Rightarrow> node list \<Rightarrow> program" where
  "wrapped buffers workgroup_size entry = new_raw buffers workgroup_size (wrap_entry entry)"

definition empty_program :: program where
  "empty_program = wrapped [] (1, 1, 1) []"

definition is_explicit_noop :: "program \<Rightarrow> bool" where
  "is_explicit_noop p =
     (pg_buffers p = [] \<and>
      (case pg_entry p of [N_Region _ _ body] \<Rightarrow> body = [] | _ \<Rightarrow> False))"

definition is_top_level_region_wrapped :: "program \<Rightarrow> bool" where
  "is_top_level_region_wrapped p = (pg_entry p \<noteq> [] \<and> list_all is_region (pg_entry p))"

definition buffer_lookup :: "program \<Rightarrow> string \<Rightarrow> buffer_decl option" where
  "buffer_lookup p name =
     (case pg_buffer_index p name of
        None \<Rightarrow> None
      | Some i \<Rightarrow> if i < length (pg_buffers p) then Some (pg_buffers p ! i) else None)"

definition with_optional_entry_op_id :: "program \<Rightarrow> string option \<Rightarrow> program" where
  "with_optional_entry_op_id p op_id = p\<lparr>pg_entry_op_id := op_id, pg_output_index := None\<rparr>"

definition with_non_composable_with_self :: "program \<Rightarrow> bool \<Rightarrow> program" where
  "with_non_composable_with_self p flag = p\<lparr>pg_non_composable := flag, pg_output_index := None\<rparr>"

definition is_output_access :: "buffer_access \<Rightarrow> bool" where
  "is_output_access a = (a = BA_ReadWrite \<or> a = BA_WriteOnly)"

fun output_indices_from :: "nat \<Rightarrow> buffer_decl list \<Rightarrow> u32 list" where
  "output_indices_from i [] = []"
| "output_indices_from i (b # bs) =
     (if is_output_access (bd_access b) \<and> i < 2 ^ 32
      then of_nat i # output_indices_from (Suc i) bs
      else output_indices_from (Suc i) bs)"

text \<open>\<open>get_or_init\<close>: a filled cache is returned as it is.\<close>

definition output_buffer_indices :: "program \<Rightarrow> u32 list" where
  "output_buffer_indices p =
     (case pg_output_index p of
        Some indices \<Rightarrow> indices
      | None \<Rightarrow> output_indices_from 0 (pg_buffers p))"

text \<open>The query also leaves its answer in the cache.\<close>

definition query_outputs :: "program \<Rightarrow> program" where
  "query_outputs p = p\<lparr>pg_output_index := Some (output_buffer_indices p)\<rparr>"

text \<open>Rewriting a program: every rewrite starts with empty caches.\<close>

definition map_entry :: "(node list \<Rightarrow> node list) \<Rightarrow> program \<Rightarrow> program" where
  "map_entry f p = p\<lparr>pg_entry := f (pg_entry p), pg_output_index := None\<rparr>"

definition with_rewritten_entry :: "program \<Rightarrow> node list \<Rightarrow> program" where
  "with_rewritten_entry p entry = p\<lparr>pg_entry := entry, pg_output_index := None\<rparr>"

definition with_rewritten_wrapped_entry :: "program \<Rightarrow> node list \<Rightarrow> program" where
  "with_rewritten_wrapped_entry p entry = with_rewritten_entry p (wrap_entry entry)"

definition with_rewritten_buffers :: "program \<Rightarrow> buffer_decl list \<Rightarrow> program" where
  "with_rewritten_buffers p buffers =
     p\<lparr>pg_buffers := buffers, pg_buffer_index := build_buffer_index buffers,
       pg_output_index := None\<rparr>"

definition with_rewritten_workgroup_size_and_entry ::
    "program \<Rightarrow> u32 \<times> u32 \<times> u32 \<Rightarrow> node list \<Rightarrow> program" where
  "with_rewritten_workgroup_size_and_entry p workgroup_size entry =
     p\<lparr>pg_workgroup_size := workgroup_size, pg_entry := entry, pg_output_index := None\<rparr>"

definition set_workgroup_size :: "program \<Rightarrow> u32 \<times> u32 \<times> u32 \<Rightarrow> program" where
  "set_workgroup_size p workgroup_size =
     p\<lparr>pg_workgroup_size := workgroup_size, pg_output_index := None\<rparr>"

definition reconcile_runnable_top_level :: "program \<Rightarrow> program" where
  "reconcile_runnable_top_level p =
     (if is_top_level_region_wrapped p then p else map_entry wrap_entry p)"

text \<open>The violation text names the first top-level node that is not a region.\<close>

datatype top_level_violation = TL_Empty | TL_NotRegion nat node

fun first_non_region :: "nat \<Rightarrow> node list \<Rightarrow> top_level_violation option" where
  "first_non_region i [] = None"
| "first_non_region i (n # ns) =
     (if \<not> is_region n then Some (TL_NotRegion i n) else first_non_region (Suc i) ns)"

definition top_level_region_violation :: "program \<Rightarrow> top_level_violation option" where
  "top_level_region_violation p =
     (if pg_entry p = [] then Some TL_Empty else first_non_region 0 (pg_entry p))"

text \<open>Sum of the declared byte sizes, saturating at \<open>u64::MAX\<close>.\<close>

definition u64_saturating_mul :: "u64 \<Rightarrow> u64 \<Rightarrow> u64" where
  "u64_saturating_mul a b = (if unat a * unat b < 2 ^ 64 then a * b else -1)"

definition u64_saturating_add :: "u64 \<Rightarrow> u64 \<Rightarrow> u64" where
  "u64_saturating_add a b = (if unat a + unat b < 2 ^ 64 then a + b else -1)"

definition buffer_vram_bytes :: "buffer_decl \<Rightarrow> u64" where
  "buffer_vram_bytes b =
     (case size_bytes (bd_element b) of
        None \<Rightarrow> -1
      | Some n \<Rightarrow> u64_saturating_mul (ucast (bd_count b)) n)"

definition estimate_peak_vram_bytes :: "program \<Rightarrow> u64" where
  "estimate_peak_vram_bytes p =
     foldl (\<lambda>acc b. u64_saturating_add acc (buffer_vram_bytes b)) 0 (pg_buffers p)"

subsection \<open>Computational intensity\<close>

text \<open>\<open>OpIntensity\<close> derives its order from the declaration order of its variants.\<close>

fun intensity_rank :: "op_intensity \<Rightarrow> nat" where
  "intensity_rank OI_Free = 0"
| "intensity_rank OI_Light = 1"
| "intensity_rank OI_Medium = 2"
| "intensity_rank OI_Heavy = 3"

instantiation op_intensity :: linorder
begin

definition less_eq_op_intensity :: "op_intensity \<Rightarrow> op_intensity \<Rightarrow> bool" where
  "a \<le> b \<longleftrightarrow> intensity_rank a \<le> intensity_rank b"

definition less_op_intensity :: "op_intensity \<Rightarrow> op_intensity \<Rightarrow> bool" where
  "a < b \<longleftrightarrow> intensity_rank a < intensity_rank b"

instance
proof
  fix a b :: op_intensity
  show "a \<le> b \<Longrightarrow> b \<le> a \<Longrightarrow> a = b"
    by (cases a; cases b) (simp_all add: less_eq_op_intensity_def)
qed (auto simp: less_eq_op_intensity_def less_op_intensity_def)

end

fun expr_intensity :: "expr \<Rightarrow> op_intensity" where
  "expr_intensity (E_BinOp op l r) =
     max (max (intensity op) (expr_intensity l)) (expr_intensity r)"
| "expr_intensity (E_UnOp _ e) = expr_intensity e"
| "expr_intensity (E_Load _ i) = expr_intensity i"
| "expr_intensity (E_Select c t f) =
     max (max (expr_intensity c) (expr_intensity t)) (expr_intensity f)"
| "expr_intensity (E_Cast _ e) = expr_intensity e"
| "expr_intensity (E_Fma a b c) =
     max (max (expr_intensity a) (expr_intensity b)) (expr_intensity c)"
| "expr_intensity (E_Atomic _ _ i None v _) =
     max (max (expr_intensity i) (expr_intensity v)) OI_Heavy"
| "expr_intensity (E_Atomic _ _ i (Some e) v _) =
     max (max (max (expr_intensity i) (expr_intensity v)) (expr_intensity e)) OI_Heavy"
| "expr_intensity (E_SubgroupBallot c) = max (expr_intensity c) OI_Heavy"
| "expr_intensity (E_SubgroupShuffle v l) =
     max (max (expr_intensity v) (expr_intensity l)) OI_Heavy"
| "expr_intensity (E_SubgroupAdd v) = max (expr_intensity v) OI_Heavy"
| "expr_intensity _ = OI_Free"

fun node_intensity :: "node \<Rightarrow> op_intensity" and
    nodes_intensity :: "op_intensity \<Rightarrow> node list \<Rightarrow> op_intensity" where
  "node_intensity (N_Let _ v) = expr_intensity v"
| "node_intensity (N_Assign _ v) = expr_intensity v"
| "node_intensity (N_Store _ i v) = max (expr_intensity i) (expr_intensity v)"
| "node_intensity (N_If c t f) = nodes_intensity (nodes_intensity (expr_intensity c) t) f"
| "node_intensity (N_Loop _ from to body) =
     nodes_intensity (max (expr_intensity from) (expr_intensity to)) body"
| "node_intensity (N_Block body) = nodes_intensity OI_Free body"
| "node_intensity (N_Region _ _ body) = nodes_intensity OI_Free body"
| "node_intensity _ = OI_Free"
| "nodes_intensity p [] = p"
| "nodes_intensity p (n # ns) = nodes_intensity (max p (node_intensity n)) ns"

definition peak_intensity :: "program \<Rightarrow> op_intensity" where
  "peak_intensity p = nodes_intensity OI_Free (pg_entry p)"

text \<open>The rewriting operations of \<open>Program\<close> and the query that fills a cache, as one family.\<close>

datatype (plugins only: code size) program_edit =
    PE_Entry "node list"
  | PE_WrappedEntry "node list"
  | PE_Buffers "buffer_decl list"
  | PE_WorkgroupEntry "u32 \<times> u32 \<times> u32" "node list"
  | PE_WorkgroupSize "u32 \<times> u32 \<times> u32"
  | PE_EntryOpId "string option"
  | PE_NonComposable bool
  | PE_Reconcile
  | PE_QueryOutputs

fun apply_edit :: "program_edit \<Rightarrow> program \<Rightarrow> program" where
  "apply_edit (PE_Entry entry) p = with_rewritten_entry p entry"
| "apply_edit (PE_WrappedEntry entry) p = with_rewritten_wrapped_entry p entry"
| "apply_edit (PE_Buffers buffers) p = with_rewritten_buffers p buffers"
| "apply_edit (PE_WorkgroupEntry wg entry) p = with_rewritten_workgroup_size_and_entry p wg entry"
| "apply_edit (PE_WorkgroupSize wg) p = set_workgroup_size p wg"
| "apply_edit (PE_EntryOpId op_id) p = with_optional_entry_op_id p op_id"
| "apply_edit (PE_NonComposable flag) p = with_non_composable_with_self p flag"
| "apply_edit PE_Reconcile p = reconcile_runnable_top_level p"
| "apply_edit PE_QueryOutputs p = query_outputs p"

definition consistent :: "program \<Rightarrow> bool" where
  "consistent p =
     (pg_buffer_index p = build_buffer_index (pg_buffers p) \<and>
      (case pg_output_index p of
         None \<Rightarrow> True
       | Some indices \<Rightarrow> indices = output_indices_from 0 (pg_buffers p)))"

text \<open>Exact demand of one declaration, a number that may exceed 64 bits.\<close>

definition vram_demand :: "buffer_decl \<Rightarrow> nat" where
  "vram_demand b =
     (case size_bytes (bd_element b) of
        None \<Rightarrow> 2 ^ 64 - 1 | Some n \<Rightarrow> unat (bd_count b) * unat n)"

subsection \<open>The name index\<close>

lemma build_buffer_index_from_lookup:
  "build_buffer_index_from i index bs name =
     (case index name of
        Some j \<Rightarrow> Some j
      | None \<Rightarrow>
          if find (\<lambda>b. bd_name b = name) bs = None then None
          else Some (i + length (takeWhile (\<lambda>b. bd_name b \<noteq> name) bs)))"
  by (induction i index bs rule: build_buffer_index_from.induct)
     (auto split: option.splits)

lemma find_takeWhile:
  "find P xs = Some x \<Longrightarrow>
     length (takeWhile (\<lambda>x. \<not> P x) xs) < length xs \<and> xs ! length (takeWhile (\<lambda>x. \<not> P x) xs) = x"
  by (induction xs) (auto split: if_splits)

lemma buffer_lookup_consistent:
  "consistent p \<Longrightarrow> buffer_lookup p name = find (\<lambda>b. bd_name b = name) (pg_buffers p)"
  using find_takeWhile[of "\<lambda>b. bd_name b = name" "pg_buffers p"]
  by (cases "find (\<lambda>b. bd_name b = name) (pg_buffers p)")
     (simp_all add: buffer_lookup_def consistent_def build_buffer_index_def
        build_buffer_index_from_lookup)

lemma output_buffer_indices_consistent:
  "consistent p \<Longrightarrow> output_buffer_indices p = output_indices_from 0 (pg_buffers p)"
  by (auto simp: output_buffer_indices_def consistent_def split: option.splits)

lemma consistent_query_outputs: "consistent p \<Longrightarrow> consistent (query_outputs p)"
  using output_buffer_indices_consistent[of p] by (simp add: query_outputs_def consistent_def)

lemma output_indices_from_filter:
  "output_indices_from i bs =
     map of_nat (filter (\<lambda>k. is_output_access (bd_access (bs ! (k - i))) \<and> k < 2 ^ 32) [i..<i + length bs])"
proof (induction bs arbitrary: i)
  case (Cons b bs)
  have "filter (\<lambda>k. is_output_access (bd_access ((b # bs) ! (k - i))) \<and> k < 2 ^ 32) [Suc i..<Suc i + length bs] =
      filter (\<lambda>k. is_output_access (bd_access (bs ! (k - Suc i))) \<and> k < 2 ^ 32) [Suc i..<Suc i + length bs]"
    by (intro filter_cong) (auto simp: nth_Cons' Suc_diff_le)
  moreover have "[i..<i + length (b # bs)] = i # [Suc i..<Suc i + length bs]" by (simp add: upt_conv_Cons del: upt_Suc)
  ultimately show ?case using Cons.IH[of "Suc i"] by (simp del: upt_Suc)
qed simp

lemma consistent_new_raw [simp]: "consistent (new_raw bs wg entry)"
  by (simp add: consistent_def new_raw_def)

lemma consistent_wrapped [simp]: "consistent (wrapped bs wg entry)"
  by (simp add: wrapped_def)

subsection \<open>Rewrites as an interface\<close>

text \<open>
  What optimizer passes rely on from a rewriting operation: it keeps the tables of the
  program consistent.  Any pipeline of such operations keeps them too, so name lookup
  and the output index of the rewritten program can be read off its declarations.
\<close>

locale program_rewrite =
  fixes rewrite :: "'a \<Rightarrow> program \<Rightarrow> program"
  assumes rewrite_consistent: "consistent p \<Longrightarrow> consistent (rewrite a p)"
begin

lemma fold_consistent: "consistent p \<Longrightarrow> consistent (fold rewrite as p)"
  by (induction as arbitrary: p) (simp_all add: rewrite_consistent)

lemma fold_lookup:
  "consistent p \<Longrightarrow>
     buffer_lookup (fold rewrite as p) name =
       find (\<lambda>b. bd_name b = name) (pg_buffers (fold rewrite as p))"
  by (simp add: fold_consistent buffer_lookup_consistent)

lemma fold_output_indices:
  "consistent p \<Longrightarrow>
     output_buffer_indices (fold rewrite as p) =
       output_indices_from 0 (pg_buffers (fold rewrite as p))"
  by (simp add: fold_consistent output_buffer_indices_consistent)

end

lemmas program_edit_defs =
  with_rewritten_entry_def with_rewritten_wrapped_entry_def with_rewritten_buffers_def
  with_rewritten_workgroup_size_and_entry_def set_workgroup_size_def
  with_optional_entry_op_id_def with_non_composable_with_self_def
  reconcile_runnable_top_level_def map_entry_def

interpretation edits: program_rewrite apply_edit
proof
  fix p e
  assume "consistent p"
  then show "consistent (apply_edit e p)"
    by (cases e) (simp_all add: consistent_query_outputs, simp_all add: program_edit_defs consistent_def)
qed

subsection \<open>Region wrapping\<close>

lemma first_non_region_None: "first_non_region i ns = None \<longleftrightarrow> list_all is_region ns"
  by (induction ns arbitrary: i) auto

lemma entry_needs_root_region_iff:
  "entry_needs_root_region e \<longleftrightarrow> \<not> (e \<noteq> [] \<and> list_all is_region e)"
  by (auto simp: entry_needs_root_region_def list_ex_iff list_all_iff)

lemma wrap_entry_regions [simp]:
  "wrap_entry e \<noteq> []" "list_all is_region (wrap_entry e)"
  by (auto simp: wrap_entry_def entry_needs_root_region_iff)

lemma wrap_entry_id [simp]: "e \<noteq> [] \<Longrightarrow> list_all is_region e \<Longrightarrow> wrap_entry e = e"
  by (simp add: wrap_entry_def entry_needs_root_region_iff)

lemma top_level_region_violation_None:
  "top_level_region_violation p = None \<longleftrightarrow> is_top_level_region_wrapped p"
  by (simp add: top_level_region_violation_def is_top_level_region_wrapped_def
      first_non_region_None)

lemma nodes_intensity_acc: "nodes_intensity p ns = max p (nodes_intensity OI_Free ns)"
proof (induction ns arbitrary: p)
  case Nil
  show ?case by (cases p) (simp_all add: max_def less_eq_op_intensity_def)
next
  case (Cons n ns)
  show ?case
    using Cons[of "max p (node_intensity n)"] Cons[of "max OI_Free (node_intensity n)"]
    by (simp add: max.assoc max.left_commute max.absorb2 less_eq_op_intensity_def)
qed

lemma wrap_entry_intensity [simp]:
  "nodes_intensity OI_Free (wrap_entry e) = nodes_intensity OI_Free e"
  using nodes_intensity_acc[of "nodes_intensity OI_Free e" "[]"]
  by (simp add: wrap_entry_def max_def less_eq_op_intensity_def)

subsection \<open>Saturating memory estimate\<close>

lemma unat_u64_saturating_add:
  "unat (u64_saturating_add a b) = min (2 ^ 64 - 1) (unat a + unat b)"
  by (auto simp: u64_saturating_add_def unat_word_ariths unsigned_minus_1_eq_mask
      mask_eq_exp_minus_1 min_def)

lemma unat_u64_saturating_mul:
  "unat (u64_saturating_mul a b) = min (2 ^ 64 - 1) (unat a * unat b)"
  by (auto simp: u64_saturating_mul_def unat_word_ariths unsigned_minus_1_eq_mask
      mask_eq_exp_minus_1 min_def)

lemma unat_buffer_vram_bytes:
  "unat (buffer_vram_bytes b) = min (2 ^ 64 - 1) (vram_demand b)"
  by (auto simp: buffer_vram_bytes_def vram_demand_def unat_u64_saturating_mul
      unsigned_minus_1_eq_mask mask_eq_exp_minus_1 split: option.splits)

lemma unat_vram_fold:
  "unat (foldl (\<lambda>acc b. u64_saturating_add acc (buffer_vram_bytes b)) a bs) =
     min (2 ^ 64 - 1) (unat a + sum_list (map vram_demand bs))"
proof (induction bs arbitrary: a)
  case Nil
  show ?case using unsigned_less[of a, where 'a = nat] by simp
next
  case (Cons b bs)
  then show ?case
    by (simp add: unat_u64_saturating_add unat_buffer_vram_bytes min_def)
qed

subsection \<open>Properties\<close>

text \<open>
  C23. Every program built by \<open>Program::wrapped\<close>, and every program after
  \<open>reconcile_runnable_top_level\<close>, satisfies the top-level region contract: at least one
  node, all of them regions, no violation reported.  Wrapping the entry of a wrapped program again and
  reconciling a second time change nothing, and neither changes the peak intensity of the body.
\<close>

theorem region_contract:
  "is_top_level_region_wrapped (wrapped bs wg e)
   \<and> wrapped bs wg (pg_entry (wrapped bs wg e)) = wrapped bs wg e
   \<and> top_level_region_violation (reconcile_runnable_top_level p) = None
   \<and> reconcile_runnable_top_level (reconcile_runnable_top_level p)
       = reconcile_runnable_top_level p
   \<and> peak_intensity (wrapped bs wg e) = nodes_intensity OI_Free e
   \<and> peak_intensity (reconcile_runnable_top_level p) = peak_intensity p"
proof -
  have wrapped: "is_top_level_region_wrapped (reconcile_runnable_top_level p)"
    by (simp add: reconcile_runnable_top_level_def is_top_level_region_wrapped_def map_entry_def)
  then have "reconcile_runnable_top_level (reconcile_runnable_top_level p)
      = reconcile_runnable_top_level p"
    by (simp add: reconcile_runnable_top_level_def)
  with wrapped show ?thesis
    by (simp add: top_level_region_violation_None wrapped_def new_raw_def peak_intensity_def
        is_top_level_region_wrapped_def reconcile_runnable_top_level_def map_entry_def)
qed

text \<open>
  C24. The tables of a program never go stale.  After any interleaving of the rewriting operations with queries
  that fill the output cache, looking a buffer up by name gives the first declaration with that
  name in the current buffer table, and the output query lists the positions of the writable buffers of
  the current table.
\<close>

theorem rewrites_keep_tables:
  "let q = fold apply_edit es (wrapped bs wg e) in
     buffer_lookup q name = find (\<lambda>b. bd_name b = name) (pg_buffers q)
     \<and> output_buffer_indices q =
         map of_nat (filter (\<lambda>i. is_output_access (bd_access (pg_buffers q ! i)) \<and> i < 2 ^ 32) [0..<length (pg_buffers q)])"
  using edits.fold_lookup[OF consistent_wrapped] edits.fold_output_indices[OF consistent_wrapped]
  by (simp add: Let_def output_indices_from_filter)

text \<open>
  C25. The memory estimate is the exact sum of the declared buffer sizes, workgroup memory included, clamped to
  \<open>u64::MAX\<close>; no wrap-around can make it smaller.
\<close>

theorem estimate_peak_vram_exact:
  "unat (estimate_peak_vram_bytes p) =
     min (2 ^ 64 - 1) (sum_list (map vram_demand (pg_buffers p)))"
  by (simp add: estimate_peak_vram_bytes_def unat_vram_fold)

end
