(* ===== verification/Wire_Region.thy ===== *)
theory Wire_Region
  imports Wire_DataType Wire_Leb Ir_Model
begin

text \<open>
  The memory-region table of the program envelope: \<open>put_memory_regions_with_scratch\<close> and its
  helpers (\<open>serial/wire/encode/to_wire.rs\<close>), \<open>read_memory_regions\<close>
  (\<open>serial/wire/decode/from_wire.rs\<close>), the payload readers of \<open>from_wire/payload.rs\<close> and the
  range check of \<open>decode/invariants.rs\<close>.  A region carries what the metadata record of the
  buffer does not: memory kind, access mode, element type, shape and hints.
\<close>

subsection \<open>Nested payloads\<close>

text \<open>
  A length-prefixed payload is decoded by a reader of its own that must end exactly at the
  end of the payload.
\<close>

definition rd_within :: "decode_error \<Rightarrow> 'a parser \<Rightarrow> bytes \<Rightarrow> 'a parser" where
  "rd_within trailing m payload r =
     (case m (rd_start payload) of
        Inl e \<Rightarrow> Inl e
      | Inr (x, s) \<Rightarrow> if rd_at_end s then Inr (x, r) else Inl trailing)"

definition put_payload :: "bytes \<Rightarrow> bytes \<Rightarrow> encode_error + bytes" where
  "put_payload out payload =
     rbind (u64_of_len (length payload)) (\<lambda>n. Inr (put_leb_u64 out n @ payload))"

subsection \<open>Tags\<close>

fun memory_kind_tag :: "memory_kind \<Rightarrow> u8" where
  "memory_kind_tag MK_Global = 0"
| "memory_kind_tag MK_Shared = 1"
| "memory_kind_tag MK_Uniform = 2"
| "memory_kind_tag MK_Local = 3"
| "memory_kind_tag MK_Readonly = 4"
| "memory_kind_tag MK_Push = 5"
| "memory_kind_tag MK_Persistent = 6"

definition memory_kind_from_tag :: "u8 \<Rightarrow> decode_error + memory_kind" where
  "memory_kind_from_tag tag =
     (if tag = 0 then Inr MK_Global
      else if tag = 1 then Inr MK_Shared
      else if tag = 2 then Inr MK_Uniform
      else if tag = 3 then Inr MK_Local
      else if tag = 4 then Inr MK_Readonly
      else if tag = 5 then Inr MK_Push
      else if tag = 6 then Inr MK_Persistent
      else Inl (DE_Region (RG_MemoryKind tag)))"

fun dense_data_type_tag :: "data_type \<Rightarrow> encode_error + u8" where
  "dense_data_type_tag DT_U32 = Inr 0x01"
| "dense_data_type_tag DT_I32 = Inr 0x02"
| "dense_data_type_tag DT_U64 = Inr 0x03"
| "dense_data_type_tag DT_Vec2U32 = Inr 0x04"
| "dense_data_type_tag DT_Vec4U32 = Inr 0x05"
| "dense_data_type_tag DT_Bool = Inr 0x06"
| "dense_data_type_tag DT_Bytes = Inr 0x07"
| "dense_data_type_tag (DT_Array _) = Inr 0x08"
| "dense_data_type_tag DT_F16 = Inr 0x09"
| "dense_data_type_tag DT_BF16 = Inr 0x0A"
| "dense_data_type_tag DT_F32 = Inr 0x0B"
| "dense_data_type_tag DT_F64 = Inr 0x0C"
| "dense_data_type_tag DT_Tensor = Inr 0x0D"
| "dense_data_type_tag DT_U8 = Inr 0x0E"
| "dense_data_type_tag DT_U16 = Inr 0x0F"
| "dense_data_type_tag DT_I8 = Inr 0x10"
| "dense_data_type_tag DT_I16 = Inr 0x11"
| "dense_data_type_tag DT_I64 = Inr 0x12"
| "dense_data_type_tag (DT_Handle _) = Inr 0x13"
| "dense_data_type_tag (DT_Vec _ _) = Inr 0x14"
| "dense_data_type_tag (DT_TensorShaped _ _) = Inr 0x15"
| "dense_data_type_tag DT_F8E4M3 = Inr 0x19"
| "dense_data_type_tag DT_F8E5M2 = Inr 0x1A"
| "dense_data_type_tag DT_I4 = Inr 0x1B"
| "dense_data_type_tag DT_FP4 = Inr 0x1C"
| "dense_data_type_tag DT_NF4 = Inr 0x1D"
| "dense_data_type_tag (DT_Quantized _ _ _) = Inr 0x1F"
| "dense_data_type_tag (DT_Opaque _) = Inr 0x80"
| "dense_data_type_tag _ = Inl EE_RegionElement"

text \<open>
  \<open>payload::data_type_from_tag\<close>: types that need a shape payload, or that the dense form
  does not allow, are refused here.
\<close>

definition dense_data_type_from_tag :: "u8 \<Rightarrow> decode_error + data_type" where
  "dense_data_type_from_tag tag =
     (if tag = 0x01 then Inr DT_U32
      else if tag = 0x02 then Inr DT_I32
      else if tag = 0x03 then Inr DT_U64
      else if tag = 0x04 then Inr DT_Vec2U32
      else if tag = 0x05 then Inr DT_Vec4U32
      else if tag = 0x06 then Inr DT_Bool
      else if tag = 0x07 then Inr DT_Bytes
      else if tag = 0x08 then Inl (DE_DataTypePayload tag)
      else if tag = 0x09 then Inr DT_F16
      else if tag = 0x0A then Inr DT_BF16
      else if tag = 0x0B then Inr DT_F32
      else if tag = 0x0C then Inr DT_F64
      else if tag = 0x0D then Inr DT_Tensor
      else if tag = 0x0E then Inr DT_U8
      else if tag = 0x0F then Inr DT_U16
      else if tag = 0x10 then Inr DT_I8
      else if tag = 0x11 then Inr DT_I16
      else if tag = 0x12 then Inr DT_I64
      else if tag = 0x13 \<or> tag = 0x14 \<or> tag = 0x15 then Inl (DE_DataTypePayload tag)
      else if tag = 0x19 then Inr DT_F8E4M3
      else if tag = 0x1A then Inr DT_F8E5M2
      else if tag = 0x1B then Inr DT_I4
      else if tag = 0x1C then Inr DT_FP4
      else if tag = 0x1D then Inr DT_NF4
      else Inl (DE_DataTypeTag tag))"

subsection \<open>Encoding\<close>

fun put_dense_quantization_scale :: "bytes \<Rightarrow> quantization_scale \<Rightarrow> encode_error + bytes" where
  "put_dense_quantization_scale out QS_PerTensor = Inr (put_leb_u64 (put_leb_u64 out 0) 0)"
| "put_dense_quantization_scale out (QS_PerChannel axis) =
     Inr (put_leb_u64 (put_leb_u64 out 1) (ucast axis))"
| "put_dense_quantization_scale out (QS_PerGroup n) =
     (if n = 0 then Inl EE_ScaleGroupSize else Inr (put_leb_u64 (put_leb_u64 out 2) (ucast n)))"

fun put_dense_quantization_zero_point ::
    "bytes \<Rightarrow> quantization_zero_point \<Rightarrow> encode_error + bytes" where
  "put_dense_quantization_zero_point out QZ_Absent = Inr (put_leb_u64 (put_leb_u64 out 0) 0)"
| "put_dense_quantization_zero_point out QZ_PerTensor = Inr (put_leb_u64 (put_leb_u64 out 1) 0)"
| "put_dense_quantization_zero_point out (QZ_PerChannel axis) =
     Inr (put_leb_u64 (put_leb_u64 out 2) (ucast axis))"
| "put_dense_quantization_zero_point out (QZ_PerGroup n) =
     (if n = 0 then Inl EE_ZeroPointGroupSize
      else Inr (put_leb_u64 (put_leb_u64 out 3) (ucast n)))"

fun cache_locality_tag :: "cache_locality \<Rightarrow> u8" where
  "cache_locality_tag CL_Streaming = 0"
| "cache_locality_tag CL_Temporal = 1"
| "cache_locality_tag CL_Random = 2"

definition put_hints_payload :: "bytes \<Rightarrow> memory_hints \<Rightarrow> bytes" where
  "put_hints_payload out h =
     (let out = (case coalesce_axis h of
                   Some axis \<Rightarrow> put_u8 (put_u8 out 1) axis
                 | None \<Rightarrow> put_u8 out 0);
          out = put_u32 out (preferred_alignment h)
      in put_u8 out (cache_locality_tag (cache_locality h)))"

text \<open>What follows the element count in the shape payload.\<close>

fun put_shape_element :: "bytes \<Rightarrow> data_type \<Rightarrow> encode_error + bytes" where
  "put_shape_element shape (DT_Array n) = Inr (put_leb_u64 shape n)"
| "put_shape_element shape (DT_Handle i) = Inr (put_leb_u64 shape (ucast i))"
| "put_shape_element shape (DT_Opaque i) = Inr (put_leb_u64 shape (ucast i))"
| "put_shape_element shape (DT_Quantized storage scale zero_point) =
     (if \<not> is_quantized_storage storage then Inl EE_RegionStorage
      else rbind (dense_data_type_tag storage) (\<lambda>tag.
             rbind (put_dense_quantization_scale (put_leb_u64 shape (ucast tag)) scale) (\<lambda>shape.
               put_dense_quantization_zero_point shape zero_point)))"
| "put_shape_element shape _ = Inr shape"

definition put_shape :: "bytes \<Rightarrow> buffer_decl \<Rightarrow> encode_error + bytes" where
  "put_shape shape b = put_shape_element (put_leb_u64 shape (ucast (bd_count b))) (bd_element b)"

definition put_memory_region :: "bytes \<Rightarrow> nat \<Rightarrow> buffer_decl \<Rightarrow> encode_error + bytes" where
  "put_memory_region out index b =
     (if index \<ge> 2 ^ 32 then Inl (EE_RegionId index)
      else let out = put_leb_u32 out (of_nat index);
               out = put_u8 out (memory_kind_tag (bd_kind b));
               out = put_u8 out (access_tag (bd_access b))
           in rbind (dense_data_type_tag (bd_element b)) (\<lambda>tag.
                let out = put_u8 (put_u8 out tag) 0 in
                rbind (put_shape [] b) (\<lambda>shape.
                  rbind (put_payload out shape) (\<lambda>out.
                    put_payload out (put_hints_payload [] (bd_hints b))))))"

fun put_memory_region_list :: "bytes \<Rightarrow> nat \<Rightarrow> buffer_decl list \<Rightarrow> encode_error + bytes" where
  "put_memory_region_list out index [] = Inr out"
| "put_memory_region_list out index (b # bs) =
     rbind (put_memory_region out index b) (\<lambda>out. put_memory_region_list out (Suc index) bs)"

definition put_memory_regions :: "bytes \<Rightarrow> buffer_decl list \<Rightarrow> encode_error + bytes" where
  "put_memory_regions out buffers =
     rbind (u64_of_len (length buffers)) (\<lambda>n. put_memory_region_list (put_leb_u64 out n) 0 buffers)"

subsection \<open>Decoding\<close>

definition leb_u32_field :: "string \<Rightarrow> u32 parser" where
  "leb_u32_field what = rd_bind leb_u64 (\<lambda>v.
     if unat v < 2 ^ 32 then rd_ret (ucast v) else rd_fail (DE_Region (RG_ShapeValue what v)))"

definition leb_u8_field :: "string \<Rightarrow> u8 parser" where
  "leb_u8_field what = rd_bind leb_u64 (\<lambda>v.
     if unat v < 2 ^ 8 then rd_ret (ucast v) else rd_fail (DE_Region (RG_ShapeValue what v)))"

definition read_dense_quantization_scale :: "quantization_scale parser" where
  "read_dense_quantization_scale = rd_bind leb_u64 (\<lambda>tag.
     rd_bind (leb_u32_field ''quantization scale parameter'') (\<lambda>param.
       if tag = 0 then
         if param \<noteq> 0 then rd_fail (DE_ScaleParam param) else rd_ret QS_PerTensor
       else if tag = 1 then rd_ret (QS_PerChannel param)
       else if tag = 2 then
         if param = 0 then rd_fail (DE_ScaleParam param) else rd_ret (QS_PerGroup param)
       else rd_fail (DE_ScaleTag tag)))"

definition read_dense_quantization_zero_point :: "quantization_zero_point parser" where
  "read_dense_quantization_zero_point = rd_bind leb_u64 (\<lambda>tag.
     rd_bind (leb_u32_field ''quantization zero-point parameter'') (\<lambda>param.
       if tag = 0 then
         if param \<noteq> 0 then rd_fail (DE_ZeroPointParam param) else rd_ret QZ_Absent
       else if tag = 1 then
         if param \<noteq> 0 then rd_fail (DE_ZeroPointParam param) else rd_ret QZ_PerTensor
       else if tag = 2 then rd_ret (QZ_PerChannel param)
       else if tag = 3 then
         if param = 0 then rd_fail (DE_ZeroPointParam param) else rd_ret (QZ_PerGroup param)
       else rd_fail (DE_ZeroPointTag tag)))"

definition read_coalesce_axis :: "u8 option parser" where
  "read_coalesce_axis = rd_bind rd_u8 (\<lambda>tag.
     if tag = 0 then rd_ret None
     else if tag = 1 then rd_bind rd_u8 (\<lambda>axis. rd_ret (Some axis))
     else rd_fail (DE_Region (RG_CoalesceTag tag)))"

definition cache_locality_from_tag :: "u8 \<Rightarrow> decode_error + cache_locality" where
  "cache_locality_from_tag tag =
     (if tag = 0 then Inr CL_Streaming
      else if tag = 1 then Inr CL_Temporal
      else if tag = 2 then Inr CL_Random
      else Inl (DE_Region (RG_CacheLocality tag)))"

definition read_hints :: "memory_hints parser" where
  "read_hints = rd_bind read_coalesce_axis (\<lambda>axis. rd_bind rd_u32 (\<lambda>alignment.
     rd_bind rd_u8 (\<lambda>tag. rd_bind (rd_lift (cache_locality_from_tag tag)) (\<lambda>locality.
       rd_ret \<lparr>coalesce_axis = axis, preferred_alignment = alignment, cache_locality = locality\<rparr>))))"

definition read_quantized_element :: "data_type parser" where
  "read_quantized_element = rd_bind (leb_u8_field ''quantized storage DataType tag'') (\<lambda>tag.
     rd_bind (rd_lift (dense_data_type_from_tag tag)) (\<lambda>storage.
       if \<not> is_quantized_storage storage then rd_fail (DE_QuantizedStorage storage)
       else rd_bind read_dense_quantization_scale (\<lambda>scale.
              rd_bind read_dense_quantization_zero_point (\<lambda>zero_point.
                rd_ret (DT_Quantized storage scale zero_point)))))"

definition read_shape_element :: "u8 \<Rightarrow> data_type parser" where
  "read_shape_element tag =
     (if tag = 0x08 then rd_bind leb_u64 (\<lambda>n. rd_ret (DT_Array n))
      else if tag = 0x13 then rd_bind (leb_u32_field ''handle DataType id'') (\<lambda>i. rd_ret (DT_Handle i))
      else if tag = 0x80 then rd_bind (leb_u32_field ''opaque DataType id'') (\<lambda>raw.
        rd_bind (rd_lift (reject_reserved_extension_id raw ''DataType'')) (\<lambda>i. rd_ret (DT_Opaque i)))
      else if tag = 0x1F then read_quantized_element
      else rd_lift (dense_data_type_from_tag tag))"

definition read_shape :: "u8 \<Rightarrow> (u32 \<times> data_type) parser" where
  "read_shape tag = rd_bind (leb_u32_field ''dense shape count'') (\<lambda>count.
     rd_bind (read_shape_element tag) (\<lambda>element. rd_ret (count, element)))"

record decoded_buffer =
  db_name :: string
  db_binding :: u32
  db_access :: buffer_access
  db_kind :: memory_kind
  db_element :: data_type
  db_count :: u32
  db_is_output :: bool
  db_pipeline_live_out :: bool
  db_output_byte_range :: "(usize \<times> usize) option"
  db_hints :: memory_hints
  db_bytes_extraction :: bool

definition validate_output_range_fits ::
    "decoded_buffer \<Rightarrow> data_type \<Rightarrow> u32 \<Rightarrow> region_decode_error + unit" where
  "validate_output_range_fits b element count =
     (case db_output_byte_range b of
        None \<Rightarrow> Inr ()
      | Some (_, range_end) \<Rightarrow>
          rbind (ok_or (size_bytes element) (RG_RangeElement (db_name b))) (\<lambda>n.
            rbind (ok_or (usize_checked_mul (ucast count) n) (RG_RangeOverflow (db_name b)))
              (\<lambda>full_size. rguard (range_end \<le> full_size) (RG_RangeEnd (db_name b)))))"

text \<open>The checks of one region against the metadata of its buffer.\<close>

definition validate_region ::
    "decoded_buffer \<Rightarrow> buffer_access \<Rightarrow> data_type \<Rightarrow> u32 \<Rightarrow> decode_error + unit" where
  "validate_region b access element count =
     rbind (rguard (db_count b = count) (DE_Region (RG_RegionCount count (db_count b)))) (\<lambda>_.
     rbind (rguard (\<not> (count = 0 \<and> access = BA_Workgroup))
              (DE_Region (RG_WorkgroupCount (db_name b)))) (\<lambda>_.
     rbind (rguard (\<not> (count = 0 \<and> db_is_output b))
              (DE_Program (PD_OutputCount (db_name b)))) (\<lambda>_.
     rbind (rguard (\<not> (count = 0 \<and> db_pipeline_live_out b))
              (DE_Program (PD_LiveOutCount (db_name b)))) (\<lambda>_.
     map_err DE_Region (validate_output_range_fits b element count)))))"

definition read_memory_region :: "nat \<Rightarrow> decoded_buffer \<Rightarrow> decoded_buffer parser" where
  "read_memory_region index b = rd_bind leb_u32 (\<lambda>i.
     if unat i \<noteq> index then rd_fail (DE_Region (RG_RegionId i index))
     else rd_bind rd_u8 (\<lambda>kind_tag. rd_bind (rd_lift (memory_kind_from_tag kind_tag)) (\<lambda>kind.
       rd_bind rd_u8 (\<lambda>acc_tag.
       rd_bind (rd_lift (map_err (\<lambda>t. DE_Region (RG_Access t)) (access_from_tag acc_tag))) (\<lambda>access.
       rd_bind rd_u8 (\<lambda>element_tag. rd_bind rd_u8 (\<lambda>shape_tag.
         if shape_tag \<noteq> 0 then rd_fail (DE_Region (RG_ShapeTag shape_tag))
         else rd_bind (leb_len 64 ''shape payload length'') (\<lambda>shape_len.
           rd_bind (rd_take shape_len) (\<lambda>shape_payload.
           rd_bind (rd_within (DE_Region RG_ShapeTrailing) (read_shape element_tag) shape_payload)
             (\<lambda>(count, element).
           rd_bind (leb_len 64 ''hints payload length'') (\<lambda>hints_len.
           rd_bind (rd_take hints_len) (\<lambda>hints_payload.
           rd_bind (rd_within (DE_Region RG_HintsTrailing) read_hints hints_payload) (\<lambda>hints.
           rd_bind (rd_lift (validate_region b access element count)) (\<lambda>_.
             rd_ret (b\<lparr>db_kind := kind, db_access := access, db_element := element,
                        db_count := count, db_hints := hints\<rparr>)))))))))))))))"

text \<open>
  The loop \<open>for index in 0..count\<close>: iteration \<open>index\<close> reads and writes
  \<open>metadata.buffers[index]\<close> only, and \<open>count\<close> is the number of buffers.
\<close>

fun read_memory_region_list :: "nat \<Rightarrow> decoded_buffer list \<Rightarrow> decoded_buffer list parser" where
  "read_memory_region_list index [] = rd_ret []"
| "read_memory_region_list index (b # bs) =
     rd_bind (read_memory_region index b) (\<lambda>b'.
       rd_bind (read_memory_region_list (Suc index) bs) (\<lambda>bs'. rd_ret (b' # bs')))"

definition read_memory_regions :: "decoded_buffer list \<Rightarrow> decoded_buffer list parser" where
  "read_memory_regions buffers = rd_bind (leb_len MAX_BUFFERS ''memory-region count'') (\<lambda>count.
     if count \<noteq> length buffers
     then rd_fail (DE_Region (RG_RegionTableCount count (length buffers)))
     else read_memory_region_list 0 buffers)"

subsection \<open>Reading back nested payloads\<close>

lemma reads_within:
  "reads m p v \<Longrightarrow> length p < usize_bound \<Longrightarrow> rd_within e m p r = Inr (v, r)"
  by (simp add: rd_within_def reads_start rd_at_end_def)

lemma put_payload_Inr:
  "put_payload out p = Inr out' \<longleftrightarrow>
   length p < usize_bound \<and> out' = out @ leb_bytes (of_nat (length p)) @ p"
  by (auto simp: put_payload_def u64_of_len_def put_leb_u64_eq)

lemma wrote_payload:
  assumes m: "reads m p v" and len: "length p \<le> limit"
    and k: "wrote g (k v) w"
  shows "wrote (\<lambda>out. rbind (put_payload out p) g)
      (rd_bind (leb_len limit label) (\<lambda>n. rd_bind (rd_take n) (\<lambda>q. rd_bind (rd_within e m q) k))) w"
  unfolding wrote_def
proof (intro allI impI)
  fix out out' assume "rbind (put_payload out p) g = Inr out'"
  then obtain bs where p: "length p < usize_bound"
    and bs: "out' = out @ (leb_bytes (of_nat (length p)) @ p) @ bs" "reads (k v) bs w"
    using wroteD[OF k] by (fastforce simp: put_payload_Inr result_simps)
  have "reads (rd_bind (rd_within e m p) k) bs w"
    using bs(2) by (simp add: reads_def rd_bind_def reads_within[OF m p])
  then have "reads (rd_bind (leb_len limit label) (\<lambda>n. rd_bind (rd_take n)
      (\<lambda>q. rd_bind (rd_within e m q) k))) (leb_bytes (of_nat (length p)) @ p @ bs) w"
    using len p by (intro reads_bind[OF reads_leb_len] reads_bind[OF reads_take]) auto
  with bs(1) show "\<exists>bs. out' = out @ bs \<and> reads (rd_bind (leb_len limit label) (\<lambda>n. rd_bind (rd_take n)
      (\<lambda>q. rd_bind (rd_within e m q) k))) bs w"
    by auto
qed

lemma wrote_payload_last:
  assumes "reads m p v" "length p \<le> limit" "reads (k v) [] w"
  shows "wrote (\<lambda>out. put_payload out p)
      (rd_bind (leb_len limit label) (\<lambda>n. rd_bind (rd_take n) (\<lambda>q. rd_bind (rd_within e m q) k))) w"
proof -
  have "rbind x Inr = x" for x :: "encode_error + bytes" by (cases x) simp_all
  moreover have "wrote (\<lambda>out. rbind (put_payload out p) Inr)
      (rd_bind (leb_len limit label) (\<lambda>n. rd_bind (rd_take n) (\<lambda>q. rd_bind (rd_within e m q) k))) w"
    by (rule wrote_payload[where v = v]) (auto intro: assms wrote_nil)
  ultimately show ?thesis by simp
qed

lemma ucast_u8_u64 [simp]: "ucast (ucast (b :: u8) :: u64) = b"
  by (rule bit_word_eqI) (simp add: bit_simps)

lemma unat_ucast_u8_u64 [simp]: "unat (ucast (b :: u8) :: u64) = unat b"
  by (simp add: unsigned_ucast_eq)

lemma wrote_leb_u32_field:
  assumes "wrote g (k v) w"
  shows "wrote (\<lambda>out. g (put_leb_u64 out (ucast v))) (rd_bind (leb_u32_field what) k) w"
proof -
  have "unat v < 2 ^ 32" using unsigned_less[of v, where 'a=nat] by simp
  then have "reads (leb_u32_field what) (leb_bytes (ucast v)) v"
    unfolding leb_u32_field_def by (intro reads_bind_nil[OF reads_leb_u64]) (simp add: reads_ret)
  with assms show ?thesis
    unfolding wrote_def by (fastforce simp: put_leb_u64_eq intro: reads_bind)
qed

lemma wrote_leb_u8_field:
  assumes "wrote g (k v) w"
  shows "wrote (\<lambda>out. g (put_leb_u64 out (ucast v))) (rd_bind (leb_u8_field what) k) w"
proof -
  have "unat v < 2 ^ 8" using unsigned_less[of v, where 'a=nat] by simp
  then have "reads (leb_u8_field what) (leb_bytes (ucast v)) v"
    unfolding leb_u8_field_def by (intro reads_bind_nil[OF reads_leb_u64]) (simp add: reads_ret)
  with assms show ?thesis
    unfolding wrote_def by (fastforce simp: put_leb_u64_eq intro: reads_bind)
qed

subsection \<open>Tags and payloads\<close>

lemma memory_kind_roundtrip [simp]: "memory_kind_from_tag (memory_kind_tag k) = Inr k"
  by (cases k) (simp_all add: memory_kind_from_tag_def)

lemma cache_locality_roundtrip [simp]: "cache_locality_from_tag (cache_locality_tag c) = Inr c"
  by (cases c) (simp_all add: cache_locality_from_tag_def)

lemma wrote_hints: "wrote g (k h) v \<Longrightarrow>
  wrote (\<lambda>out. g (put_hints_payload out h)) (rd_bind read_hints k) v"
proof -
  assume g: "wrote g (k h) v"
  have "\<exists>bs. put_hints_payload out h = out @ bs \<and> reads read_hints bs h" for out
  proof -
    have "wrote (\<lambda>out. Inr (put_hints_payload out h)) read_hints h"
      unfolding read_hints_def read_coalesce_axis_def put_hints_payload_def Let_def
      by (cases "coalesce_axis h")
         (simp_all add: rd_bind_steps, (rule wrote_u8 wrote_u32 wrote_lift wrote_ret_eq | simp add: rd_bind_steps)+)
    then show ?thesis by (auto simp: wrote_def)
  qed
  with g show ?thesis unfolding wrote_def by (metis append_assoc reads_bind)
qed

lemma wrote_dense_scale:
  "wrote (\<lambda>out. put_dense_quantization_scale out q) read_dense_quantization_scale q"
  unfolding read_dense_quantization_scale_def
  by (cases q)
     (simp_all, (rule wrote_guard wrote_leb_u64 wrote_leb_u32_field
        wrote_leb_u32_field[of _ _ 0, simplified] wrote_ret_eq | simp)+)

lemma wrote_dense_zero_point:
  "wrote (\<lambda>out. put_dense_quantization_zero_point out q) read_dense_quantization_zero_point q"
  unfolding read_dense_quantization_zero_point_def
  by (cases q)
     (simp_all, (rule wrote_guard wrote_leb_u64 wrote_leb_u32_field
        wrote_leb_u32_field[of _ _ 0, simplified] wrote_ret_eq | simp)+)

text \<open>Element types the dense form can carry both ways.\<close>

fun dense_ok :: "data_type \<Rightarrow> bool" where
  "dense_ok (DT_Vec _ _) = False"
| "dense_ok (DT_TensorShaped _ _) = False"
| "dense_ok (DT_Opaque i) = is_extension i"
| "dense_ok _ = True"

lemma dense_storage_tag:
  "is_quantized_storage t \<Longrightarrow> dense_data_type_tag t = Inr tag \<Longrightarrow> dense_data_type_from_tag tag = Inr t"
  by (cases t) (auto simp: dense_data_type_from_tag_def)

lemma wrote_quantized_element:
  "is_quantized_storage t \<Longrightarrow>
   wrote (\<lambda>out. put_shape_element out (DT_Quantized t s z)) read_quantized_element (DT_Quantized t s z)"
proof -
  assume t: "is_quantized_storage t"
  then obtain tag where tag: "dense_data_type_tag t = Inr tag" by (cases t) auto
  with t show ?thesis
    unfolding read_quantized_element_def
    by simp (rule wrote_leb_u8_field wrote_lift[OF dense_storage_tag[OF t tag]]
        wrote_bind[OF wrote_dense_scale] wrote_last[OF wrote_dense_zero_point reads_ret] | simp add: t)+
qed

lemma wrote_shape_element:
  assumes "dense_data_type_tag t = Inr tag" "dense_ok t"
  shows "wrote (\<lambda>out. put_shape_element out t) (read_shape_element tag) t"
proof (cases "\<exists>s a z. t = DT_Quantized s a z")
  case True
  then obtain s a z where t: "t = DT_Quantized s a z" by blast
  with assms have "read_shape_element tag = read_quantized_element"
    by (auto simp: read_shape_element_def)
  then show ?thesis
    unfolding t by (cases "is_quantized_storage s") (simp_all only: wrote_quantized_element, simp add: wrote_def)
next
  case False
  with assms show ?thesis
    by (cases t) (simp_all add: read_shape_element_def dense_data_type_from_tag_def,
        (rule wrote_leb_u64 wrote_leb_u32_field wrote_lift[OF reject_reserved_ok] wrote_ret_eq
          wrote_nil[OF reads_lift] | simp add: read_shape_element_def dense_data_type_from_tag_def)+)
qed

lemma wrote_shape:
  assumes "dense_data_type_tag (bd_element b) = Inr tag" "dense_ok (bd_element b)"
  shows "wrote (\<lambda>out. put_shape out b) (read_shape tag) (bd_count b, bd_element b)"
  unfolding put_shape_def read_shape_def
  by (rule wrote_leb_u32_field, rule wrote_last[OF wrote_shape_element[OF assms] reads_ret])

text \<open>The shape payload never exceeds the 64 bytes the decoder allows.\<close>

lemma length_put_leb_u64: "length (put_leb_u64 out v) \<le> length out + 10"
  by (simp add: put_leb_u64_eq length_leb_bytes leb_u64_len_le_10)

lemma length_put_leb_u64_twice: "length (put_leb_u64 (put_leb_u64 out v) w) \<le> length out + 20"
  using length_put_leb_u64[of out v] length_put_leb_u64[of "put_leb_u64 out v" w] by simp

lemma length_put_scale:
  "put_dense_quantization_scale out q = Inr out' \<Longrightarrow> length out' \<le> length out + 20"
  by (cases q) (auto simp: length_put_leb_u64_twice split: if_splits)

lemma length_put_zero_point:
  "put_dense_quantization_zero_point out q = Inr out' \<Longrightarrow> length out' \<le> length out + 20"
  by (cases q) (auto simp: length_put_leb_u64_twice split: if_splits)

lemma length_put_shape:
  assumes "put_shape [] b = Inr shape"
  shows "length shape \<le> 64"
proof (cases "\<exists>s a z. bd_element b = DT_Quantized s a z")
  case True
  with assms obtain tag mid a z where
    "put_dense_quantization_scale (put_leb_u64 (put_leb_u64 [] (ucast (bd_count b))) (ucast (tag :: u8))) a
      = Inr mid" "put_dense_quantization_zero_point mid z = Inr shape"
    by (auto simp: put_shape_def result_simps split: if_splits)
  with length_put_scale[OF this(1)] length_put_zero_point[OF this(2)]
    length_put_leb_u64_twice[of "[]" "ucast (bd_count b)" "ucast tag"]
  show ?thesis by simp
next
  case False
  with assms have "shape = put_leb_u64 [] (ucast (bd_count b)) \<or>
      (\<exists>v. shape = put_leb_u64 (put_leb_u64 [] (ucast (bd_count b))) v)"
    unfolding put_shape_def by (cases "bd_element b") auto
  then have "length shape \<le> 20"
    using length_put_leb_u64[of "[]" "ucast (bd_count b)"]
      length_put_leb_u64_twice[of "[]" "ucast (bd_count b)"] by auto
  then show ?thesis by simp
qed

lemma length_put_hints: "length (put_hints_payload [] h) \<le> 64"
  by (simp add: put_hints_payload_def put_u8_def put_u32_def Let_def split: option.splits)

lemma reads_hints: "reads read_hints (put_hints_payload [] h) h"
proof -
  have "wrote (\<lambda>out. Inr (put_hints_payload out h)) (rd_bind read_hints rd_ret) h"
    by (rule wrote_hints) (rule wrote_ret)
  moreover have "rd_bind read_hints rd_ret = read_hints"
    by (auto simp: fun_eq_iff rd_bind_def rd_ret_def split: sum.splits)
  ultimately have "wrote (\<lambda>out. Inr (put_hints_payload out h)) read_hints h" by simp
  from wroteD[OF this, of "[]"] show ?thesis by auto
qed

subsection \<open>The region table\<close>

definition with_region :: "decoded_buffer \<Rightarrow> buffer_decl \<Rightarrow> decoded_buffer" where
  "with_region d b = d\<lparr>db_kind := bd_kind b, db_access := bd_access b, db_element := bd_element b,
     db_count := bd_count b, db_hints := bd_hints b\<rparr>"

definition region_ok :: "decoded_buffer \<Rightarrow> buffer_decl \<Rightarrow> bool" where
  "region_ok d b = (dense_ok (bd_element b)
     \<and> validate_region d (bd_access b) (bd_element b) (bd_count b) = Inr ())"

lemma wrote_memory_region:
  assumes "region_ok d b"
  shows "wrote (\<lambda>out. put_memory_region out index b) (read_memory_region index d) (with_region d b)"
proof (cases "dense_data_type_tag (bd_element b)"; cases "put_shape [] b")
  fix tag shape assume tag: "dense_data_type_tag (bd_element b) = Inr tag"
    and shape: "put_shape [] b = Inr shape"
  from assms have ok: "dense_ok (bd_element b)"
    and valid: "validate_region d (bd_access b) (bd_element b) (bd_count b) = Inr ()"
    by (auto simp: region_ok_def)
  have sh: "reads (read_shape tag) shape (bd_count b, bd_element b)"
    using wroteD[OF wrote_shape[OF tag ok] shape] by simp
  note pay = wrote_payload[OF sh length_put_shape[OF shape]]
    wrote_payload_last[OF reads_hints length_put_hints]
  show ?thesis
    unfolding put_memory_region_def read_memory_region_def
    by (rule wrote_guard)
       (simp add: tag shape Let_def,
        (rule wrote_leb_u32 wrote_u8 wrote_lift pay reads_ret
         | simp add: unat_of_nat_u32 valid)+,
        simp add: with_region_def valid rd_bind_def rd_lift_def reads_def rd_ret_def)
qed (simp_all add: put_memory_region_def wrote_def Let_def)

lemma wrote_memory_region_list:
  "list_all2 region_ok ds bs \<Longrightarrow>
   wrote (\<lambda>out. put_memory_region_list out index bs) (read_memory_region_list index ds)
     (map2 with_region ds bs)"
proof (induction ds bs arbitrary: index rule: list_all2_induct)
  case (Cons d ds b bs)
  then show ?case
    by simp (rule wrote_bind[OF wrote_memory_region], simp_all add: wrote_last[OF _ reads_ret])
qed (simp add: wrote_ret)

lemma wrote_memory_regions:
  assumes "list_all2 region_ok ds bs" "length bs \<le> MAX_BUFFERS"
  shows "wrote (\<lambda>out. put_memory_regions out bs) (read_memory_regions ds) (map2 with_region ds bs)"
  unfolding put_memory_regions_def read_memory_regions_def
  by (rule wrote_leb_len)
     (use assms wrote_memory_region_list[OF assms(1), of 0] in
       \<open>simp_all add: list_all2_lengthD[OF assms(1)]\<close>)

subsection \<open>What the region decoder guarantees\<close>

text \<open>The invariants of a decoded buffer that hold whatever the bytes.\<close>

definition range_fits :: "decoded_buffer \<Rightarrow> bool" where
  "range_fits b = (case db_output_byte_range b of
       None \<Rightarrow> True
     | Some (_, range_end) \<Rightarrow> \<exists>n. size_bytes (db_element b) = Some n
         \<and> unat range_end \<le> unat (db_count b) * unat n)"

definition counts_positive :: "decoded_buffer \<Rightarrow> bool" where
  "counts_positive b = (db_count b = 0 \<longrightarrow>
     db_access b \<noteq> BA_Workgroup \<and> \<not> db_is_output b \<and> \<not> db_pipeline_live_out b)"

fun decoded_element_ok :: "data_type \<Rightarrow> bool" where
  "decoded_element_ok (DT_Quantized s q z) =
     (is_quantized_storage s \<and> q \<noteq> QS_PerGroup 0 \<and> z \<noteq> QZ_PerGroup 0)"
| "decoded_element_ok t = (dense_ok t \<and> is_ok (dense_data_type_tag t))"

definition region_checked :: "decoded_buffer \<Rightarrow> decoded_buffer \<Rightarrow> bool" where
  "region_checked d b = (range_fits b \<and> counts_positive b \<and> decoded_element_ok (db_element b)
     \<and> db_name b = db_name d \<and> db_binding b = db_binding d \<and> db_count b = db_count d
     \<and> db_is_output b = db_is_output d \<and> db_pipeline_live_out b = db_pipeline_live_out d
     \<and> db_output_byte_range b = db_output_byte_range d
     \<and> db_bytes_extraction b = db_bytes_extraction d)"

lemma validate_region_ok:
  assumes "validate_region d access element count = Inr ()" "decoded_element_ok element"
  shows "region_checked d (d\<lparr>db_kind := kind, db_access := access, db_element := element,
      db_count := count, db_hints := hints\<rparr>)"
  using assms
  by (auto simp: validate_region_def validate_output_range_fits_def region_checked_def range_fits_def
      counts_positive_def result_simps usize_checked_mul_Some word_le_nat_alt
      split: option.splits)

lemma yields_within: "yields m P \<Longrightarrow> yields (rd_within e m p) P"
  by (auto simp: yields_def rd_within_def split: sum.splits if_splits)

lemma yields_shape_element: "yields (read_shape_element tag) decoded_element_ok"
proof -
  have from_tag: "decoded_element_ok t" if "dense_data_type_from_tag tag = Inr t" for t
    using that by (auto simp: dense_data_type_from_tag_def split: if_splits)
  show ?thesis
    unfolding read_shape_element_def read_quantized_element_def read_dense_quantization_scale_def
      read_dense_quantization_zero_point_def rd_bind_steps
    by (rule yields_if yields_bind_lift yields_fail | rule yields_bind_any
        | rule yields_ret yields_lift | auto intro: from_tag dest: reject_reserved_Inr)+
qed

lemma yields_shape: "yields (read_shape tag) (\<lambda>(count, t). decoded_element_ok t)"
  unfolding read_shape_def
  by (rule yields_bind_any, rule yields_bind[OF yields_shape_element]) (simp add: yields_ret)

lemma yields_memory_region: "yields (read_memory_region index d) (region_checked d)"
  unfolding read_memory_region_def
  by (rule yields_if yields_bind_lift yields_fail
      | rule yields_bind[OF yields_within[OF yields_shape]] | rule yields_bind_any
      | rule yields_ret | auto intro: validate_region_ok)+

lemma yields_memory_region_list:
  "yields (read_memory_region_list index ds) (list_all2 region_checked ds)"
proof (induction ds arbitrary: index)
  case (Cons d ds)
  show ?case
    by simp (rule yields_bind[OF yields_memory_region], rule yields_bind[OF Cons.IH], simp add: yields_ret)
qed (simp add: yields_ret)

lemma yields_memory_regions:
  "yields (read_memory_regions ds) (\<lambda>bs. length ds \<le> MAX_BUFFERS \<and> list_all2 region_checked ds bs)"
  unfolding read_memory_regions_def leb_len_def
  by (rule yields_bind[where Q = "\<lambda>n. n \<le> MAX_BUFFERS"])
     (use yields_memory_region_list[of 0 ds] in
       \<open>auto simp: yields_def rd_Inr split: if_splits\<close>)

lemma safe_within [safe_intros]: "safe_parser (rd_within e m p)"
  by (auto simp: safe_parser_def rd_within_def split: sum.splits if_splits)

lemma safe_memory_region [safe_intros]: "safe_parser (read_memory_region index d)"
  unfolding read_memory_region_def by (intro safe_intros)

lemma safe_memory_regions [safe_intros]: "safe_parser (read_memory_regions ds)"
proof -
  have "safe_parser (read_memory_region_list index ds)" for index
    by (induction ds arbitrary: index) (auto intro!: safe_intros)
  then show ?thesis unfolding read_memory_regions_def by (intro safe_intros)
qed

end
