(* ===== verification/Output_Set.thy ===== *)
theory Output_Set
  imports Wire_Region
begin

text \<open>
  The set of writable buffers that ends a program blob (\<open>serial/output_set.rs\<close>): built from
  the declarations on the encoder side, read back and checked against the decoded buffer
  table on the decoder side.  Proved: the decoder accepts exactly the canonical list.
\<close>

subsection \<open>Encoding\<close>

type_synonym output_set = "u32 list"

text \<open>An index that does not fit \<open>u32\<close> ends the scan.\<close>

fun output_set_scan :: "nat \<Rightarrow> buffer_decl list \<Rightarrow> output_set" where
  "output_set_scan index [] = []"
| "output_set_scan index (b # bs) =
     (if is_output_access (bd_access b)
      then if index < 2 ^ 32 then of_nat index # output_set_scan (Suc index) bs else []
      else output_set_scan (Suc index) bs)"

definition os_from_buffers :: "buffer_decl list \<Rightarrow> output_set" where
  "os_from_buffers buffers = output_set_scan 0 buffers"

definition os_encode_into :: "bytes \<Rightarrow> output_set \<Rightarrow> encode_error + bytes" where
  "os_encode_into dst indices =
     rbind (u64_of_len (length indices)) (\<lambda>count.
       put_all (\<lambda>dst index. Inr (put_leb_u32 dst index)) (put_leb_u64 dst count) indices)"

fun put_output_indices :: "bytes \<Rightarrow> nat \<Rightarrow> buffer_decl list \<Rightarrow> encode_error + bytes" where
  "put_output_indices dst index [] = Inr dst"
| "put_output_indices dst index (b # bs) =
     (if \<not> is_output_access (bd_access b) then put_output_indices dst (Suc index) bs
      else if index < 2 ^ 32
      then put_output_indices (put_leb_u32 dst (of_nat index)) (Suc index) bs
      else Inl (EE_OutputIndex index))"

definition encode_from_buffers_into :: "bytes \<Rightarrow> buffer_decl list \<Rightarrow> encode_error + bytes" where
  "encode_from_buffers_into dst buffers =
     (let count = length (filter (\<lambda>b. is_output_access (bd_access b)) buffers) in
      rbind (u64_of_len count) (\<lambda>count. put_output_indices (put_leb_u64 dst count) 0 buffers))"

subsection \<open>Decoding\<close>

text \<open>One iteration of the loop, with the indices read so far.\<close>

definition decode_output_index :: "decoded_buffer list \<Rightarrow> u32 list \<Rightarrow> u32 \<Rightarrow> decode_error + u32 list" where
  "decode_output_index buffers indices index =
     (if unat index \<ge> length buffers
      then Inl (DE_Region (RG_OutputBound index (length buffers)))
      else if \<not> is_output_access (db_access (buffers ! unat index))
      then Inl (DE_Region (RG_OutputAccess index))
      else if indices \<noteq> [] \<and> last indices \<ge> index
      then Inl (DE_Region (RG_OutputOrder index))
      else Inr (indices @ [index]))"

fun decode_output_loop :: "nat \<Rightarrow> decoded_buffer list \<Rightarrow> u32 list \<Rightarrow> u32 list parser" where
  "decode_output_loop 0 buffers indices = rd_ret indices"
| "decode_output_loop (Suc n) buffers indices = rd_bind leb_u32 (\<lambda>index.
     rd_bind (rd_lift (decode_output_index buffers indices index)) (\<lambda>indices.
       decode_output_loop n buffers indices))"

fun matches_canonical_from :: "nat \<Rightarrow> decoded_buffer list \<Rightarrow> u32 list \<Rightarrow> decode_error + bool" where
  "matches_canonical_from index [] actual = Inr (actual = [])"
| "matches_canonical_from index (b # bs) actual =
     (if \<not> is_output_access (db_access b) then matches_canonical_from (Suc index) bs actual
      else if index \<ge> 2 ^ 32 then Inl (DE_Region (RG_OutputIndexU32 index))
      else case actual of
        [] \<Rightarrow> Inr False
      | a # actual \<Rightarrow>
          if a \<noteq> of_nat index then Inr False else matches_canonical_from (Suc index) bs actual)"

definition matches_canonical_output_indices :: "decoded_buffer list \<Rightarrow> u32 list \<Rightarrow> decode_error + bool" where
  "matches_canonical_output_indices buffers indices = matches_canonical_from 0 buffers indices"

fun canonical_from :: "nat \<Rightarrow> decoded_buffer list \<Rightarrow> decode_error + u32 list" where
  "canonical_from index [] = Inr []"
| "canonical_from index (b # bs) =
     (if \<not> is_output_access (db_access b) then canonical_from (Suc index) bs
      else if index \<ge> 2 ^ 32 then Inl (DE_Region (RG_OutputIndexU32 index))
      else rbind (canonical_from (Suc index) bs) (\<lambda>rest. Inr (of_nat index # rest)))"

definition canonical_output_indices :: "decoded_buffer list \<Rightarrow> decode_error + u32 list" where
  "canonical_output_indices buffers = canonical_from 0 buffers"

definition os_decode_from :: "decoded_buffer list \<Rightarrow> output_set parser" where
  "os_decode_from buffers = rd_bind (leb_len MAX_BUFFERS ''output set count'') (\<lambda>count.
     rd_bind (decode_output_loop count buffers []) (\<lambda>indices.
       rd_bind (rd_lift (matches_canonical_output_indices buffers indices)) (\<lambda>matches.
         if matches then rd_ret indices
         else rd_bind (rd_lift (canonical_output_indices buffers)) (\<lambda>_.
           rd_fail (DE_Region RG_OutputCanonical)))))"

subsection \<open>The canonical list\<close>

fun writable_from :: "nat \<Rightarrow> buffer_access list \<Rightarrow> nat list" where
  "writable_from i [] = []"
| "writable_from i (a # as) =
     (if is_output_access a then i # writable_from (Suc i) as else writable_from (Suc i) as)"

abbreviation writable :: "buffer_access list \<Rightarrow> u32 list" where
  "writable as \<equiv> map of_nat (writable_from 0 as)"

lemma writable_from_ge: "i \<in> set (writable_from j as) \<Longrightarrow> j \<le> i \<and> i < j + length as"
  by (induction as arbitrary: j) (fastforce split: if_splits)+

lemma writable_from_sorted: "sorted_wrt (<) (writable_from j as)"
  by (induction as arbitrary: j) (auto dest: writable_from_ge)

lemma writable_from_nth:
  "i \<in> set (writable_from j as) \<longleftrightarrow> j \<le> i \<and> i < j + length as \<and> is_output_access (as ! (i - j))"
proof (induction as arbitrary: j)
  case (Cons a as)
  then show ?case by (cases "i = j") (auto simp: Cons nth_Cons' le_Suc_eq)
qed simp

lemma writable_positions:
  assumes "length bs \<le> 2 ^ 32"
  shows "map unat (writable (map f bs)) = filter (\<lambda>i. is_output_access (f (bs ! i))) [0..<length bs]"
proof -
  let ?w = "writable_from 0 (map f bs)"
  have "unat (of_nat i :: u32) = i" if "i \<in> set ?w" for i
    using writable_from_ge[OF that] assms by (intro unat_of_nat_u32) simp
  then have "map unat (writable (map f bs)) = ?w" by (simp add: map_idI)
  also have "?w = filter (\<lambda>i. is_output_access (f (bs ! i))) [0..<length bs]"
    using writable_from_sorted[of 0 "map f bs"]
    by (intro sorted_distinct_set_unique)
       (auto simp: writable_from_nth strict_sorted_iff sorted_wrt_filter)
  finally show ?thesis .
qed

lemma length_writable_from:
  "length (writable_from i (map f bs)) = length (filter (\<lambda>b. is_output_access (f b)) bs)"
  by (induction bs arbitrary: i) auto

lemma put_output_indices_eq:
  "index + length bs \<le> 2 ^ 32 \<Longrightarrow>
   put_output_indices dst index bs =
   put_all (\<lambda>dst i. Inr (put_leb_u32 dst i)) dst (map of_nat (writable_from index (map bd_access bs)))"
  by (induction bs arbitrary: dst index) auto

lemma matches_canonical_from_iff:
  "i + length bs \<le> 2 ^ 32 \<Longrightarrow>
   matches_canonical_from i bs xs = Inr (xs = map of_nat (writable_from i (map db_access bs)))"
  by (induction bs arbitrary: i xs) (auto split: list.splits)

lemma canonical_from_eq:
  "i + length bs \<le> 2 ^ 32 \<Longrightarrow>
   canonical_from i bs = Inr (map of_nat (writable_from i (map db_access bs)))"
  by (induction bs arbitrary: i) auto

lemma output_set_scan_eq:
  "i + length bs \<le> 2 ^ 32 \<Longrightarrow>
   output_set_scan i bs = map of_nat (writable_from i (map bd_access bs))"
  by (induction bs arbitrary: i) auto

lemma output_indices_from_eq:
  "i + length bs \<le> 2 ^ 32 \<Longrightarrow>
   output_indices_from i bs = map of_nat (writable_from i (map bd_access bs))"
  by (induction bs arbitrary: i) auto

subsection \<open>Reading back\<close>

lemma decode_output_index_ok:
  assumes all: "acc @ x # ys = writable (map db_access ds)" and len: "length ds \<le> 2 ^ 32"
  shows "decode_output_index ds acc x = Inr (acc @ [x])"
proof -
  let ?w = "writable_from 0 (map db_access ds)"
  from all obtain as n ns where w: "?w = as @ n # ns" and acc: "acc = map of_nat as" and x: "x = of_nat n"
    by (auto simp: append_eq_map_conv Cons_eq_map_conv)
  then have "n \<in> set ?w" by simp
  then have n: "n < length ds" "is_output_access (db_access (ds ! n))"
    by (auto simp: writable_from_nth)
  with len have un: "unat x = n" by (simp add: x unat_of_nat_u32)
  have "last acc < x" if "acc \<noteq> []"
  proof -
    from that acc have as: "as \<noteq> []" "last acc = of_nat (last as)" by (auto simp: last_map)
    have "last as < n"
      using writable_from_sorted[of 0 "map db_access ds"] w as(1)
      by (metis append_butlast_last_id sorted_wrt_append last_in_set list.set_intros(1))
    moreover from this n len have "unat (of_nat (last as) :: u32) = last as"
      by (simp add: unat_of_nat_u32)
    ultimately show ?thesis by (simp add: as(2) word_less_nat_alt un)
  qed
  with n un show ?thesis by (auto simp: decode_output_index_def)
qed

lemma wrote_output_loop:
  assumes "acc @ ys = writable (map db_access ds)" "length ds \<le> 2 ^ 32"
  shows "wrote (\<lambda>out. put_all (\<lambda>dst i. Inr (put_leb_u32 dst i)) out ys)
      (decode_output_loop (length ys) ds acc) (acc @ ys)"
  using assms(1)
proof (induction ys arbitrary: acc)
  case (Cons y ys)
  have "wrote (\<lambda>out. put_all (\<lambda>dst i. Inr (put_leb_u32 dst i)) out ys)
      (decode_output_loop (length ys) ds (acc @ [y])) (acc @ y # ys)"
    using Cons.IH[of "acc @ [y]"] Cons.prems by simp
  then show ?case
    by (simp, intro wrote_leb_u32 wrote_lift[OF decode_output_index_ok[OF Cons.prems assms(2)]])
qed (simp add: wrote_ret)

lemma wrote_output_set:
  assumes "map bd_access bs = map db_access ds" "length bs \<le> MAX_BUFFERS"
  shows "wrote (\<lambda>out. encode_from_buffers_into out bs) (os_decode_from ds) (writable (map db_access ds))"
proof -
  have len: "length bs = length ds" using assms(1) map_eq_imp_length_eq by blast
  with assms(2) have small: "length ds \<le> 2 ^ 32" "length bs \<le> 2 ^ 32" by (simp_all add: MAX_BUFFERS_def)
  let ?w = "writable (map db_access ds)"
  have count: "length (filter (\<lambda>b. is_output_access (bd_access b)) bs) = length ?w"
    using length_writable_from[of 0 bd_access bs] assms(1) by simp
  moreover have "length ?w \<le> MAX_BUFFERS"
    using count length_filter_le[of _ bs] assms(2) by (metis order_trans)
  moreover have "matches_canonical_output_indices ds ?w = Inr True"
    using small by (simp add: matches_canonical_output_indices_def matches_canonical_from_iff)
  then have "reads (rd_bind (rd_lift (matches_canonical_output_indices ds ?w)) (\<lambda>matches.
      if matches then rd_ret ?w else rd_bind (rd_lift (canonical_output_indices ds))
        (\<lambda>_. rd_fail (DE_Region RG_OutputCanonical)))) [] ?w"
    using reads_bind_nil[OF reads_lift, of _ True _ ?w] by (simp add: reads_ret)
  ultimately show ?thesis
    unfolding encode_from_buffers_into_def os_decode_from_def Let_def
    using wrote_output_loop[of "[]" ?w ds] small assms(1)
    by (intro wrote_leb_len) (auto simp: put_output_indices_eq intro!: wrote_last)
qed

lemma yields_output_set:
  "length ds \<le> 2 ^ 32 \<Longrightarrow> yields (os_decode_from ds) (\<lambda>xs. xs = writable (map db_access ds))"
  unfolding os_decode_from_def
  by (rule yields_bind_any yields_bind_lift yields_if yields_ret yields_fail
      | simp add: matches_canonical_output_indices_def matches_canonical_from_iff)+

lemma safe_output_set [safe_intros]: "safe_parser (os_decode_from ds)"
proof -
  have "safe_parser (decode_output_loop n ds acc)" for n acc
    by (induction n arbitrary: acc) (auto intro!: safe_intros)
  then show ?thesis unfolding os_decode_from_def by (intro safe_intros)
qed

subsection \<open>Properties\<close>

text \<open>
  C30. The output set is one and the same list everywhere.  For a table within the buffer
  limit, encoding straight from the declarations equals encoding the scanned set, the scan
  equals the index list a program caches, and it is the strictly increasing list of exactly
  the writable positions.
\<close>

theorem output_set_agrees:
  assumes "length bs \<le> MAX_BUFFERS"
  shows "encode_from_buffers_into dst bs = os_encode_into dst (os_from_buffers bs)
    \<and> output_indices_from 0 bs = os_from_buffers bs
    \<and> map unat (os_from_buffers bs) = filter (\<lambda>i. is_output_access (bd_access (bs ! i))) [0..<length bs]"
proof (intro conjI)
  have small: "length bs \<le> 2 ^ 32" using assms by (simp add: MAX_BUFFERS_def)
  then have scan: "os_from_buffers bs = writable (map bd_access bs)"
    by (simp add: os_from_buffers_def output_set_scan_eq)
  show "encode_from_buffers_into dst bs = os_encode_into dst (os_from_buffers bs)"
    using small by (simp add: encode_from_buffers_into_def os_encode_into_def scan
        put_output_indices_eq length_writable_from)
  show "output_indices_from 0 bs = os_from_buffers bs"
    using small by (simp add: scan output_indices_from_eq)
  show "map unat (os_from_buffers bs)
      = filter (\<lambda>i. is_output_access (bd_access (bs ! i))) [0..<length bs]"
    unfolding scan by (rule writable_positions[OF small])
qed

theorem output_set_agrees_witness:
  "let bs = [bd_read ''a'' 0 DT_U32, bd_read_write ''b'' 1 DT_U32] in
   encode_from_buffers_into [] bs = os_encode_into [] [1] \<and> output_indices_from 0 bs = [1]"
  using output_set_agrees[of "[bd_read ''a'' 0 DT_U32, bd_read_write ''b'' 1 DT_U32]" "[]"]
  by (simp add: MAX_BUFFERS_def os_from_buffers_def bd_read_def bd_read_write_def bd_storage_def
      is_output_access_def)

text \<open>
  C31. A decoded output set is trustworthy.  Whatever bytes are read, an accepted output set
  is the list of all writable buffers of the decoded table, in declaration order.
\<close>

theorem decoded_output_set_canonical:
  assumes "os_decode_from ds r = Inr (xs, r')" and "length ds \<le> MAX_BUFFERS"
  shows "map unat xs = filter (\<lambda>i. is_output_access (db_access (ds ! i))) [0..<length ds]
    \<and> canonical_output_indices ds = Inr xs \<and> advanced r r'"
proof (intro conjI)
  have small: "length ds \<le> 2 ^ 32" using assms(2) by (simp add: MAX_BUFFERS_def)
  have xs: "xs = writable (map db_access ds)"
    using yieldsD[OF yields_output_set[OF small] assms(1)] .
  show "map unat xs = filter (\<lambda>i. is_output_access (db_access (ds ! i))) [0..<length ds]"
    unfolding xs by (rule writable_positions[OF small])
  show "canonical_output_indices ds = Inr xs"
    using small by (simp add: canonical_output_indices_def canonical_from_eq xs)
  show "advanced r r'" by (rule safe_advanced[OF safe_output_set assms(1)])
qed

theorem decoded_output_set_canonical_witness:
  "let ds = [\<lparr>db_name = ''a'', db_binding = 0, db_access = BA_ReadWrite, db_kind = MK_Global,
      db_element = DT_U32, db_count = 1, db_is_output = False, db_pipeline_live_out = False,
      db_output_byte_range = None, db_hints = default_hints, db_bytes_extraction = False\<rparr>] in
   canonical_output_indices ds = Inr [0]
   \<and> advanced \<lparr>rd_bytes = [1, 0], rd_pos = 0\<rparr> \<lparr>rd_bytes = [1, 0], rd_pos = 2\<rparr>"
proof -
  let ?ds = "[\<lparr>db_name = ''a'', db_binding = 0, db_access = BA_ReadWrite, db_kind = MK_Global,
      db_element = DT_U32, db_count = 1, db_is_output = False, db_pipeline_live_out = False,
      db_output_byte_range = None, db_hints = default_hints, db_bytes_extraction = False\<rparr>]"
  have "os_decode_from ?ds \<lparr>rd_bytes = [1, 0], rd_pos = 0\<rparr> = Inr ([0], \<lparr>rd_bytes = [1, 0], rd_pos = 2\<rparr>)"
    by (simp add: os_decode_from_def leb_len_def leb_u64_def leb_shifts_def rd_bind_def rd_u8_def
        rd_take_def rd_ret_def rd_lift_def Let_def leb_u32_def decode_output_index_def
        is_output_access_def MAX_BUFFERS_def matches_canonical_output_indices_def)
  from decoded_output_set_canonical[OF this] show ?thesis by (simp add: MAX_BUFFERS_def)
qed

end
