(* ===== verification/Wire_Expr.thy ===== *)
theory Wire_Expr
  imports Wire_DataType Ir_Model
begin

text \<open>
  The expression codec: the explicit-stack encoder of \<open>serial/wire/encode/put_expr.rs\<close> and
  \<open>Reader::expr\<close> with \<open>expr_inner\<close> of \<open>decode/impl_reader.rs\<close>.  The reader's depth counter
  appears as the number of levels that are still allowed (\<open>MAX_DECODE_DEPTH\<close> minus the
  counter).  The registry of extension decoders, filled at link time, is the
  argument \<open>reg\<close>.  Proved: the stack machine computes the recursive encoding, and decoding
  gives back the expression with its floating-point literals made canonical.
\<close>

subsection \<open>The extension registry\<close>

type_synonym resolver = "string \<times> (bytes \<Rightarrow> string + extension)"

fun collect_unique_from ::
    "(string \<rightharpoonup> (bytes \<Rightarrow> string + extension)) \<Rightarrow> resolver list
      \<Rightarrow> decode_error + (string \<rightharpoonup> (bytes \<Rightarrow> string + extension))" where
  "collect_unique_from m [] = Inr m"
| "collect_unique_from m ((kind, deserialize) # regs) =
     (case m kind of
        Some _ \<Rightarrow> Inl (DE_DuplicateResolver kind)
      | None \<Rightarrow> collect_unique_from (m(kind \<mapsto> deserialize)) regs)"

definition collect_unique_by ::
    "resolver list \<Rightarrow> decode_error + (string \<rightharpoonup> (bytes \<Rightarrow> string + extension))" where
  "collect_unique_by regs = collect_unique_from Map.empty regs"

definition decode_opaque :: "resolver list \<Rightarrow> string \<Rightarrow> bytes \<Rightarrow> decode_error + extension" where
  "decode_opaque regs kind payload =
     rbind (collect_unique_by regs) (\<lambda>registry.
       case registry kind of
         Some deserialize \<Rightarrow> map_err DE_Extension (deserialize payload)
       | None \<Rightarrow> Inl (DE_NoResolver kind))"

definition decode_opaque_expr :: "resolver list \<Rightarrow> string \<Rightarrow> bytes \<Rightarrow> decode_error + expr" where
  "decode_opaque_expr regs kind payload =
     rbind (decode_opaque regs kind payload) (\<lambda>ext. Inr (E_Opaque ext))"

subsection \<open>Encoding\<close>

definition f32_is_nan :: "u32 \<Rightarrow> bool" where
  "f32_is_nan b = (b AND 0x7F800000 = 0x7F800000 \<and> b AND 0x007FFFFF \<noteq> 0)"

definition f32_is_subnormal :: "u32 \<Rightarrow> bool" where
  "f32_is_subnormal b = (b AND 0x7F800000 = 0 \<and> b AND 0x007FFFFF \<noteq> 0)"

definition canonical_f32_bits :: "u32 \<Rightarrow> u32" where
  "canonical_f32_bits b =
     (if f32_is_nan b then 0x7FC00000
      else if f32_is_subnormal b then 0
      else if b = 0x80000000 then 0
      else b)"

datatype step = Encode expr | WriteByte u8

definition put_bin_op :: "bytes \<Rightarrow> bin_op \<Rightarrow> encode_error + bytes" where
  "put_bin_op out op =
     (case op of
        BO_Opaque i \<Rightarrow> Inr (put_u32 (put_u8 out 0x80) i)
      | _ \<Rightarrow> rbind (map_err EE_UnknownVariant (bin_op_tag op)) (\<lambda>tag. Inr (put_u8 out tag)))"

definition put_un_op :: "bytes \<Rightarrow> un_op \<Rightarrow> encode_error + bytes" where
  "put_un_op out op =
     (case op of
        UO_Opaque i \<Rightarrow> Inr (put_u32 (put_u8 out 0x80) i)
      | _ \<Rightarrow> rbind (map_err EE_UnknownVariant (un_op_tag op)) (\<lambda>tag. Inr (put_u8 out tag)))"

definition put_atomic_op :: "bytes \<Rightarrow> atomic_op \<Rightarrow> encode_error + bytes" where
  "put_atomic_op out op =
     (case op of
        AO_Opaque i \<Rightarrow> Inr (put_u32 (put_u8 out 0x80) i)
      | _ \<Rightarrow> rbind (map_err EE_UnknownVariant (atomic_op_tag op)) (\<lambda>tag. Inr (put_u8 out tag)))"

text \<open>What an iteration writes for an expression before it looks at the children.\<close>

fun put_expr_head :: "bytes \<Rightarrow> expr \<Rightarrow> encode_error + bytes" where
  "put_expr_head out (E_LitU32 v) = Inr (put_u32 (put_u8 out 0) v)"
| "put_expr_head out (E_LitI32 v) = Inr (put_u32 (put_u8 out 1) v)"
| "put_expr_head out (E_LitBool v) = Inr (put_u8 (put_u8 out 2) (if v then 1 else 0))"
| "put_expr_head out (E_LitF32 v) = Inr (put_u32 (put_u8 out 15) (canonical_f32_bits v))"
| "put_expr_head out (E_Var name) = put_string (put_u8 out 3) name"
| "put_expr_head out (E_Load buffer _) = put_string (put_u8 out 4) buffer"
| "put_expr_head out (E_BufLen buffer) = put_string (put_u8 out 5) buffer"
| "put_expr_head out (E_InvocationId axis) = Inr (put_u8 (put_u8 out 6) axis)"
| "put_expr_head out (E_WorkgroupId axis) = Inr (put_u8 (put_u8 out 7) axis)"
| "put_expr_head out (E_LocalId axis) = Inr (put_u8 (put_u8 out 8) axis)"
| "put_expr_head out (E_BinOp op _ _) = put_bin_op (put_u8 out 9) op"
| "put_expr_head out (E_UnOp op _) = put_un_op (put_u8 out 10) op"
| "put_expr_head out (E_Call op_id args) =
     rbind (put_string (put_u8 out 11) op_id) (\<lambda>out.
       put_len_u32 out (length args) ''call argument count'')"
| "put_expr_head out (E_Select _ _ _) = Inr (put_u8 out 12)"
| "put_expr_head out (E_Cast target _) = put_data_type (put_u8 out 13) target"
| "put_expr_head out (E_Fma _ _ _) = Inr (put_u8 out 16)"
| "put_expr_head out (E_Atomic op buffer _ _ _ ord) =
     rbind (put_atomic_op (put_u8 out 14) op) (\<lambda>out.
       put_string (put_u8 out (wire_tag ord)) buffer)"
| "put_expr_head out (E_SubgroupAdd _) = Inr (put_u8 out 17)"
| "put_expr_head out (E_SubgroupShuffle _ _) = Inr (put_u8 out 18)"
| "put_expr_head out (E_SubgroupBallot _) = Inr (put_u8 out 19)"
| "put_expr_head out E_SubgroupLocalId = Inr (put_u8 out 20)"
| "put_expr_head out E_SubgroupSize = Inr (put_u8 out 21)"
| "put_expr_head out (E_Opaque ext) =
     rbind (put_string (put_u8 out 0x80) (ext_kind ext)) (\<lambda>out.
       if length (ext_payload ext) > MAX_OPAQUE_PAYLOAD_LEN
       then Inl (EE_OpaqueExprPayload (length (ext_payload ext)))
       else rbind (put_len_u32 out (length (ext_payload ext)) ''opaque expression payload length'')
              (\<lambda>out. Inr (out @ ext_payload ext)))"

text \<open>What it pushes, top of the stack first.\<close>

fun expr_pushes :: "expr \<Rightarrow> step list" where
  "expr_pushes (E_Load _ i) = [Encode i]"
| "expr_pushes (E_BinOp _ l r) = [Encode l, Encode r]"
| "expr_pushes (E_UnOp _ e) = [Encode e]"
| "expr_pushes (E_Call _ args) = map Encode args"
| "expr_pushes (E_Select c t f) = [Encode c, Encode t, Encode f]"
| "expr_pushes (E_Cast _ e) = [Encode e]"
| "expr_pushes (E_Fma a b c) = [Encode a, Encode b, Encode c]"
| "expr_pushes (E_Atomic _ _ i None v _) = [Encode i, WriteByte 0, Encode v]"
| "expr_pushes (E_Atomic _ _ i (Some x) v _) = [Encode i, WriteByte 1, Encode x, Encode v]"
| "expr_pushes (E_SubgroupAdd e) = [Encode e]"
| "expr_pushes (E_SubgroupShuffle v l) = [Encode v, Encode l]"
| "expr_pushes (E_SubgroupBallot c) = [Encode c]"
| "expr_pushes _ = []"

text \<open>Size of an expression, and the work a stack still holds.\<close>

fun expr_weight :: "expr \<Rightarrow> nat" where
  "expr_weight (E_Load _ i) = Suc (expr_weight i)"
| "expr_weight (E_BinOp _ l r) = Suc (expr_weight l + expr_weight r)"
| "expr_weight (E_UnOp _ e) = Suc (expr_weight e)"
| "expr_weight (E_Call _ args) = Suc (sum_list (map expr_weight args))"
| "expr_weight (E_Select c t f) = Suc (expr_weight c + expr_weight t + expr_weight f)"
| "expr_weight (E_Cast _ e) = Suc (expr_weight e)"
| "expr_weight (E_Fma a b c) = Suc (expr_weight a + expr_weight b + expr_weight c)"
| "expr_weight (E_Atomic _ _ i None v _) = Suc (Suc (expr_weight i + expr_weight v))"
| "expr_weight (E_Atomic _ _ i (Some x) v _) =
     Suc (Suc (expr_weight i + expr_weight x + expr_weight v))"
| "expr_weight (E_SubgroupAdd e) = Suc (expr_weight e)"
| "expr_weight (E_SubgroupShuffle v l) = Suc (expr_weight v + expr_weight l)"
| "expr_weight (E_SubgroupBallot c) = Suc (expr_weight c)"
| "expr_weight _ = 1"

fun step_weight :: "step \<Rightarrow> nat" where
  "step_weight (Encode e) = expr_weight e"
| "step_weight (WriteByte _) = 1"

lemma expr_pushes_weight: "sum_list (map step_weight (expr_pushes e)) < expr_weight e"
  by (cases e rule: expr_pushes.cases) (simp_all add: comp_def)

function put_expr_loop :: "step list \<Rightarrow> bytes \<Rightarrow> encode_error + bytes" where
  "put_expr_loop [] out = Inr out"
| "put_expr_loop (WriteByte b # stack) out = put_expr_loop stack (put_u8 out b)"
| "put_expr_loop (Encode e # stack) out =
     rbind (put_expr_head out e) (\<lambda>out. put_expr_loop (expr_pushes e @ stack) out)"
  by pat_completeness auto
termination
  by (relation "measure (\<lambda>(stack, out). sum_list (map step_weight stack))")
     (simp_all add: expr_pushes_weight)

definition put_expr :: "bytes \<Rightarrow> expr \<Rightarrow> encode_error + bytes" where
  "put_expr out e = put_expr_loop [Encode e] out"

text \<open>The recursive encoder that the explicit stack replaces.\<close>

fun enc_expr :: "bytes \<Rightarrow> expr \<Rightarrow> encode_error + bytes" where
  "enc_expr out (E_Load b i) =
     rbind (put_expr_head out (E_Load b i)) (\<lambda>out. enc_expr out i)"
| "enc_expr out (E_BinOp op l r) =
     rbind (put_expr_head out (E_BinOp op l r)) (\<lambda>out.
       rbind (enc_expr out l) (\<lambda>out. enc_expr out r))"
| "enc_expr out (E_UnOp op e) =
     rbind (put_expr_head out (E_UnOp op e)) (\<lambda>out. enc_expr out e)"
| "enc_expr out (E_Call op_id args) =
     rbind (put_expr_head out (E_Call op_id args)) (\<lambda>out.
       fold (\<lambda>e acc. rbind acc (\<lambda>out. enc_expr out e)) args (Inr out))"
| "enc_expr out (E_Select c t f) =
     rbind (put_expr_head out (E_Select c t f)) (\<lambda>out.
       rbind (enc_expr out c) (\<lambda>out. rbind (enc_expr out t) (\<lambda>out. enc_expr out f)))"
| "enc_expr out (E_Cast ty e) =
     rbind (put_expr_head out (E_Cast ty e)) (\<lambda>out. enc_expr out e)"
| "enc_expr out (E_Fma a b c) =
     rbind (put_expr_head out (E_Fma a b c)) (\<lambda>out.
       rbind (enc_expr out a) (\<lambda>out. rbind (enc_expr out b) (\<lambda>out. enc_expr out c)))"
| "enc_expr out (E_Atomic op b i None v ord) =
     rbind (put_expr_head out (E_Atomic op b i None v ord)) (\<lambda>out.
       rbind (enc_expr out i) (\<lambda>out. enc_expr (put_u8 out 0) v))"
| "enc_expr out (E_Atomic op b i (Some x) v ord) =
     rbind (put_expr_head out (E_Atomic op b i (Some x) v ord)) (\<lambda>out.
       rbind (enc_expr out i) (\<lambda>out.
         rbind (enc_expr (put_u8 out 1) x) (\<lambda>out. enc_expr out v)))"
| "enc_expr out (E_SubgroupAdd e) =
     rbind (put_expr_head out (E_SubgroupAdd e)) (\<lambda>out. enc_expr out e)"
| "enc_expr out (E_SubgroupShuffle v l) =
     rbind (put_expr_head out (E_SubgroupShuffle v l)) (\<lambda>out.
       rbind (enc_expr out v) (\<lambda>out. enc_expr out l))"
| "enc_expr out (E_SubgroupBallot c) =
     rbind (put_expr_head out (E_SubgroupBallot c)) (\<lambda>out. enc_expr out c)"
| "enc_expr out e = put_expr_head out e"

subsection \<open>Decoding\<close>

definition rd_bin_op :: "bin_op parser" where
  "rd_bin_op = rd_bind rd_u8 (\<lambda>tag.
     if tag = 0x80 then
       rd_bind rd_u32 (\<lambda>raw. rd_bind (rd_lift (reject_reserved_extension_id raw ''BinOp''))
         (\<lambda>i. rd_ret (BO_Opaque i)))
     else rd_lift (map_err (\<lambda>(kind, t). DE_OpTag kind t) (bin_op_from_tag tag)))"

definition rd_un_op :: "un_op parser" where
  "rd_un_op = rd_bind rd_u8 (\<lambda>tag.
     if tag = 0x80 then
       rd_bind rd_u32 (\<lambda>raw. rd_bind (rd_lift (reject_reserved_extension_id raw ''UnOp''))
         (\<lambda>i. rd_ret (UO_Opaque i)))
     else rd_lift (map_err (\<lambda>(kind, t). DE_OpTag kind t) (un_op_from_tag tag)))"

definition rd_atomic_op :: "atomic_op parser" where
  "rd_atomic_op = rd_bind rd_u8 (\<lambda>tag.
     if tag = 0x80 then
       rd_bind rd_u32 (\<lambda>raw. rd_bind (rd_lift (reject_reserved_extension_id raw ''AtomicOp''))
         (\<lambda>i. rd_ret (AO_Opaque i)))
     else rd_lift (map_err (\<lambda>(kind, t). DE_OpTag kind t) (atomic_op_from_tag tag)))"

definition rd_memory_ordering :: "memory_ordering parser" where
  "rd_memory_ordering = rd_bind rd_u8 (\<lambda>tag.
     rd_lift (map_err DE_MemoryOrderingTag (memory_ordering_from_wire_tag tag)))"

text \<open>\<open>expr_inner\<close>, with the reader for sub-expressions as an argument.\<close>

definition expr_arm :: "resolver list \<Rightarrow> expr parser \<Rightarrow> u8 \<Rightarrow> expr parser" where
  "expr_arm reg sub tag =
    (if tag = 0 then rd_bind rd_u32 (\<lambda>v. rd_ret (E_LitU32 v))
     else if tag = 1 then rd_bind rd_u32 (\<lambda>v. rd_ret (E_LitI32 v))
     else if tag = 2 then rd_bind rd_u8 (\<lambda>v. rd_ret (E_LitBool (v \<noteq> 0)))
     else if tag = 15 then rd_bind rd_u32 (\<lambda>v. rd_ret (E_LitF32 v))
     else if tag = 3 then rd_bind rd_string (\<lambda>name. rd_ret (E_Var name))
     else if tag = 4 then rd_bind rd_string (\<lambda>buffer. rd_bind sub (\<lambda>i. rd_ret (E_Load buffer i)))
     else if tag = 5 then rd_bind rd_string (\<lambda>buffer. rd_ret (E_BufLen buffer))
     else if tag = 6 then rd_bind rd_u8 (\<lambda>axis. rd_ret (E_InvocationId axis))
     else if tag = 7 then rd_bind rd_u8 (\<lambda>axis. rd_ret (E_WorkgroupId axis))
     else if tag = 8 then rd_bind rd_u8 (\<lambda>axis. rd_ret (E_LocalId axis))
     else if tag = 9 then rd_bind rd_bin_op (\<lambda>op. rd_bind sub (\<lambda>l. rd_bind sub (\<lambda>r.
       rd_ret (E_BinOp op l r))))
     else if tag = 10 then rd_bind rd_un_op (\<lambda>op. rd_bind sub (\<lambda>e. rd_ret (E_UnOp op e)))
     else if tag = 11 then rd_bind rd_string (\<lambda>op_id.
       rd_bind (rd_bounded_len MAX_ARGS ''call argument count'') (\<lambda>count.
         rd_bind (rd_repeat count sub) (\<lambda>args. rd_ret (E_Call op_id args))))
     else if tag = 12 then rd_bind sub (\<lambda>c. rd_bind sub (\<lambda>t. rd_bind sub (\<lambda>f.
       rd_ret (E_Select c t f))))
     else if tag = 13 then rd_bind rd_data_type (\<lambda>target. rd_bind sub (\<lambda>e.
       rd_ret (E_Cast target e)))
     else if tag = 14 then rd_bind rd_atomic_op (\<lambda>op. rd_bind rd_memory_ordering (\<lambda>ord.
       rd_bind rd_string (\<lambda>buffer. rd_bind sub (\<lambda>i. rd_bind rd_u8 (\<lambda>present.
         if present = 0 then rd_bind sub (\<lambda>v. rd_ret (E_Atomic op buffer i None v ord))
         else rd_bind sub (\<lambda>x. rd_bind sub (\<lambda>v.
                rd_ret (E_Atomic op buffer i (Some x) v ord))))))))
     else if tag = 16 then rd_bind sub (\<lambda>a. rd_bind sub (\<lambda>b. rd_bind sub (\<lambda>c.
       rd_ret (E_Fma a b c))))
     else if tag = 17 then rd_bind sub (\<lambda>v. rd_ret (E_SubgroupAdd v))
     else if tag = 18 then rd_bind sub (\<lambda>v. rd_bind sub (\<lambda>l. rd_ret (E_SubgroupShuffle v l)))
     else if tag = 19 then rd_bind sub (\<lambda>c. rd_ret (E_SubgroupBallot c))
     else if tag = 20 then rd_ret E_SubgroupLocalId
     else if tag = 21 then rd_ret E_SubgroupSize
     else if tag = 0x80 then rd_bind rd_string (\<lambda>kind.
       rd_bind (rd_bounded_len (MAX_ARGS * 1024) ''opaque expression payload'') (\<lambda>len.
         rd_bind (rd_take len) (\<lambda>payload. rd_lift (decode_opaque_expr reg kind payload))))
     else rd_fail (DE_ExprTag tag))"

definition expr_inner :: "resolver list \<Rightarrow> expr parser \<Rightarrow> expr parser" where
  "expr_inner reg sub = rd_bind rd_u8 (expr_arm reg sub)"

fun rd_expr :: "resolver list \<Rightarrow> nat \<Rightarrow> expr parser" where
  "rd_expr reg 0 = rd_fail DE_ExprDepth"
| "rd_expr reg (Suc levels) = expr_inner reg (rd_expr reg levels)"

subsection \<open>What comes back\<close>

fun canonical_expr :: "expr \<Rightarrow> expr" where
  "canonical_expr (E_LitF32 v) = E_LitF32 (canonical_f32_bits v)"
| "canonical_expr (E_Load b i) = E_Load b (canonical_expr i)"
| "canonical_expr (E_BinOp op l r) = E_BinOp op (canonical_expr l) (canonical_expr r)"
| "canonical_expr (E_UnOp op e) = E_UnOp op (canonical_expr e)"
| "canonical_expr (E_Call op_id args) = E_Call op_id (map canonical_expr args)"
| "canonical_expr (E_Select c t f) =
     E_Select (canonical_expr c) (canonical_expr t) (canonical_expr f)"
| "canonical_expr (E_Cast t e) = E_Cast t (canonical_expr e)"
| "canonical_expr (E_Fma a b c) = E_Fma (canonical_expr a) (canonical_expr b) (canonical_expr c)"
| "canonical_expr (E_Atomic op b i x v ord) =
     E_Atomic op b (canonical_expr i) (map_option canonical_expr x) (canonical_expr v) ord"
| "canonical_expr (E_SubgroupAdd e) = E_SubgroupAdd (canonical_expr e)"
| "canonical_expr (E_SubgroupShuffle v l) = E_SubgroupShuffle (canonical_expr v) (canonical_expr l)"
| "canonical_expr (E_SubgroupBallot c) = E_SubgroupBallot (canonical_expr c)"
| "canonical_expr e = e"

definition resolves :: "resolver list \<Rightarrow> extension \<Rightarrow> bool" where
  "resolves reg ext =
     (is_str (ext_kind ext) \<and> decode_opaque reg (ext_kind ext) (ext_payload ext) = Inr ext)"

fun bin_op_id_ok :: "bin_op \<Rightarrow> bool" where
  "bin_op_id_ok (BO_Opaque i) = is_extension i"
| "bin_op_id_ok _ = True"

fun un_op_id_ok :: "un_op \<Rightarrow> bool" where
  "un_op_id_ok (UO_Opaque i) = is_extension i"
| "un_op_id_ok _ = True"

fun atomic_op_id_ok :: "atomic_op \<Rightarrow> bool" where
  "atomic_op_id_ok (AO_Opaque i) = is_extension i"
| "atomic_op_id_ok _ = True"

text \<open>
  What the decoder demands of an encoded expression: at most \<open>levels\<close> levels of nesting,
  at most \<open>MAX_ARGS\<close> arguments, extension identifiers in the extension range, acceptable
  extensions.  Identifiers are Rust strings, hence valid UTF-8.
\<close>

fun expr_ok :: "(extension \<Rightarrow> bool) \<Rightarrow> nat \<Rightarrow> expr \<Rightarrow> bool" where
  "expr_ok ext_ok 0 e = False"
| "expr_ok ext_ok (Suc k) (E_Var name) = is_str name"
| "expr_ok ext_ok (Suc k) (E_Load b i) = (is_str b \<and> expr_ok ext_ok k i)"
| "expr_ok ext_ok (Suc k) (E_BufLen b) = is_str b"
| "expr_ok ext_ok (Suc k) (E_BinOp op l r) = (bin_op_id_ok op \<and> expr_ok ext_ok k l \<and> expr_ok ext_ok k r)"
| "expr_ok ext_ok (Suc k) (E_UnOp op e) = (un_op_id_ok op \<and> expr_ok ext_ok k e)"
| "expr_ok ext_ok (Suc k) (E_Call op_id args) =
     (is_str op_id \<and> length args \<le> MAX_ARGS \<and> list_all (expr_ok ext_ok k) args)"
| "expr_ok ext_ok (Suc k) (E_Select c t f) = (expr_ok ext_ok k c \<and> expr_ok ext_ok k t \<and> expr_ok ext_ok k f)"
| "expr_ok ext_ok (Suc k) (E_Cast t e) = (data_type_ids_ok t \<and> expr_ok ext_ok k e)"
| "expr_ok ext_ok (Suc k) (E_Fma a b c) = (expr_ok ext_ok k a \<and> expr_ok ext_ok k b \<and> expr_ok ext_ok k c)"
| "expr_ok ext_ok (Suc k) (E_Atomic op b i x v ord) =
     (atomic_op_id_ok op \<and> is_str b \<and> expr_ok ext_ok k i \<and> pred_option (expr_ok ext_ok k) x
      \<and> expr_ok ext_ok k v)"
| "expr_ok ext_ok (Suc k) (E_SubgroupAdd e) = expr_ok ext_ok k e"
| "expr_ok ext_ok (Suc k) (E_SubgroupShuffle v l) = (expr_ok ext_ok k v \<and> expr_ok ext_ok k l)"
| "expr_ok ext_ok (Suc k) (E_SubgroupBallot c) = expr_ok ext_ok k c"
| "expr_ok ext_ok (Suc k) (E_Opaque ext) = ext_ok ext"
| "expr_ok ext_ok (Suc k) e = True"


subsection \<open>The stack machine is the recursive encoder\<close>

lemma fold_enc_Inl [simp]:
  "fold (\<lambda>e acc. rbind acc (\<lambda>out. f out e)) es (Inl err) = Inl err"
  by (induction es) simp_all

lemma fold_enc_put_all:
  "fold (\<lambda>e acc. rbind acc (\<lambda>out. f out e)) es (Inr out) = put_all f out es"
proof (induction es arbitrary: out)
  case (Cons e es)
  then show ?case by (cases "f out e") simp_all
qed simp

declare put_expr_loop.simps(3) [simp del] rbind_assoc [simp]

lemma put_expr_loop_args:
  assumes "\<And>e stack out. e \<in> set es \<Longrightarrow>
    put_expr_loop (Encode e # stack) out = rbind (enc_expr out e) (put_expr_loop stack)"
  shows "put_expr_loop (map Encode es @ stack) out
    = rbind (put_all enc_expr out es) (put_expr_loop stack)"
  using assms by (induction es arbitrary: out) (simp_all cong: rbind_cong)

lemma put_expr_loop_enc:
  "put_expr_loop (Encode e # stack) out = rbind (enc_expr out e) (put_expr_loop stack)"
  by (induction out e arbitrary: stack rule: enc_expr.induct; subst put_expr_loop.simps(3))
     (simp_all add: fold_enc_put_all put_expr_loop_args del: put_expr_head.simps cong: rbind_cong)


subsection \<open>Decoding reads back the recursive encoding\<close>

text \<open>Operators: a tag byte from the table, or the marker and an extension identifier.\<close>

lemma wrote_opaque_id:
  assumes "is_extension i"
  shows "wrote (\<lambda>out. Inr (put_u32 (put_u8 out 0x80) i))
    (rd_bind rd_u8 (\<lambda>tag.
       if tag = 0x80 then
         rd_bind rd_u32 (\<lambda>raw. rd_bind (rd_lift (reject_reserved_extension_id raw s))
           (\<lambda>i. rd_ret (C i)))
       else m tag))
    (C i)"
  using reject_reserved_ok[OF assms]
  by (intro wrote_u8) (simp add: wrote_u32 wrote_nil reads_bind_nil[OF reads_lift] reads_ret)

lemma wrote_op_tag:
  assumes "\<And>tag. encode = Inr tag \<Longrightarrow> tag \<noteq> 0x80 \<and> decode tag = Inr op"
  shows "wrote (\<lambda>out. rbind (map_err f encode) (\<lambda>tag. Inr (put_u8 out tag)))
    (rd_bind rd_u8 (\<lambda>tag. if tag = 0x80 then m else rd_lift (map_err g (decode tag)))) op"
proof (cases encode)
  case (Inr tag)
  with assms[OF Inr] show ?thesis by (auto intro!: wrote_u8 wrote_nil reads_lift)
qed (simp add: wrote_def)

lemma wrote_bin_op:
  assumes "bin_op_id_ok op"
  shows "wrote (\<lambda>out. put_bin_op out op) rd_bin_op op"
proof (cases "\<exists>i. op = BO_Opaque i")
  case True
  with assms show ?thesis
    unfolding put_bin_op_def rd_bin_op_def by (auto intro: wrote_opaque_id)
next
  case False
  then have "put_bin_op out op = rbind (map_err EE_UnknownVariant (bin_op_tag op))
      (\<lambda>tag. Inr (put_u8 out tag))" for out
    by (cases op) (simp_all add: put_bin_op_def)
  moreover have "wrote (\<lambda>out. rbind (map_err EE_UnknownVariant (bin_op_tag op))
      (\<lambda>tag. Inr (put_u8 out tag))) rd_bin_op op"
    unfolding rd_bin_op_def bin_op_tag_def bin_op_from_tag_def
    by (rule wrote_op_tag) (rule bin_tags.encode_decode)
  ultimately show ?thesis by simp
qed

lemma wrote_un_op:
  assumes "un_op_id_ok op"
  shows "wrote (\<lambda>out. put_un_op out op) rd_un_op op"
proof (cases "\<exists>i. op = UO_Opaque i")
  case True
  with assms show ?thesis
    unfolding put_un_op_def rd_un_op_def by (auto intro: wrote_opaque_id)
next
  case False
  then have "put_un_op out op = rbind (map_err EE_UnknownVariant (un_op_tag op))
      (\<lambda>tag. Inr (put_u8 out tag))" for out
    by (cases op) (simp_all add: put_un_op_def)
  moreover have "wrote (\<lambda>out. rbind (map_err EE_UnknownVariant (un_op_tag op))
      (\<lambda>tag. Inr (put_u8 out tag))) rd_un_op op"
    unfolding rd_un_op_def un_op_tag_def un_op_from_tag_def
    by (rule wrote_op_tag) (rule un_tags.encode_decode)
  ultimately show ?thesis by simp
qed

lemma wrote_atomic_op:
  assumes "atomic_op_id_ok op"
  shows "wrote (\<lambda>out. put_atomic_op out op) rd_atomic_op op"
proof (cases "\<exists>i. op = AO_Opaque i")
  case True
  with assms show ?thesis
    unfolding put_atomic_op_def rd_atomic_op_def by (auto intro: wrote_opaque_id)
next
  case False
  then have "put_atomic_op out op = rbind (map_err EE_UnknownVariant (atomic_op_tag op))
      (\<lambda>tag. Inr (put_u8 out tag))" for out
    by (cases op) (simp_all add: put_atomic_op_def)
  moreover have "wrote (\<lambda>out. rbind (map_err EE_UnknownVariant (atomic_op_tag op))
      (\<lambda>tag. Inr (put_u8 out tag))) rd_atomic_op op"
    unfolding rd_atomic_op_def atomic_op_tag_def atomic_op_from_tag_def
    by (rule wrote_op_tag) (rule atomic_tags.encode_decode)
  ultimately show ?thesis by simp
qed

lemma wrote_memory_ordering:
  "wrote (\<lambda>out. Inr (put_u8 out (wire_tag ord))) rd_memory_ordering ord"
  unfolding rd_memory_ordering_def by (intro wrote_u8 wrote_nil reads_lift) simp

lemma wrote_opaque_payload:
  assumes "is_str (ext_kind ext)" "decode (ext_kind ext) (ext_payload ext) = Inr v"
  shows "wrote (\<lambda>out. rbind (put_string out (ext_kind ext)) (\<lambda>out.
        if length (ext_payload ext) > MAX_OPAQUE_PAYLOAD_LEN
        then Inl err
        else rbind (put_len_u32 out (length (ext_payload ext)) label)
               (\<lambda>out. Inr (out @ ext_payload ext))))
    (rd_bind rd_string (\<lambda>kind. rd_bind (rd_bounded_len (MAX_ARGS * 1024) label') (\<lambda>len.
       rd_bind (rd_take len) (\<lambda>payload. rd_lift (decode kind payload))))) v"
proof (cases "length (ext_payload ext) > MAX_OPAQUE_PAYLOAD_LEN")
  case True
  then show ?thesis by (auto simp: wrote_def elim!: rbind_InrE)
next
  case False
  then have "length (ext_payload ext) \<le> MAX_ARGS * 1024"
    by (simp add: MAX_OPAQUE_PAYLOAD_LEN_def)
  with False assms show ?thesis
    by (intro wrote_bind[OF wrote_string], simp_all)
       (intro wrote_bind[OF wrote_len_u32] wrote_last[OF wrote_raw] reads_lift, simp_all)
qed

text \<open>The steps a proof that follows an encoder can take; each matches one leading parser.\<close>

lemmas wrote_steps =
  wrote_bind[OF wrote_string] wrote_bind[OF wrote_bin_op] wrote_bind[OF wrote_un_op]
  wrote_bind[OF wrote_atomic_op] wrote_bind[OF data_type_codec.put_wrote]
  wrote_bind[OF wrote_len_u32] wrote_last[OF wrote_string reads_ret]
  wrote_seq_u8[OF wrote_memory_ordering] wrote_u32 wrote_u8 wrote_nil[OF reads_ret]

lemmas enc_expr_unfold =
  enc_expr.simps put_expr_head.simps rd_expr.simps canonical_expr.simps expr_inner_def
  rbind_assoc rbind_Inr expr_ok.simps fold_enc_put_all option.map option.pred_inject

lemma wrote_expr:
  "expr_ok (resolves reg) k e \<Longrightarrow> wrote (\<lambda>out. enc_expr out e) (rd_expr reg k) (canonical_expr e)"
proof (induction k arbitrary: e)
  case (Suc n)
  note sub = wrote_bind[OF Suc.IH] wrote_last[OF Suc.IH reads_ret]
    wrote_last[OF wrote_put_all[OF Suc.IH] reads_ret]
  consider (bool) v where "e = E_LitBool v" | (atomic) op b i x v ord where "e = E_Atomic op b i x v ord"
    | (ext) ext where "e = E_Opaque ext"
    | (other) "\<nexists>v. e = E_LitBool v" "\<nexists>op b i x v ord. e = E_Atomic op b i x v ord" "\<nexists>ext. e = E_Opaque ext"
    by blast
  then show ?case
  proof cases
    case bool
    then show ?thesis
      by (cases v; simp only: enc_expr_unfold if_True if_False)
         (rule wrote_u8, simp add: expr_arm_def, rule wrote_u8, rule wrote_nil, simp add: reads_ret)+
  next
    case atomic
    with Suc.prems show ?thesis
      by (cases x; simp only: enc_expr_unfold)
         ((rule wrote_steps sub | simp add: expr_arm_def)+)
  next
    case ext
    with Suc.prems show ?thesis
      by (simp only: enc_expr_unfold)
         (rule wrote_u8, simp add: expr_arm_def, rule wrote_opaque_payload,
          simp_all add: resolves_def decode_opaque_expr_def)
  next
    case other
    with Suc.prems show ?thesis
      by (cases e; simp only: enc_expr_unfold)
         (simp_all, (rule wrote_steps sub | simp add: expr_arm_def list_all_iff)+)
  qed
qed simp

subsection \<open>What the decoder returns\<close>

lemma yields_op:
  assumes "list_all (ok \<circ> snd) table" "\<And>i. is_extension i \<Longrightarrow> ok (C i)"
    and "\<And>tag op. decode tag = Inr op \<Longrightarrow> (tag, op) \<in> set table"
  shows "yields (rd_bind rd_u8 (\<lambda>tag.
     if tag = 0x80 then
       rd_bind rd_u32 (\<lambda>raw. rd_bind (rd_lift (reject_reserved_extension_id raw s))
         (\<lambda>i. rd_ret (C i)))
     else rd_lift (map_err g (decode tag)))) ok"
proof (rule yields_bind_any, rule yields_if)
  have "yields (rd_bind (rd_lift (reject_reserved_extension_id raw s)) (\<lambda>i. rd_ret (C i))) ok" for raw
    by (rule yields_bind[where Q = is_extension])
       (auto intro: yields_lift yields_ret assms(2) dest: reject_reserved_Inr)
  then show "yields (rd_bind rd_u32 (\<lambda>raw. rd_bind (rd_lift (reject_reserved_extension_id raw s))
      (\<lambda>i. rd_ret (C i)))) ok" by (rule yields_bind_any)
next
  fix tag show "yields (rd_lift (map_err g (decode tag))) ok"
    using assms(1,3) by (fastforce intro!: yields_lift simp: list_all_iff)
qed

lemma yields_bin_op: "yields rd_bin_op bin_op_id_ok"
  unfolding rd_bin_op_def
  by (rule yields_op[where table = BIN_OP_TAGS])
     (simp_all add: bin_op_from_tag_def bin_tags.decode_tag_iff, simp add: BIN_OP_TAGS_def)

lemma yields_un_op: "yields rd_un_op un_op_id_ok"
  unfolding rd_un_op_def
  by (rule yields_op[where table = UN_OP_TAGS])
     (simp_all add: un_op_from_tag_def un_tags.decode_tag_iff, simp add: UN_OP_TAGS_def)

lemma yields_atomic_op: "yields rd_atomic_op atomic_op_id_ok"
  unfolding rd_atomic_op_def
  by (rule yields_op[where table = ATOMIC_OP_TAGS])
     (simp_all add: atomic_op_from_tag_def atomic_tags.decode_tag_iff, simp add: ATOMIC_OP_TAGS_def)

lemma yields_expr: "yields (rd_expr reg k) (expr_ok (\<lambda>_. True) k)"
proof (induction k)
  case (Suc n)
  note binds = yields_bind[OF Suc] yields_bind[OF yields_string] yields_bind[OF yields_bin_op]
    yields_bind[OF yields_un_op] yields_bind[OF yields_atomic_op] yields_bind[OF yields_data_type]
    yields_bind[OF yields_bounded_len] yields_bind[OF yields_repeat[OF Suc]]
  have "yields (expr_arm reg (rd_expr reg n) tag) (expr_ok (\<lambda>_. True) (Suc n))" for tag
    unfolding expr_arm_def
    by (rule yields_if binds | rule yields_bind_any | rule yields_ret yields_fail yields_lift
        | auto simp: decode_opaque_expr_def rbind_eq_Inr)+
  then show ?case unfolding rd_expr.simps expr_inner_def by (rule yields_bind_any)
qed (simp add: yields_fail)

lemma safe_expr [safe_intros]: "safe_parser (rd_expr reg k)"
proof (induction k)
  case (Suc n)
  then show ?case
    unfolding rd_expr.simps expr_inner_def expr_arm_def rd_bin_op_def rd_un_op_def rd_atomic_op_def
      rd_memory_ordering_def
    by (intro safe_intros)
qed (simp add: safe_intros)

text \<open>Canonicalisation changes nothing the encoder looks at.\<close>

lemma canonical_f32_bits_idem [simp]: "canonical_f32_bits (canonical_f32_bits b) = canonical_f32_bits b"
  by (auto simp: canonical_f32_bits_def f32_is_nan_def f32_is_subnormal_def)

lemma put_all_map:
  "(\<And>x out. x \<in> set xs \<Longrightarrow> f out (g x) = f out x) \<Longrightarrow> put_all f out (map g xs) = put_all f out xs"
  by (induction xs arbitrary: out) (simp_all cong: rbind_cong)

lemma enc_canonical_expr: "enc_expr out (canonical_expr e) = enc_expr out e"
proof (induction e arbitrary: out)
  case (E_Atomic op b i x v ord)
  then show ?case by (cases x) simp_all
qed (simp_all add: fold_enc_put_all put_all_map cong: rbind_cong)

subsection \<open>Properties\<close>

lemma put_expr_enc: "put_expr out e = enc_expr out e"
  by (cases "enc_expr out e") (simp_all add: put_expr_def put_expr_loop_enc)

text \<open>
  C9. The explicit-stack encoder terminates on every expression and computes exactly the
  recursive encoding it replaces, errors included; and it does not distinguish an
  expression from its canonical form.
\<close>

theorem put_expr_recursive:
  "put_expr out e = enc_expr out e \<and> put_expr out (canonical_expr e) = put_expr out e"
  by (simp add: put_expr_enc enc_canonical_expr)

text \<open>
  C10. Expressions round-trip.  If encoding succeeds for an expression within the decoder's
  limits whose extensions are registered, it only appended bytes, and decoding where they
  start returns the expression with canonical floating-point literals and stops exactly
  behind them, whatever surrounds them.
\<close>

theorem expr_roundtrip:
  assumes "put_expr pre e = Inr out" and "expr_ok (resolves reg) MAX_DECODE_DEPTH e"
    and "length (out @ post) < usize_bound"
  shows "rd_expr reg MAX_DECODE_DEPTH \<lparr>rd_bytes = out @ post, rd_pos = length pre\<rparr>
      = Inr (canonical_expr e, \<lparr>rd_bytes = out @ post, rd_pos = length out\<rparr>)
    \<and> take (length pre) out = pre"
proof -
  obtain bs where bs: "out = pre @ bs" "reads (rd_expr reg MAX_DECODE_DEPTH) bs (canonical_expr e)"
    using wroteD[OF wrote_expr[OF assms(2)]] assms(1) by (auto simp: put_expr_enc)
  with assms(3) readsD[OF bs(2), of pre post] show ?thesis by (simp add: rd_at_def)
qed

lemma MAX_DECODE_DEPTH_Suc: "MAX_DECODE_DEPTH = Suc (Suc (Suc 61))"
  by (simp add: MAX_DECODE_DEPTH_def)

theorem expr_roundtrip_witness:
  "let e = E_BinOp BO_Sub (E_LitF32 0x80000000) (E_Call ''f'' [E_LitBool True]);
       out = [1, 9, 2, 15, 0, 0, 0, 0, 11, 1, 0, 0, 0, 0x66, 1, 0, 0, 0, 2, 1] in
   put_expr [1] e = Inr out
   \<and> rd_expr [] MAX_DECODE_DEPTH \<lparr>rd_bytes = out @ [5], rd_pos = 1\<rparr>
     = Inr (E_BinOp BO_Sub (E_LitF32 0) (E_Call ''f'' [E_LitBool True]),
            \<lparr>rd_bytes = out @ [5], rd_pos = 20\<rparr>)"
proof -
  let ?e = "E_BinOp BO_Sub (E_LitF32 0x80000000) (E_Call ''f'' [E_LitBool True])"
  let ?out = "[1, 9, 2, 15, 0, 0, 0, 0, 11, 1, 0, 0, 0, 0x66, 1, 0, 0, 0, 2, 1] :: bytes"
  have put: "put_expr [1] ?e = Inr ?out"
    by (simp add: put_expr_enc put_simps put_bin_op_def bin_op_tag_def encode_tag_def
        BIN_OP_TAGS_def put_string_def put_len_u32_def u32_to_le_bytes_def as_bytes_def
        MAX_STRING_LEN_def canonical_f32_bits_def f32_is_nan_def f32_is_subnormal_def)
  have ok: "expr_ok (resolves []) MAX_DECODE_DEPTH ?e"
    by (simp add: MAX_DECODE_DEPTH_Suc MAX_ARGS_def is_str_def as_bytes_def del: Suc_numeral)
  show ?thesis
    using expr_roundtrip[OF put ok, of "[5]"] put
    by (simp add: canonical_f32_bits_def f32_is_nan_def f32_is_subnormal_def)
qed

text \<open>
  Whatever the bytes, a decoded expression is within the limits (at most 64 levels, at
  most \<open>MAX_ARGS\<close> arguments per call, valid UTF-8 names, extension identifiers in the
  extension range), and the cursor has only moved forward, inside the buffer.
\<close>

theorem rd_expr_limits:
  assumes "rd_expr reg MAX_DECODE_DEPTH r = Inr (e, r')"
  shows "expr_ok (\<lambda>_. True) MAX_DECODE_DEPTH e \<and> advanced r r'"
  using yieldsD[OF yields_expr assms] safe_advanced[OF safe_expr assms] by simp

end
