(* ===== verification/Wire_Node.thy ===== *)
theory Wire_Node
  imports Wire_Expr
begin

text \<open>
  The statement codec: \<open>serial/wire/encode/put_node.rs\<close>, \<open>put_nodes.rs\<close>, and
  \<open>Reader::node\<close>, \<open>Reader::nodes\<close>, \<open>node_inner\<close> of \<open>decode/impl_reader.rs\<close>.  Statements
  and expressions share one depth budget, so a node reads its expressions with one level
  less than itself.
\<close>

subsection \<open>Encoding\<close>

definition put_nodes_with ::
    "(bytes \<Rightarrow> node \<Rightarrow> encode_error + bytes) \<Rightarrow> bytes \<Rightarrow> node list \<Rightarrow> encode_error + bytes" where
  "put_nodes_with put out ns =
     rbind (put_len_u32 out (length ns) ''node count'') (\<lambda>out. put_all put out ns)"

lemma put_all_cong [fundef_cong]:
  assumes "out = out'" "xs = ys" "\<And>x o1. x \<in> set ys \<Longrightarrow> f o1 x = g o1 x"
  shows "put_all f out xs = put_all g out' ys"
  unfolding assms(1,2) using assms(3)
  by (induction ys arbitrary: out') (simp_all cong: rbind_cong)

lemma put_nodes_with_cong [fundef_cong]:
  assumes "out = out'" "xs = ys" "\<And>x o1. x \<in> set ys \<Longrightarrow> f o1 x = g o1 x"
  shows "put_nodes_with f out xs = put_nodes_with g out' ys"
  unfolding assms(1,2) put_nodes_with_def by (intro rbind_cong put_all_cong) (simp_all add: assms(3))

definition put_opaque_node :: "bytes \<Rightarrow> extension \<Rightarrow> encode_error + bytes" where
  "put_opaque_node out ext =
     rbind (put_string out (ext_kind ext)) (\<lambda>out.
       if length (ext_payload ext) > MAX_OPAQUE_PAYLOAD_LEN
       then Inl (EE_OpaqueNodePayload (length (ext_payload ext)))
       else rbind (put_len_u32 out (length (ext_payload ext)) ''opaque node payload length'')
              (\<lambda>out. Inr (out @ ext_payload ext)))"

fun put_node :: "bytes \<Rightarrow> node \<Rightarrow> encode_error + bytes" where
  "put_node out (N_Let name v) =
     rbind (put_string (put_u8 out 0) name) (\<lambda>out. put_expr out v)"
| "put_node out (N_Assign name v) =
     rbind (put_string (put_u8 out 1) name) (\<lambda>out. put_expr out v)"
| "put_node out (N_Store buffer i v) =
     rbind (put_string (put_u8 out 2) buffer) (\<lambda>out. rbind (put_expr out i) (\<lambda>out. put_expr out v))"
| "put_node out (N_If c t f) =
     rbind (put_expr (put_u8 out 3) c) (\<lambda>out.
       rbind (put_nodes_with put_node out t) (\<lambda>out. put_nodes_with put_node out f))"
| "put_node out (N_Loop var from to body) =
     rbind (put_string (put_u8 out 4) var) (\<lambda>out. rbind (put_expr out from) (\<lambda>out.
       rbind (put_expr out to) (\<lambda>out. put_nodes_with put_node out body)))"
| "put_node out N_Return = Inr (put_u8 out 5)"
| "put_node out (N_Block body) = put_nodes_with put_node (put_u8 out 6) body"
| "put_node out (N_Barrier ord) = Inr (put_u8 (put_u8 out 7) (wire_tag ord))"
| "put_node out (N_IndirectDispatch buffer offset) =
     rbind (put_string (put_u8 out 8) buffer) (\<lambda>out. Inr (out @ u64_to_le_bytes offset))"
| "put_node out (N_AsyncLoad src dst offset n tag) =
     rbind (put_string (put_u8 out 9) src) (\<lambda>out. rbind (put_string out dst) (\<lambda>out.
       rbind (put_expr out offset) (\<lambda>out. rbind (put_expr out n) (\<lambda>out. put_string out tag))))"
| "put_node out (N_AsyncStore src dst offset n tag) =
     rbind (put_string (put_u8 out 12) src) (\<lambda>out. rbind (put_string out dst) (\<lambda>out.
       rbind (put_expr out offset) (\<lambda>out. rbind (put_expr out n) (\<lambda>out. put_string out tag))))"
| "put_node out (N_Trap address tag) =
     rbind (put_expr (put_u8 out 13) address) (\<lambda>out. put_string out tag)"
| "put_node out (N_Resume tag) = put_string (put_u8 out 14) tag"
| "put_node out (N_AllReduce buffer op grp) =
     rbind (put_string (put_u8 out 15) buffer) (\<lambda>out.
       Inr (put_u32 (put_u8 out (collective_op_builtin_wire_tag op)) grp))"
| "put_node out (N_AllGather inp outp grp) =
     rbind (put_string (put_u8 out 16) inp) (\<lambda>out. rbind (put_string out outp) (\<lambda>out.
       Inr (put_u32 out grp)))"
| "put_node out (N_ReduceScatter inp outp op grp) =
     rbind (put_string (put_u8 out 17) inp) (\<lambda>out. rbind (put_string out outp) (\<lambda>out.
       Inr (put_u32 (put_u8 out (collective_op_builtin_wire_tag op)) grp)))"
| "put_node out (N_Broadcast buffer root grp) =
     rbind (put_string (put_u8 out 18) buffer) (\<lambda>out. Inr (put_u32 (put_u32 out root) grp))"
| "put_node out (N_AsyncWait tag) = put_string (put_u8 out 10) tag"
| "put_node out (N_Region generator source body) =
     rbind (put_string (put_u8 out 11) generator) (\<lambda>out.
       rbind (case source of
                Some name \<Rightarrow> put_string (put_u8 out 1) name
              | None \<Rightarrow> Inr (put_u8 out 0)) (\<lambda>out.
         put_nodes_with put_node out body))"
| "put_node out (N_Opaque ext) = put_opaque_node (put_u8 out 0x80) ext"

definition put_nodes :: "bytes \<Rightarrow> node list \<Rightarrow> encode_error + bytes" where
  "put_nodes out ns = put_nodes_with put_node out ns"

subsection \<open>Decoding\<close>

definition decode_opaque_node :: "resolver list \<Rightarrow> string \<Rightarrow> bytes \<Rightarrow> decode_error + node" where
  "decode_opaque_node regs kind payload =
     rbind (decode_opaque regs kind payload) (\<lambda>ext. Inr (N_Opaque ext))"

definition rd_collective_op :: "collective_op parser" where
  "rd_collective_op = rd_bind rd_u8 (\<lambda>tag.
     rd_lift (map_err DE_CollectiveTag (collective_op_from_wire_tag tag)))"

definition rd_nodes_with :: "node parser \<Rightarrow> node list parser" where
  "rd_nodes_with m =
     rd_bind (rd_bounded_len MAX_NODES ''node count'') (\<lambda>count. rd_repeat count m)"

definition rd_source_region :: "string option parser" where
  "rd_source_region = rd_bind rd_u8 (\<lambda>presence.
     if presence = 0 then rd_ret None
     else if presence = 1 then rd_bind rd_string (\<lambda>name. rd_ret (Some name))
     else rd_fail (DE_RegionPresence presence))"

text \<open>\<open>node_inner\<close>, with the readers for expressions and for nested nodes as arguments.\<close>

definition node_arm :: "resolver list \<Rightarrow> expr parser \<Rightarrow> node parser \<Rightarrow> u8 \<Rightarrow> node parser" where
  "node_arm reg ex sub tag =
    (if tag = 0 then rd_bind rd_string (\<lambda>name. rd_bind ex (\<lambda>v. rd_ret (N_Let name v)))
     else if tag = 1 then rd_bind rd_string (\<lambda>name. rd_bind ex (\<lambda>v. rd_ret (N_Assign name v)))
     else if tag = 2 then rd_bind rd_string (\<lambda>buffer. rd_bind ex (\<lambda>i. rd_bind ex (\<lambda>v.
       rd_ret (N_Store buffer i v))))
     else if tag = 3 then rd_bind ex (\<lambda>c. rd_bind (rd_nodes_with sub) (\<lambda>t.
       rd_bind (rd_nodes_with sub) (\<lambda>f. rd_ret (N_If c t f))))
     else if tag = 4 then rd_bind rd_string (\<lambda>var. rd_bind ex (\<lambda>from. rd_bind ex (\<lambda>to.
       rd_bind (rd_nodes_with sub) (\<lambda>body. rd_ret (N_Loop var from to body)))))
     else if tag = 5 then rd_ret N_Return
     else if tag = 6 then rd_bind (rd_nodes_with sub) (\<lambda>body. rd_ret (N_Block body))
     else if tag = 7 then rd_bind rd_memory_ordering (\<lambda>ord. rd_ret (N_Barrier ord))
     else if tag = 8 then rd_bind rd_string (\<lambda>buffer. rd_bind rd_u64 (\<lambda>offset.
       rd_ret (N_IndirectDispatch buffer offset)))
     else if tag = 9 then rd_bind rd_string (\<lambda>src. rd_bind rd_string (\<lambda>dst. rd_bind ex (\<lambda>offset.
       rd_bind ex (\<lambda>n. rd_bind rd_string (\<lambda>t. rd_ret (N_AsyncLoad src dst offset n t))))))
     else if tag = 10 then rd_bind rd_string (\<lambda>t. rd_ret (N_AsyncWait t))
     else if tag = 12 then rd_bind rd_string (\<lambda>src. rd_bind rd_string (\<lambda>dst. rd_bind ex (\<lambda>offset.
       rd_bind ex (\<lambda>n. rd_bind rd_string (\<lambda>t. rd_ret (N_AsyncStore src dst offset n t))))))
     else if tag = 13 then rd_bind ex (\<lambda>address. rd_bind rd_string (\<lambda>t. rd_ret (N_Trap address t)))
     else if tag = 14 then rd_bind rd_string (\<lambda>t. rd_ret (N_Resume t))
     else if tag = 15 then rd_bind rd_string (\<lambda>buffer. rd_bind rd_collective_op (\<lambda>op.
       rd_bind rd_u32 (\<lambda>grp. rd_ret (N_AllReduce buffer op grp))))
     else if tag = 16 then rd_bind rd_string (\<lambda>inp. rd_bind rd_string (\<lambda>outp.
       rd_bind rd_u32 (\<lambda>grp. rd_ret (N_AllGather inp outp grp))))
     else if tag = 17 then rd_bind rd_string (\<lambda>inp. rd_bind rd_string (\<lambda>outp.
       rd_bind rd_collective_op (\<lambda>op. rd_bind rd_u32 (\<lambda>grp.
         rd_ret (N_ReduceScatter inp outp op grp)))))
     else if tag = 18 then rd_bind rd_string (\<lambda>buffer. rd_bind rd_u32 (\<lambda>root.
       rd_bind rd_u32 (\<lambda>grp. rd_ret (N_Broadcast buffer root grp))))
     else if tag = 11 then rd_bind rd_string (\<lambda>generator. rd_bind rd_source_region (\<lambda>source.
       rd_bind (rd_nodes_with sub) (\<lambda>body. rd_ret (N_Region generator source body))))
     else if tag = 0x80 then rd_bind rd_string (\<lambda>kind.
       rd_bind (rd_bounded_len (MAX_ARGS * 1024) ''opaque node payload'') (\<lambda>len.
         rd_bind (rd_take len) (\<lambda>payload. rd_lift (decode_opaque_node reg kind payload))))
     else rd_fail (DE_NodeTag tag))"

definition node_inner :: "resolver list \<Rightarrow> expr parser \<Rightarrow> node parser \<Rightarrow> node parser" where
  "node_inner reg ex sub = rd_bind rd_u8 (node_arm reg ex sub)"

text \<open>Extension registries of the two surfaces: expressions and nodes.\<close>

record registry =
  reg_exprs :: "resolver list"
  reg_nodes :: "resolver list"

fun rd_node :: "registry \<Rightarrow> nat \<Rightarrow> node parser" where
  "rd_node reg 0 = rd_fail DE_NodeDepth"
| "rd_node reg (Suc levels) =
     node_inner (reg_nodes reg) (rd_expr (reg_exprs reg) levels) (rd_node reg levels)"

definition rd_nodes :: "registry \<Rightarrow> nat \<Rightarrow> node list parser" where
  "rd_nodes reg levels = rd_nodes_with (rd_node reg levels)"

subsection \<open>What comes back\<close>

fun canonical_node :: "node \<Rightarrow> node" where
  "canonical_node (N_Let name v) = N_Let name (canonical_expr v)"
| "canonical_node (N_Assign name v) = N_Assign name (canonical_expr v)"
| "canonical_node (N_Store b i v) = N_Store b (canonical_expr i) (canonical_expr v)"
| "canonical_node (N_If c t f) =
     N_If (canonical_expr c) (map canonical_node t) (map canonical_node f)"
| "canonical_node (N_Loop var from to body) =
     N_Loop var (canonical_expr from) (canonical_expr to) (map canonical_node body)"
| "canonical_node (N_Block body) = N_Block (map canonical_node body)"
| "canonical_node (N_AsyncLoad s d off n t) =
     N_AsyncLoad s d (canonical_expr off) (canonical_expr n) t"
| "canonical_node (N_AsyncStore s d off n t) =
     N_AsyncStore s d (canonical_expr off) (canonical_expr n) t"
| "canonical_node (N_Trap a t) = N_Trap (canonical_expr a) t"
| "canonical_node (N_Region g s body) = N_Region g s (map canonical_node body)"
| "canonical_node n = n"

record acceptance =
  acc_expr :: "extension \<Rightarrow> bool"
  acc_node :: "extension \<Rightarrow> bool"

definition resolved_by :: "registry \<Rightarrow> acceptance" where
  "resolved_by reg = \<lparr>acc_expr = resolves (reg_exprs reg), acc_node = resolves (reg_nodes reg)\<rparr>"

definition accept_all :: acceptance where
  "accept_all = \<lparr>acc_expr = \<lambda>_. True, acc_node = \<lambda>_. True\<rparr>"

definition nodes_ok_with :: "(node \<Rightarrow> bool) \<Rightarrow> node list \<Rightarrow> bool" where
  "nodes_ok_with ok ns = (length ns \<le> MAX_NODES \<and> list_all ok ns)"

lemma nodes_ok_with_cong [fundef_cong]:
  "xs = ys \<Longrightarrow> (\<And>x. x \<in> set ys \<Longrightarrow> f x = g x) \<Longrightarrow> nodes_ok_with f xs = nodes_ok_with g ys"
  by (auto simp: nodes_ok_with_def list_all_iff)

fun node_ok :: "acceptance \<Rightarrow> nat \<Rightarrow> node \<Rightarrow> bool" where
  "node_ok acc 0 n = False"
| "node_ok acc (Suc k) (N_Let name v) = (is_str name \<and> expr_ok (acc_expr acc) k v)"
| "node_ok acc (Suc k) (N_Assign name v) = (is_str name \<and> expr_ok (acc_expr acc) k v)"
| "node_ok acc (Suc k) (N_Store b i v) =
     (is_str b \<and> expr_ok (acc_expr acc) k i \<and> expr_ok (acc_expr acc) k v)"
| "node_ok acc (Suc k) (N_If c t f) =
     (expr_ok (acc_expr acc) k c \<and> nodes_ok_with (node_ok acc k) t
      \<and> nodes_ok_with (node_ok acc k) f)"
| "node_ok acc (Suc k) (N_Loop var from to body) =
     (is_str var \<and> expr_ok (acc_expr acc) k from \<and> expr_ok (acc_expr acc) k to
      \<and> nodes_ok_with (node_ok acc k) body)"
| "node_ok acc (Suc k) (N_Block body) = nodes_ok_with (node_ok acc k) body"
| "node_ok acc (Suc k) (N_IndirectDispatch b _) = is_str b"
| "node_ok acc (Suc k) (N_AsyncLoad s d off n t) =
     (is_str s \<and> is_str d \<and> expr_ok (acc_expr acc) k off \<and> expr_ok (acc_expr acc) k n \<and> is_str t)"
| "node_ok acc (Suc k) (N_AsyncStore s d off n t) =
     (is_str s \<and> is_str d \<and> expr_ok (acc_expr acc) k off \<and> expr_ok (acc_expr acc) k n \<and> is_str t)"
| "node_ok acc (Suc k) (N_AsyncWait t) = is_str t"
| "node_ok acc (Suc k) (N_Trap a t) = (expr_ok (acc_expr acc) k a \<and> is_str t)"
| "node_ok acc (Suc k) (N_Resume t) = is_str t"
| "node_ok acc (Suc k) (N_AllReduce b _ _) = is_str b"
| "node_ok acc (Suc k) (N_AllGather i q _) = (is_str i \<and> is_str q)"
| "node_ok acc (Suc k) (N_ReduceScatter i q _ _) = (is_str i \<and> is_str q)"
| "node_ok acc (Suc k) (N_Broadcast b _ _) = is_str b"
| "node_ok acc (Suc k) (N_Region g s body) =
     (is_str g \<and> pred_option is_str s \<and> nodes_ok_with (node_ok acc k) body)"
| "node_ok acc (Suc k) (N_Opaque ext) = acc_node acc ext"
| "node_ok acc (Suc k) n = True"

subsection \<open>Decoding reads back the encoding\<close>

lemma acc_simps [simp]:
  "acc_expr (resolved_by reg) = resolves (reg_exprs reg)"
  "acc_node (resolved_by reg) = resolves (reg_nodes reg)"
  "acc_expr accept_all = (\<lambda>_. True)" "acc_node accept_all = (\<lambda>_. True)"
  by (simp_all add: resolved_by_def accept_all_def)

lemma wrote_put_expr:
  "expr_ok (resolves reg) k e \<Longrightarrow> wrote (\<lambda>out. put_expr out e) (rd_expr reg k) (canonical_expr e)"
  by (simp add: put_expr_enc wrote_expr)

lemma wrote_u64: "wrote (\<lambda>out. Inr (out @ u64_to_le_bytes w)) rd_u64 w"
  by (auto simp: wrote_def intro: reads_u64)

lemma wrote_collective_op:
  "wrote (\<lambda>out. Inr (put_u8 out (collective_op_builtin_wire_tag op))) rd_collective_op op"
  unfolding rd_collective_op_def by (intro wrote_u8 wrote_nil reads_lift) simp

lemma wrote_source_region:
  "pred_option is_str s \<Longrightarrow>
   wrote (\<lambda>out. case s of Some name \<Rightarrow> put_string (put_u8 out 1) name | None \<Rightarrow> Inr (put_u8 out 0))
     rd_source_region s"
  unfolding rd_source_region_def
  by (cases s) (auto intro!: wrote_u8 wrote_nil[OF reads_ret] wrote_last[OF wrote_string reads_ret])

lemma wrote_nodes_with:
  assumes "nodes_ok_with ok ns"
    and "\<And>n. ok n \<Longrightarrow> wrote (\<lambda>out. put out n) m (norm n)"
  shows "wrote (\<lambda>out. put_nodes_with put out ns) (rd_nodes_with m) (map norm ns)"
  using assms unfolding put_nodes_with_def rd_nodes_with_def nodes_ok_with_def
  by (auto simp: list_all_iff intro!: wrote_bind[OF wrote_len_u32] wrote_put_all)

lemmas wrote_node_steps =
  wrote_steps wrote_last[OF wrote_u64 reads_ret] wrote_seq_u8[OF wrote_collective_op]
  wrote_last[OF wrote_memory_ordering reads_ret] wrote_bind[OF wrote_source_region]

lemmas put_node_unfold =
  put_node.simps rd_node.simps canonical_node.simps node_inner_def node_ok.simps
  rbind_assoc rbind_Inr

lemma wrote_node:
  "node_ok (resolved_by reg) k n \<Longrightarrow> wrote (\<lambda>out. put_node out n) (rd_node reg k) (canonical_node n)"
proof (induction k arbitrary: n)
  case (Suc k)
  have nodes: "wrote (\<lambda>out. put_nodes_with put_node out ns) (rd_nodes_with (rd_node reg k))
      (map canonical_node ns)" if "nodes_ok_with (node_ok (resolved_by reg) k) ns" for ns
    using that by (rule wrote_nodes_with) (rule Suc.IH)
  note sub = wrote_bind[OF wrote_put_expr] wrote_last[OF wrote_put_expr reads_ret]
    wrote_bind[OF nodes] wrote_last[OF nodes reads_ret]
  show ?case
  proof (cases "\<exists>ext. n = N_Opaque ext")
    case True
    with Suc.prems show ?thesis
      by (elim exE; simp only: put_node_unfold put_opaque_node_def)
         (rule wrote_u8, simp add: node_arm_def, rule wrote_opaque_payload,
          simp_all add: resolves_def decode_opaque_node_def)
  next
    case False
    with Suc.prems show ?thesis
      by (cases n; simp only: put_node_unfold)
         (simp_all, (rule wrote_node_steps sub | simp add: node_arm_def)+)
  qed
qed simp

subsection \<open>What the decoder returns\<close>

lemma yields_nodes_with:
  assumes "yields m P"
  shows "yields (rd_nodes_with m) (nodes_ok_with P)"
  unfolding rd_nodes_with_def
proof (rule yields_bind[OF yields_bounded_len])
  fix n assume "n \<le> MAX_NODES"
  with yields_repeat[OF assms, of n] show "yields (rd_repeat n m) (nodes_ok_with P)"
    by (auto simp: yields_def nodes_ok_with_def)
qed

lemma yields_source_region: "yields rd_source_region (pred_option is_str)"
  unfolding rd_source_region_def
  by (rule yields_bind_any, intro yields_if)
     (auto intro!: yields_ret yields_fail yields_bind[OF yields_string])

lemma yields_node: "yields (rd_node reg k) (node_ok accept_all k)"
proof (induction k)
  case (Suc k)
  note binds = yields_bind[OF yields_expr] yields_bind[OF yields_nodes_with[OF Suc]]
    yields_bind[OF yields_string] yields_bind[OF yields_source_region]
  have "yields (node_arm (reg_nodes reg) (rd_expr (reg_exprs reg) k) (rd_node reg k) tag)
      (node_ok accept_all (Suc k))" for tag
    unfolding node_arm_def
    by (rule yields_if binds | rule yields_bind_any | rule yields_ret yields_fail yields_lift
        | auto simp: decode_opaque_node_def rbind_eq_Inr)+
  then show ?case unfolding rd_node.simps node_inner_def by (rule yields_bind_any)
qed (simp add: yields_fail)

lemma safe_node [safe_intros]: "safe_parser (rd_node reg k)"
proof (induction k)
  case (Suc k)
  then show ?case
    unfolding rd_node.simps node_inner_def node_arm_def rd_nodes_with_def rd_source_region_def
      rd_memory_ordering_def rd_collective_op_def
    by (intro safe_intros)
qed (simp add: safe_intros)

text \<open>Canonicalisation changes nothing the encoder looks at.\<close>

lemma put_nodes_with_map:
  "(\<And>x out. x \<in> set xs \<Longrightarrow> f out (g x) = f out x) \<Longrightarrow>
   put_nodes_with f out (map g xs) = put_nodes_with f out xs"
  by (simp add: put_nodes_with_def put_all_map cong: rbind_cong)

lemma put_canonical_node: "put_node out (canonical_node n) = put_node out n"
  by (induction n arbitrary: out)
     (simp_all add: put_expr_enc enc_canonical_expr put_nodes_with_map cong: rbind_cong)

subsection \<open>Properties\<close>

text \<open>
  C7. Statements round-trip.  If encoding succeeds for a node within the decoder's limits
  whose extensions are registered, it only appended bytes, and decoding where they start
  returns the node with canonical floating-point literals and stops exactly behind them.
  A node and its canonical form have the same encoding.
\<close>

theorem node_roundtrip:
  assumes "put_node pre n = Inr out" and "node_ok (resolved_by reg) MAX_DECODE_DEPTH n"
    and "length (out @ post) < usize_bound"
  shows "rd_node reg MAX_DECODE_DEPTH \<lparr>rd_bytes = out @ post, rd_pos = length pre\<rparr>
      = Inr (canonical_node n, \<lparr>rd_bytes = out @ post, rd_pos = length out\<rparr>)
    \<and> take (length pre) out = pre \<and> put_node pre (canonical_node n) = Inr out"
proof -
  obtain bs where bs: "out = pre @ bs" "reads (rd_node reg MAX_DECODE_DEPTH) bs (canonical_node n)"
    using wroteD[OF wrote_node[OF assms(2)]] assms(1) by auto
  with assms readsD[OF bs(2), of pre post] show ?thesis
    by (simp add: rd_at_def put_canonical_node)
qed

theorem node_roundtrip_witness:
  "let n = N_Region ''g'' (Some ''s'') [N_Barrier MO_SeqCst, N_Return];
       out = [1, 11, 1, 0, 0, 0, 0x67, 1, 1, 0, 0, 0, 0x73, 2, 0, 0, 0, 7, wire_tag MO_SeqCst, 5] in
   put_node [1] n = Inr out
   \<and> rd_node \<lparr>reg_exprs = [], reg_nodes = []\<rparr> MAX_DECODE_DEPTH \<lparr>rd_bytes = out @ [5], rd_pos = 1\<rparr>
     = Inr (n, \<lparr>rd_bytes = out @ [5], rd_pos = 20\<rparr>)"
proof -
  let ?n = "N_Region ''g'' (Some ''s'') [N_Barrier MO_SeqCst, N_Return]"
  let ?out = "[1, 11, 1, 0, 0, 0, 0x67, 1, 1, 0, 0, 0, 0x73, 2, 0, 0, 0, 7, wire_tag MO_SeqCst, 5]"
  have put: "put_node [1] ?n = Inr ?out"
    by (simp add: put_simps put_nodes_with_def put_string_def put_len_u32_def u32_to_le_bytes_def
        as_bytes_def MAX_STRING_LEN_def)
  have ok: "node_ok (resolved_by \<lparr>reg_exprs = [], reg_nodes = []\<rparr>) MAX_DECODE_DEPTH ?n"
    by (simp add: MAX_DECODE_DEPTH_Suc MAX_NODES_def nodes_ok_with_def is_str_def as_bytes_def
        del: Suc_numeral)
  show ?thesis using node_roundtrip[OF put ok, of "[5]"] put by simp
qed

text \<open>
  C8. Whatever the bytes, a decoded node is within the limits (statement and expression
  nesting together at most 64 levels, at most \<open>MAX_NODES\<close> nodes per list, valid UTF-8
  names), and the cursor has only moved forward, inside the buffer.
\<close>

theorem rd_node_limits:
  assumes "rd_node reg MAX_DECODE_DEPTH r = Inr (n, r')"
  shows "node_ok accept_all MAX_DECODE_DEPTH n \<and> advanced r r'"
  using yieldsD[OF yields_node assms] safe_advanced[OF safe_node assms] by simp

theorem rd_node_limits_witness:
  "node_ok accept_all MAX_DECODE_DEPTH N_Return
   \<and> advanced \<lparr>rd_bytes = [5], rd_pos = 0\<rparr> \<lparr>rd_bytes = [5], rd_pos = 1\<rparr>"
proof -
  have "rd_node \<lparr>reg_exprs = [], reg_nodes = []\<rparr> MAX_DECODE_DEPTH \<lparr>rd_bytes = [5], rd_pos = 0\<rparr>
      = Inr (N_Return, \<lparr>rd_bytes = [5], rd_pos = 1\<rparr>)"
    by (simp add: MAX_DECODE_DEPTH_Suc node_inner_def node_arm_def rd_u8_def rd_bind_def
        rd_ret_def rd_take_def del: Suc_numeral)
  then show ?thesis by (rule rd_node_limits)
qed

end
