(* ===== verification/Wire_Program.thy ===== *)
theory Wire_Program
  imports Output_Set Wire_Node
begin

text \<open>
  The program envelope: \<open>to_wire\<close> and \<open>from_wire\<close> (\<open>serial/wire/encode/to_wire.rs\<close>,
  \<open>serial/wire/decode/from_wire.rs\<close>, the invariants of \<open>decode/invariants.rs\<close> and the entry
  points of \<open>serial/wire.rs\<close>).  A blob is magic, version, flags, a 32-byte digest of the body
  and the body: a metadata record, one record per entry node, the memory-region table and
  the output set.

  The digest function (the crate \<open>blake3\<close>) is the argument \<open>blake3\<close>; the only fact used of it
  is that digests have 32 bytes.
\<close>

subsection \<open>Encoding\<close>

definition FLAG_COMPRESSED :: u16 where "FLAG_COMPRESSED = 1"
definition FLAG_SEALED :: u16 where "FLAG_SEALED = push_bit 1 1"
definition FLAG_OPAQUE_ENDIAN_FIXED :: u16 where "FLAG_OPAQUE_ENDIAN_FIXED = push_bit 2 1"

definition METADATA_OP_ID :: string where "METADATA_OP_ID = ''vyre.program.metadata''"
definition HEADER_LEN :: nat where "HEADER_LEN = 4 + 2 + 2 + 32"
definition METADATA_MARKER :: bytes where "METADATA_MARKER = as_bytes ''VYRE-META''"

fun workgroup_axes :: "u32 \<times> u32 \<times> u32 \<Rightarrow> u32 list" where
  "workgroup_axes (x, y, z) = [x, y, z]"

text \<open>
  The texts of shape errors are assembled in an \<open>ArrayString\<close> of 256 bytes, whose \<open>push_str\<close> panics
  when the text does not fit.
\<close>

definition array_string :: "string list \<Rightarrow> encode_error \<Rightarrow> encode_error" where
  "array_string parts e = (if 256 < length (concat parts) then EE_Panic else e)"

text \<open>The byte size a declared output range is checked against.\<close>

definition output_full_size :: "buffer_decl \<Rightarrow> encode_error + u64" where
  "output_full_size b =
     (if bd_count b = 0 then Inr (-1)
      else rbind (ok_or (size_bytes (bd_element b)) (array_string
             [''Fix: static output buffer `'', bd_name b,
              ''` uses a runtime-sized element type. Lower it to a fixed-width GPU storage type before wire encoding.'']
             (EE_RangeElement (bd_name b)))) (\<lambda>n.
           ok_or (usize_checked_mul (ucast (bd_count b)) n) (array_string
             [''Fix: output buffer `'', bd_name b,
              ''` byte size overflows u64 during wire encoding. Split the buffer before serialization.'']
             (EE_RangeOverflow (bd_name b)))))"

definition reject_buffer_shape :: "buffer_decl \<Rightarrow> encode_error + unit" where
  "reject_buffer_shape b =
     (if bd_count b = 0 \<and> bd_access b = BA_Workgroup then
        Inl (array_string
          [''Fix: workgroup buffer `'', bd_name b,
           ''` has count 0. Encode only positive-length shared-memory buffers.'']
          (EE_WorkgroupCount (bd_name b)))
      else if bd_count b = 0 \<and> bd_pipeline_live_out b then
        Inl (array_string
          [''Fix: live-out buffer `'', bd_name b,
           ''` has count 0. Encode only positive-length externally-visible buffers.'']
          (EE_LiveOutCount (bd_name b)))
      else case bd_output_byte_range b of
        None \<Rightarrow> Inr ()
      | Some (range_start, range_end) \<Rightarrow> rbind (output_full_size b) (\<lambda>full_size.
          if range_start > range_end then
            Inl (array_string
              [''Fix: buffer `'', bd_name b, ''` output byte range has start ('', decimal (unat range_start),
               '') > end ('', decimal (unat range_end), ''). Encode only valid ranges.'']
              (EE_RangeOrder (bd_name b)))
          else if range_end > full_size \<and> full_size \<noteq> -1 then
            Inl (array_string
              [''Fix: buffer `'', bd_name b, ''` output byte range end ('', decimal (unat range_end),
               '') exceeds full buffer size ('', decimal (unat full_size),
               ''). Encode only ranges that fit within the declared buffer size.'']
              (EE_RangeEnd (bd_name b)))
          else Inr ()))"

fun reject_buffer_shapes :: "buffer_decl list \<Rightarrow> encode_error + unit" where
  "reject_buffer_shapes [] = Inr ()"
| "reject_buffer_shapes (b # bs) = rbind (reject_buffer_shape b) (\<lambda>_. reject_buffer_shapes bs)"

definition reject_non_roundtrippable_shapes :: "program \<Rightarrow> buffer_decl list \<Rightarrow> encode_error + unit" where
  "reject_non_roundtrippable_shapes p buffers =
     (case first_zero_axis 0 (workgroup_axes (pg_workgroup_size p)) of
        Some axis \<Rightarrow> Inl (EE_WorkgroupSize axis)
      | None \<Rightarrow> reject_buffer_shapes buffers)"

definition put_bool :: "bytes \<Rightarrow> bool \<Rightarrow> bytes" where
  "put_bool out b = put_u8 out (if b then 1 else 0)"

fun put_output_range :: "bytes \<Rightarrow> (usize \<times> usize) option \<Rightarrow> bytes" where
  "put_output_range out (Some (range_start, range_end)) =
     put_leb_u64 (put_leb_u64 (put_u8 out 1) range_start) range_end"
| "put_output_range out None = put_u8 out 0"

definition put_buffer_metadata :: "bytes \<Rightarrow> buffer_decl \<Rightarrow> encode_error + bytes" where
  "put_buffer_metadata out b = rbind (put_string out (bd_name b)) (\<lambda>out.
     let out = put_u32 out (bd_binding b);
         out = put_u32 out (bd_count b);
         out = put_bool out (bd_is_output b);
         out = put_bool out (bd_pipeline_live_out b);
         out = put_output_range out (bd_output_byte_range b)
     in Inr (put_hints_payload out (bd_hints b)))"

definition put_metadata_payload :: "bytes \<Rightarrow> program \<Rightarrow> buffer_decl list \<Rightarrow> encode_error + bytes" where
  "put_metadata_payload out p buffers =
     rbind (case pg_entry_op_id p of
              Some op_id \<Rightarrow> put_string (put_u8 (out @ METADATA_MARKER) 1) op_id
            | None \<Rightarrow> Inr (put_u8 (out @ METADATA_MARKER) 0)) (\<lambda>out.
       let out = put_u32s out (workgroup_axes (pg_workgroup_size p));
           out = put_bool out (pg_non_composable p)
       in rbind (u64_of_len (length buffers)) (\<lambda>n.
            put_all put_buffer_metadata (put_leb_u64 out n) buffers))"

definition put_node_record :: "bytes \<Rightarrow> string \<Rightarrow> bytes \<Rightarrow> u32 list \<Rightarrow> encode_error + bytes" where
  "put_node_record out op_id payload operands =
     rbind (put_leb_str out op_id) (\<lambda>out. rbind (put_payload out payload) (\<lambda>out.
       rbind (u64_of_len (length operands)) (\<lambda>n.
         put_all (\<lambda>out operand. Inr (put_leb_u32 out operand)) (put_leb_u64 out n) operands)))"

definition put_entry_node :: "bytes \<Rightarrow> node \<Rightarrow> encode_error + bytes" where
  "put_entry_node out n =
     rbind (put_node [] n) (\<lambda>payload. put_node_record out (node_op_id n) payload [])"

definition put_nodes_section :: "bytes \<Rightarrow> program \<Rightarrow> buffer_decl list \<Rightarrow> encode_error + bytes" where
  "put_nodes_section out p buffers =
     rbind (u64_of_len (length (pg_entry p) + 1)) (\<lambda>n.
       rbind (put_metadata_payload [] p buffers) (\<lambda>payload.
         rbind (put_node_record (put_leb_u64 out n) METADATA_OP_ID payload []) (\<lambda>out.
           put_all put_entry_node out (pg_entry p))))"

definition put_body :: "program \<Rightarrow> buffer_decl list \<Rightarrow> encode_error + bytes" where
  "put_body p buffers =
     rbind (put_nodes_section [] p buffers) (\<lambda>body.
       rbind (put_memory_regions body buffers) (\<lambda>body. encode_from_buffers_into body buffers))"

definition to_wire_with_buffer_order_into ::
    "(bytes \<Rightarrow> bytes) \<Rightarrow> program \<Rightarrow> buffer_decl list \<Rightarrow> bytes \<Rightarrow> encode_error + bytes" where
  "to_wire_with_buffer_order_into blake3 p buffers dst =
     rbind (reject_non_roundtrippable_shapes p buffers) (\<lambda>_. rbind (put_body p buffers) (\<lambda>body.
       Inr (dst @ MAGIC @ u16_to_le_bytes WIRE_FORMAT_VERSION
              @ u16_to_le_bytes FLAG_OPAQUE_ENDIAN_FIXED @ blake3 body @ body)))"

definition to_wire :: "(bytes \<Rightarrow> bytes) \<Rightarrow> program \<Rightarrow> encode_error + bytes" where
  "to_wire blake3 p = to_wire_with_buffer_order_into blake3 p (pg_buffers p) []"

definition to_wire_into :: "(bytes \<Rightarrow> bytes) \<Rightarrow> program \<Rightarrow> bytes \<Rightarrow> encode_error + bytes" where
  "to_wire_into blake3 p dst = to_wire_with_buffer_order_into blake3 p (pg_buffers p) dst"

definition pg_to_bytes :: "(bytes \<Rightarrow> bytes) \<Rightarrow> program \<Rightarrow> bytes" where
  "pg_to_bytes blake3 p = (case to_wire blake3 p of Inr bytes \<Rightarrow> bytes | Inl _ \<Rightarrow> [])"

subsection \<open>Decoding\<close>

definition validate_workgroup_size :: "u32 \<times> u32 \<times> u32 \<Rightarrow> decode_error + unit" where
  "validate_workgroup_size workgroup_size =
     (case first_zero_axis 0 (workgroup_axes workgroup_size) of
        Some axis \<Rightarrow> Inl (DE_Program (PD_WorkgroupSize axis))
      | None \<Rightarrow> Inr ())"

definition validate_output_range_order :: "usize \<Rightarrow> usize \<Rightarrow> decode_error + unit" where
  "validate_output_range_order range_start range_end =
     (if range_start > range_end then Inl (DE_Program (PD_RangeOrder range_start range_end))
      else Inr ())"

record decoded_metadata =
  dm_entry :: "node list"
  dm_buffers :: "decoded_buffer list"
  dm_non_composable_with_self :: bool

text \<open>A node record; every operand must name an earlier node.\<close>

definition read_operand :: "nat \<Rightarrow> u32 parser" where
  "read_operand node_index = rd_bind leb_u32 (\<lambda>operand.
     if unat operand \<ge> node_index then rd_fail (DE_Program (PD_OperandOrder operand node_index))
     else rd_ret operand)"

definition read_node_record :: "nat \<Rightarrow> (string \<times> bytes \<times> u32 list) parser" where
  "read_node_record node_index = rd_bind leb_string (\<lambda>op_id.
     rd_bind (leb_len (usize_bound - 1) ''node payload length'') (\<lambda>payload_len.
       rd_bind (rd_take payload_len) (\<lambda>payload.
         rd_bind (leb_len MAX_NODES ''operand count'') (\<lambda>operand_count.
           rd_bind (rd_repeat operand_count (read_operand node_index)) (\<lambda>operands.
             rd_ret (op_id, payload, operands))))))"

definition read_entry_op_id :: "string option parser" where
  "read_entry_op_id = rd_bind rd_u8 (\<lambda>tag.
     if tag = 0 then rd_ret None
     else if tag = 1 then rd_bind rd_string (\<lambda>op_id. rd_ret (Some op_id))
     else rd_fail (DE_Program (PD_EntryOpIdTag tag)))"

definition read_workgroup_size :: "(u32 \<times> u32 \<times> u32) parser" where
  "read_workgroup_size = rd_bind rd_u32 (\<lambda>x. rd_bind rd_u32 (\<lambda>y. rd_bind rd_u32 (\<lambda>z.
     rd_bind (rd_lift (validate_workgroup_size (x, y, z))) (\<lambda>_. rd_ret (x, y, z)))))"

definition read_non_composable :: "bool parser" where
  "read_non_composable = rd_bind rd_u8 (\<lambda>tag.
     if tag = 0 then rd_ret False
     else if tag = 1 then rd_ret True
     else rd_fail (DE_Program (PD_NonComposable tag)))"

definition read_output_range :: "(usize \<times> usize) option parser" where
  "read_output_range = rd_bind rd_u8 (\<lambda>tag.
     if tag = 0 then rd_ret None
     else if tag = 1 then rd_bind leb_u64 (\<lambda>range_start. rd_bind leb_u64 (\<lambda>range_end.
       rd_bind (rd_lift (validate_output_range_order range_start range_end)) (\<lambda>_.
         rd_ret (Some (range_start, range_end)))))
     else rd_fail (DE_Program (PD_RangeTag tag)))"

definition read_buffer_metadata :: "decoded_buffer parser" where
  "read_buffer_metadata = rd_bind rd_string (\<lambda>name. rd_bind rd_u32 (\<lambda>binding.
     rd_bind rd_u32 (\<lambda>count. rd_bind rd_u8 (\<lambda>is_output. rd_bind rd_u8 (\<lambda>live_out.
       if count = 0 \<and> is_output \<noteq> 0 then rd_fail (DE_Program (PD_OutputCount name))
       else if count = 0 \<and> live_out \<noteq> 0 then rd_fail (DE_Program (PD_LiveOutCount name))
       else rd_bind read_output_range (\<lambda>output_byte_range. rd_bind read_hints (\<lambda>hints.
         rd_ret \<lparr>db_name = name, db_binding = binding, db_access = BA_ReadOnly,
                 db_kind = MK_Readonly, db_element = DT_U32, db_count = count,
                 db_is_output = (is_output \<noteq> 0), db_pipeline_live_out = (live_out \<noteq> 0),
                 db_output_byte_range = output_byte_range, db_hints = hints,
                 db_bytes_extraction = False\<rparr>)))))))"

type_synonym metadata_result = "string option \<times> (u32 \<times> u32 \<times> u32) \<times> decoded_metadata"

definition metadata_fields :: "metadata_result parser" where
  "metadata_fields = rd_bind (rd_take 9) (\<lambda>marker.
     if marker \<noteq> METADATA_MARKER then rd_fail (DE_Program PD_MetadataMarker)
     else rd_bind read_entry_op_id (\<lambda>entry_op_id.
       rd_bind read_workgroup_size (\<lambda>workgroup_size.
         rd_bind read_non_composable (\<lambda>non_composable.
           rd_bind (leb_len MAX_BUFFERS ''metadata buffer count'') (\<lambda>buffer_count.
             rd_bind (rd_repeat buffer_count read_buffer_metadata) (\<lambda>buffers.
               rd_ret (entry_op_id, workgroup_size,
                 \<lparr>dm_entry = [], dm_buffers = buffers,
                  dm_non_composable_with_self = non_composable\<rparr>)))))))"

definition read_metadata :: "bytes \<Rightarrow> metadata_result parser" where
  "read_metadata payload = rd_within (DE_Program PD_MetadataTrailing) metadata_fields payload"

definition read_entry_node :: "registry \<Rightarrow> nat \<Rightarrow> node parser" where
  "read_entry_node reg node_index = rd_bind (read_node_record node_index) (\<lambda>(op_id, payload, operands).
     if operands \<noteq> [] then rd_fail (DE_Program (PD_NodeOperands node_index))
     else rd_bind (rd_within (DE_Program (PD_NodeTrailing node_index))
                    (rd_node reg MAX_DECODE_DEPTH) payload) (\<lambda>n.
       if node_op_id n \<noteq> op_id then rd_fail (DE_Program (PD_NodeOpId node_index)) else rd_ret n))"

text \<open>The loop \<open>for node_index in 1..count\<close>, with \<open>todo\<close> iterations left.\<close>

fun read_entry_nodes :: "registry \<Rightarrow> nat \<Rightarrow> nat \<Rightarrow> node list parser" where
  "read_entry_nodes reg node_index 0 = rd_ret []"
| "read_entry_nodes reg node_index (Suc todo) = rd_bind (read_entry_node reg node_index) (\<lambda>n.
     rd_bind (read_entry_nodes reg (Suc node_index) todo) (\<lambda>ns. rd_ret (n # ns)))"

definition read_nodes :: "registry \<Rightarrow> metadata_result parser" where
  "read_nodes reg = rd_bind (leb_len MAX_NODES ''node count'') (\<lambda>count.
     if count = 0 then rd_fail (DE_Program PD_MissingMetadata)
     else rd_bind (read_node_record 0) (\<lambda>(op_id, payload, operands).
       if op_id \<noteq> METADATA_OP_ID then rd_fail (DE_Program (PD_FirstNotMetadata op_id))
       else if operands \<noteq> [] then rd_fail (DE_Program PD_MetadataOperands)
       else rd_bind (read_metadata payload) (\<lambda>(entry_op_id, workgroup_size, metadata).
         rd_bind (read_entry_nodes reg 1 (count - 1)) (\<lambda>entry.
           rd_ret (entry_op_id, workgroup_size, metadata\<lparr>dm_entry := entry\<rparr>)))))"

definition decl_of_decoded :: "decoded_buffer \<Rightarrow> buffer_decl" where
  "decl_of_decoded b =
     \<lparr>bd_name = db_name b, bd_binding = db_binding b, bd_access = db_access b,
      bd_kind = db_kind b, bd_element = db_element b, bd_count = db_count b,
      bd_is_output = db_is_output b, bd_pipeline_live_out = db_pipeline_live_out b,
      bd_output_byte_range = db_output_byte_range b, bd_hints = db_hints b,
      bd_bytes_extraction = db_bytes_extraction b, bd_linear_type = LT_Unrestricted,
      bd_shape_predicate = None\<rparr>"

definition read_body :: "registry \<Rightarrow> program parser" where
  "read_body reg = rd_bind (read_nodes reg) (\<lambda>(entry_op_id, workgroup_size, metadata).
     rd_bind (read_memory_regions (dm_buffers metadata)) (\<lambda>buffers.
       rd_bind (os_decode_from buffers) (\<lambda>output_set.
         rd_ret ((with_non_composable_with_self
           (with_optional_entry_op_id
              (new_raw (map decl_of_decoded buffers) workgroup_size (dm_entry metadata)) entry_op_id)
           (dm_non_composable_with_self metadata))\<lparr>pg_output_index := Some output_set\<rparr>))))"

definition from_wire :: "(bytes \<Rightarrow> bytes) \<Rightarrow> registry \<Rightarrow> bytes \<Rightarrow> decode_error + program" where
  "from_wire blake3 reg bytes =
     (if length bytes > MAX_PROGRAM_BYTES then Inl (DE_Program (PD_BlobTooLarge (length bytes)))
      else rbind (expect_magic (rd_start bytes)) (\<lambda>_.
        if length bytes < length MAGIC \<or> take (length MAGIC) bytes \<noteq> MAGIC then Inl DE_Magic
        else if length bytes < HEADER_LEN
        then Inl (DE_Program (PD_HeaderTruncated (length bytes)))
        else let version = u16_from_le_bytes (bytes ! 4) (bytes ! 5) in
          if version \<noteq> WIRE_FORMAT_VERSION then Inl (DE_Program (PD_VersionMismatch version))
          else let flags = u16_from_le_bytes (bytes ! 6) (bytes ! 7);
                   reserved = flags AND NOT (FLAG_COMPRESSED OR FLAG_SEALED OR FLAG_OPAQUE_ENDIAN_FIXED)
               in if reserved \<noteq> 0 \<or> flags AND (FLAG_COMPRESSED OR FLAG_SEALED) \<noteq> 0
                  then Inl (DE_Program (PD_Flags flags))
                  else if flags AND FLAG_OPAQUE_ENDIAN_FIXED = 0 then Inl (DE_Program PD_EndianFlag)
                  else let body = drop HEADER_LEN bytes in
                    if blake3 body \<noteq> take 32 (drop 8 bytes) then Inl (DE_Program PD_Integrity)
                    else case read_body reg (rd_start body) of
                        Inl e \<Rightarrow> Inl e
                      | Inr (p, r) \<Rightarrow> if rd_at_end r then Inr p else Inl (DE_Program PD_TrailingBytes)))"

text \<open>\<open>Program::from_wire\<close> reports a version mismatch before anything else is decoded.\<close>

definition program_from_wire :: "(bytes \<Rightarrow> bytes) \<Rightarrow> registry \<Rightarrow> bytes \<Rightarrow> decode_error + program" where
  "program_from_wire blake3 reg bytes =
     (if length bytes > MAX_PROGRAM_BYTES then Inl (DE_Program (PD_BlobTooLarge (length bytes)))
      else if length bytes \<ge> length MAGIC + 2 \<and> take (length MAGIC) bytes = MAGIC
              \<and> u16_from_le_bytes (bytes ! 4) (bytes ! 5) \<noteq> WIRE_FORMAT_VERSION
      then Inl (DE_Program (PD_VersionMismatch (u16_from_le_bytes (bytes ! 4) (bytes ! 5))))
      else from_wire blake3 reg bytes)"

subsection \<open>Reading back the metadata record\<close>

text \<open>What the metadata record alone says of a buffer.\<close>

definition metadata_of :: "buffer_decl \<Rightarrow> decoded_buffer" where
  "metadata_of b =
     \<lparr>db_name = bd_name b, db_binding = bd_binding b, db_access = BA_ReadOnly,
      db_kind = MK_Readonly, db_element = DT_U32, db_count = bd_count b,
      db_is_output = bd_is_output b, db_pipeline_live_out = bd_pipeline_live_out b,
      db_output_byte_range = bd_output_byte_range b, db_hints = bd_hints b,
      db_bytes_extraction = False\<rparr>"

text \<open>
  What the decoder demands beyond the encoder's own checks: an output buffer has a positive
  count, a range on a runtime-sized buffer is empty at zero over a fixed-width element, and
  the element type has a dense form.
\<close>

definition buffer_ok :: "buffer_decl \<Rightarrow> bool" where
  "buffer_ok b = (is_str (bd_name b) \<and> dense_ok (bd_element b)
     \<and> (bd_count b = 0 \<longrightarrow> \<not> bd_is_output b \<and>
         (case bd_output_byte_range b of
            None \<Rightarrow> True
          | Some (_, range_end) \<Rightarrow> range_end = 0 \<and> size_bytes (bd_element b) \<noteq> None)))"

definition header_bytes :: "bytes \<Rightarrow> bytes" where
  "header_bytes digest =
     MAGIC @ u16_to_le_bytes WIRE_FORMAT_VERSION @ u16_to_le_bytes FLAG_OPAQUE_ENDIAN_FIXED @ digest"

text \<open>Programs within the decoder's limits, with the buffer table in a given order.\<close>

definition program_ok :: "registry \<Rightarrow> program \<Rightarrow> buffer_decl list \<Rightarrow> bool" where
  "program_ok reg p buffers =
     (pred_option is_str (pg_entry_op_id p)
      \<and> length (pg_entry p) < MAX_NODES
      \<and> list_all (node_ok (resolved_by reg) MAX_DECODE_DEPTH) (pg_entry p)
      \<and> length buffers \<le> MAX_BUFFERS
      \<and> list_all buffer_ok buffers)"

text \<open>The program that comes back: refinements the format does not carry are reset.\<close>

definition wire_buffer :: "buffer_decl \<Rightarrow> buffer_decl" where
  "wire_buffer b = b\<lparr>bd_bytes_extraction := False, bd_linear_type := LT_Unrestricted,
     bd_shape_predicate := None\<rparr>"

definition wire_program :: "program \<Rightarrow> buffer_decl list \<Rightarrow> program" where
  "wire_program p buffers =
     \<lparr>pg_entry_op_id = pg_entry_op_id p, pg_buffers = map wire_buffer buffers,
      pg_buffer_index = build_buffer_index (map wire_buffer buffers),
      pg_workgroup_size = pg_workgroup_size p, pg_entry = map canonical_node (pg_entry p),
      pg_output_index = Some (output_indices_from 0 buffers),
      pg_non_composable = pg_non_composable p\<rparr>"

lemma wrote_bool:
  assumes "\<And>t. (t \<noteq> 0) = b \<Longrightarrow> wrote g (k t) v"
  shows "wrote (\<lambda>out. g (put_bool out b)) (rd_bind rd_u8 k) v"
  unfolding put_bool_def by (rule wrote_u8) (simp add: assms)

lemma wrote_output_range:
  assumes "wrote g (k rng) v" "\<And>s e. rng = Some (s, e) \<Longrightarrow> s \<le> e"
  shows "wrote (\<lambda>out. g (put_output_range out rng)) (rd_bind read_output_range k) v"
proof (cases rng)
  case None
  with assms(1) show ?thesis
    by (simp add: read_output_range_def rd_bind_steps) (rule wrote_u8, simp add: rd_bind_steps)
next
  case (Some a)
  obtain s e where a: "a = (s, e)" by (cases a)
  with Some assms(2) have "validate_output_range_order s e = Inr ()"
    by (simp add: validate_output_range_order_def)
  note valid = wrote_lift[OF this]
  from assms(1) show ?thesis unfolding Some a
    by (simp add: read_output_range_def rd_bind_steps)
       (rule wrote_u8 wrote_leb_u64 valid | simp add: rd_bind_steps)+
qed

lemma wrote_buffer_metadata:
  assumes "buffer_ok b" "reject_buffer_shape b = Inr ()"
  shows "wrote (\<lambda>out. put_buffer_metadata out b) read_buffer_metadata (metadata_of b)"
proof -
  have name: "is_str (bd_name b)" using assms(1) by (simp add: buffer_ok_def)
  have zero: "bd_count b = 0 \<Longrightarrow> \<not> bd_is_output b \<and> \<not> bd_pipeline_live_out b"
    using assms by (auto simp: buffer_ok_def reject_buffer_shape_def split: if_splits)
  have order: "s \<le> e" if "bd_output_byte_range b = Some (s, e)" for s e
    using assms(2) that
    by (auto simp: reject_buffer_shape_def result_simps not_less split: if_splits)
  show ?thesis
    unfolding put_buffer_metadata_def read_buffer_metadata_def Let_def
    by (rule wrote_bind[OF wrote_string[OF name]], rule wrote_u32, rule wrote_u32)
       (rule wrote_bool wrote_output_range wrote_hints wrote_ret_eq order
        | use zero in \<open>auto simp: metadata_of_def\<close>)+
qed

lemma node_op_id_canonical [simp]: "node_op_id (canonical_node n) = node_op_id n"
  by (cases n) simp_all

lemma node_op_id_ok:
  assumes "put_node out n = Inr out'" "node_ok (resolved_by reg) (Suc k) n"
  shows "is_str (node_op_id n) \<and> length (node_op_id n) \<le> MAX_STRING_LEN"
proof (cases "\<exists>ext. n = N_Opaque ext")
  case True
  with assms show ?thesis
    by (auto simp: put_opaque_node_def result_simps put_string_Inr resolves_def)
next
  case False
  have "MAX_STRING_LEN = 1048576" by (simp add: MAX_STRING_LEN_def)
  with False show ?thesis by (cases n) (simp_all add: is_str_ascii)
qed

subsection \<open>Records\<close>

lemma wrote_node_record:
  assumes "is_str op_id" "length op_id \<le> MAX_STRING_LEN"
  shows "wrote (\<lambda>out. put_node_record out op_id payload []) (read_node_record i) (op_id, payload, [])"
proof (cases "length payload < usize_bound")
  case True
  have pay: "wrote (\<lambda>out. put_payload out payload) (rd_bind (leb_len (usize_bound - 1) l) rd_take) payload" for l
    using True by (auto simp: wrote_def put_payload_Inr intro!: reads_bind[OF reads_leb_len] reads_take)
  show ?thesis
    unfolding put_node_record_def read_node_record_def rd_bind_steps(1)[symmetric]
  proof (rule wrote_bind[OF leb_str_codec.put_wrote wrote_bind[OF pay]])
    show "wrote (\<lambda>out. rbind (u64_of_len (length [])) (\<lambda>n.
        put_all (\<lambda>out operand. Inr (put_leb_u32 out operand)) (put_leb_u64 out n) []))
      (rd_bind (rd_bind (leb_len MAX_NODES ''operand count'')
        (\<lambda>operand_count. rd_repeat operand_count (read_operand i)))
        (\<lambda>operands. rd_ret (op_id, payload, operands))) (op_id, payload, [])"
      unfolding rd_bind_steps(1) by (rule wrote_leb_len) (simp_all add: rd_bind_steps wrote_ret)
  qed (use assms(1,2) in simp)
next
  case False
  then show ?thesis
    by (auto simp: wrote_def put_node_record_def result_simps put_payload_Inr)
qed

lemma wrote_record:
  assumes "is_str op_id" "length op_id \<le> MAX_STRING_LEN"
    and k: "length payload < usize_bound \<Longrightarrow> wrote g (k (op_id, payload, [])) v"
  shows "wrote (\<lambda>out. rbind (put_node_record out op_id payload []) g)
      (rd_bind (read_node_record i) k) v"
proof (cases "length payload < usize_bound")
  case True
  from wrote_node_record[OF assms(1,2)] k[OF this] show ?thesis by (rule wrote_bind)
next
  case False
  then show ?thesis
    by (auto simp: wrote_def put_node_record_def result_simps put_payload_Inr)
qed

lemma wrote_entry_node:
  assumes ok: "node_ok (resolved_by reg) MAX_DECODE_DEPTH n"
  shows "wrote (\<lambda>out. put_entry_node out n) (read_entry_node reg i) (canonical_node n)"
proof (cases "put_node [] n")
  case (Inr payload)
  then have node: "reads (rd_node reg MAX_DECODE_DEPTH) payload (canonical_node n)"
    using wroteD[OF wrote_node[OF ok]] by fastforce
  have id: "is_str (node_op_id n)" "length (node_op_id n) \<le> MAX_STRING_LEN"
    using node_op_id_ok[OF Inr] ok MAX_DECODE_DEPTH_Suc by metis+
  have "rbind x Inr = x" for x :: "encode_error + bytes" by (cases x) simp_all
  moreover have "wrote (\<lambda>out. rbind (put_node_record out (node_op_id n) payload []) Inr)
      (read_entry_node reg i) (canonical_node n)"
    unfolding read_entry_node_def
    by (rule wrote_record[OF id], rule wrote_nil)
       (simp add: rd_bind_def reads_def reads_within[OF node] rd_ret_def)
  ultimately show ?thesis by (simp add: put_entry_node_def Inr)
qed (simp add: put_entry_node_def wrote_def)

lemma wrote_entry_nodes:
  "list_all (node_ok (resolved_by reg) MAX_DECODE_DEPTH) ns \<Longrightarrow>
   wrote (\<lambda>out. put_all put_entry_node out ns) (read_entry_nodes reg i (length ns))
     (map canonical_node ns)"
proof (induction ns arbitrary: i)
  case (Cons n ns)
  then show ?case
    by simp (rule wrote_bind[OF wrote_entry_node], simp_all add: wrote_last[OF _ reads_ret])
qed (simp add: wrote_ret)

lemma wrote_workgroup_size:
  assumes "wrote g (k wg) v" "first_zero_axis 0 (workgroup_axes wg) = None"
  shows "wrote (\<lambda>out. g (put_u32s out (workgroup_axes wg))) (rd_bind read_workgroup_size k) v"
proof -
  obtain x y z where wg: "wg = (x, y, z)" by (cases wg)
  have valid: "validate_workgroup_size (x, y, z) = Inr ()"
    using assms(2) by (simp add: validate_workgroup_size_def wg)
  show ?thesis using assms(1) unfolding wg read_workgroup_size_def
    by (simp add: rd_bind_steps) (rule wrote_u32 wrote_lift[OF valid] | simp add: rd_bind_steps)+
qed

lemma wrote_entry_op_id:
  "pred_option is_str op \<Longrightarrow>
   wrote (\<lambda>out. case op of Some op_id \<Rightarrow> put_string (put_u8 out 1) op_id | None \<Rightarrow> Inr (put_u8 out 0))
     read_entry_op_id op"
  unfolding read_entry_op_id_def
  by (cases op) (auto intro!: wrote_u8 wrote_nil[OF reads_ret] wrote_last[OF wrote_string reads_ret])

lemma wrote_non_composable:
  "wrote g (k b) v \<Longrightarrow> wrote (\<lambda>out. g (put_bool out b)) (rd_bind read_non_composable k) v"
  unfolding read_non_composable_def put_bool_def rd_bind_steps(1)
  by (rule wrote_u8) (cases b, simp_all add: rd_bind_steps)

lemma reject_buffer_shapes_ok:
  "reject_buffer_shapes bs = Inr () \<longleftrightarrow> list_all (\<lambda>b. reject_buffer_shape b = Inr ()) bs"
  by (induction bs) (auto simp: rbind_eq_Inr)

lemma reject_shapes_ok:
  "reject_non_roundtrippable_shapes p bs = Inr u \<longleftrightarrow>
   first_zero_axis 0 (workgroup_axes (pg_workgroup_size p)) = None
   \<and> list_all (\<lambda>b. reject_buffer_shape b = Inr ()) bs"
  by (auto simp: reject_non_roundtrippable_shapes_def reject_buffer_shapes_ok split: option.splits)

lemma wrote_metadata:
  assumes ok: "list_all buffer_ok bs" "pred_option is_str (pg_entry_op_id p)" "length bs \<le> MAX_BUFFERS"
    and shapes: "reject_non_roundtrippable_shapes p bs = Inr u"
  shows "wrote (\<lambda>out. put_metadata_payload out p bs) metadata_fields
      (pg_entry_op_id p, pg_workgroup_size p,
       \<lparr>dm_entry = [], dm_buffers = map metadata_of bs,
        dm_non_composable_with_self = pg_non_composable p\<rparr>)"
proof -
  have bufs: "wrote (\<lambda>out. put_all put_buffer_metadata out bs)
      (rd_repeat (length bs) read_buffer_metadata) (map metadata_of bs)"
    using ok(1) shapes
    by (intro wrote_put_all wrote_buffer_metadata) (auto simp: reject_shapes_ok list_all_iff)
  have nine: "9 = length METADATA_MARKER" by (simp add: METADATA_MARKER_def)
  show ?thesis
    unfolding put_metadata_payload_def metadata_fields_def Let_def nine
    by (rule wrote_bytes, simp, rule wrote_bind[OF wrote_entry_op_id[OF ok(2)]])
       (rule wrote_workgroup_size wrote_non_composable wrote_leb_len wrote_last[OF bufs reads_ret]
        | use shapes ok(3) in \<open>simp add: reject_shapes_ok\<close>)+
qed

lemma full_size_fits:
  assumes "output_full_size b = Inr full" "range_end \<le> full \<or> full = -1" "bd_count b \<noteq> 0"
    "bd_output_byte_range b = Some (s, range_end)"
  shows "validate_output_range_fits (metadata_of b) (bd_element b) (bd_count b) = Inr ()"
  using assms by (auto simp: output_full_size_def validate_output_range_fits_def metadata_of_def
      result_simps)

lemma region_ok_metadata:
  assumes "buffer_ok b" "reject_buffer_shape b = Inr ()"
  shows "region_ok (metadata_of b) b"
proof -
  have "validate_output_range_fits (metadata_of b) (bd_element b) (bd_count b) = Inr ()"
  proof (cases "bd_output_byte_range b")
    case (Some a)
    obtain s e where a: "a = (s, e)" by (cases a)
    show ?thesis
    proof (cases "bd_count b = 0")
      case True
      with assms(1) Some a show ?thesis
        by (auto simp: buffer_ok_def validate_output_range_fits_def metadata_of_def result_simps
            usize_checked_mul_def)
    next
      case False
      with assms(2) Some a obtain full where "output_full_size b = Inr full" "e \<le> full \<or> full = -1"
        by (auto simp: reject_buffer_shape_def result_simps not_less split: if_splits)
      with False Some a show ?thesis by (intro full_size_fits) auto
    qed
  qed (simp add: validate_output_range_fits_def metadata_of_def)
  with assms show ?thesis
    by (auto simp: region_ok_def validate_region_def buffer_ok_def reject_buffer_shape_def
        metadata_of_def result_simps split: if_splits)
qed

subsection \<open>The body and the envelope\<close>

lemma map2_with_region:
  "map decl_of_decoded (map2 with_region (map metadata_of bs) bs) = map wire_buffer bs"
  "map db_access (map2 with_region (map metadata_of bs) bs) = map bd_access bs"
  by (induction bs) (simp_all add: decl_of_decoded_def with_region_def metadata_of_def wire_buffer_def)

lemma wrote_nodes_section:
  assumes ok: "program_ok reg p bs" and shapes: "reject_non_roundtrippable_shapes p bs = Inr u"
  shows "wrote (\<lambda>out. put_nodes_section out p bs) (read_nodes reg)
      (pg_entry_op_id p, pg_workgroup_size p,
       \<lparr>dm_entry = map canonical_node (pg_entry p), dm_buffers = map metadata_of bs,
        dm_non_composable_with_self = pg_non_composable p\<rparr>)"
proof (cases "put_metadata_payload [] p bs")
  case (Inr payload)
  have "reads metadata_fields payload (pg_entry_op_id p, pg_workgroup_size p,
      \<lparr>dm_entry = [], dm_buffers = map metadata_of bs,
       dm_non_composable_with_self = pg_non_composable p\<rparr>)"
    using wroteD[OF wrote_metadata[OF _ _ _ shapes] Inr] ok by (auto simp: program_ok_def)
  note meta = reads_within[OF this]
  have nodes: "wrote (\<lambda>out. put_all put_entry_node out (pg_entry p))
      (read_entry_nodes reg 1 (length (pg_entry p))) (map canonical_node (pg_entry p))"
    using ok by (intro wrote_entry_nodes) (simp add: program_ok_def)
  have op: "is_str METADATA_OP_ID" "length METADATA_OP_ID \<le> MAX_STRING_LEN"
    by (simp_all add: METADATA_OP_ID_def is_str_ascii MAX_STRING_LEN_def)
  have small: "length (pg_entry p) + 1 \<le> MAX_NODES" using ok by (simp add: program_ok_def)
  show ?thesis
    unfolding put_nodes_section_def read_nodes_def Inr rbind_Inr
    by (rule wrote_leb_len[OF _ small], simp, rule wrote_record[OF op])
       (use wrote_last[OF nodes reads_ret] in \<open>simp add: read_metadata_def rd_bind_const[OF meta]\<close>)
qed (simp add: put_nodes_section_def wrote_def result_simps)

lemma reads_body:
  assumes ok: "program_ok reg p bs" and shapes: "reject_non_roundtrippable_shapes p bs = Inr u"
    and body: "put_body p bs = Inr body"
  shows "reads (read_body reg) body (wire_program p bs)"
proof -
  let ?ds = "map2 with_region (map metadata_of bs) bs"
  have bufs: "length bs \<le> MAX_BUFFERS" using ok by (simp add: program_ok_def)
  then have small: "length bs \<le> 2 ^ 32" by (simp add: MAX_BUFFERS_def)
  have idx: "output_indices_from 0 bs = writable (map bd_access bs)"
    using small by (simp add: output_indices_from_eq)
  have "list_all2 region_ok (map metadata_of bs) bs"
    using ok shapes
    by (auto simp: list_all2_conv_all_nth program_ok_def reject_shapes_ok list_all_length
        intro: region_ok_metadata)
  note regions = wrote_memory_regions[OF this bufs]
  have "wrote (\<lambda>out. encode_from_buffers_into out bs) (os_decode_from ?ds) (writable (map bd_access bs))"
    using wrote_output_set[of bs ?ds] bufs by (simp only: map2_with_region)
  then have "wrote (\<lambda>out. rbind (put_nodes_section out p bs) (\<lambda>body.
      rbind (put_memory_regions body bs) (\<lambda>body. encode_from_buffers_into body bs)))
      (read_body reg) (wire_program p bs)"
    unfolding read_body_def
    by (intro wrote_bind[OF wrote_nodes_section[OF ok shapes]])
       (simp, intro wrote_bind[OF regions] wrote_last, simp,
        simp add: wire_program_def with_non_composable_with_self_def
          with_optional_entry_op_id_def new_raw_def map2_with_region idx
          reads_ret del: map_map)
  from wroteD[OF this, of "[]"] body show ?thesis by (auto simp: put_body_def)
qed

lemma length_MAGIC [simp]: "length MAGIC = 4"
  by (simp add: MAGIC_def)

lemma length_header: "length d = 32 \<Longrightarrow> length (header_bytes d) = HEADER_LEN"
  by (simp add: header_bytes_def HEADER_LEN_def MAGIC_def)

lemma header_fields:
  assumes "length d = 32"
  shows "take 4 (header_bytes d @ body) = MAGIC"
    "u16_from_le_bytes ((header_bytes d @ body) ! 4) ((header_bytes d @ body) ! 5) = WIRE_FORMAT_VERSION"
    "u16_from_le_bytes ((header_bytes d @ body) ! 6) ((header_bytes d @ body) ! 7) = FLAG_OPAQUE_ENDIAN_FIXED"
    "take 32 (drop 8 (header_bytes d @ body)) = d"
    "drop HEADER_LEN (header_bytes d @ body) = body"
  using assms
  by (simp_all add: header_bytes_def MAGIC_def u16_to_le_bytes_def HEADER_LEN_def u16_le_roundtrip)

lemmas flag_defs = FLAG_OPAQUE_ENDIAN_FIXED_def FLAG_COMPRESSED_def FLAG_SEALED_def

lemma to_wire_Inr:
  "to_wire_with_buffer_order_into blake3 p bs dst = Inr out \<longleftrightarrow>
   (\<exists>body. reject_non_roundtrippable_shapes p bs = Inr () \<and> put_body p bs = Inr body
      \<and> out = dst @ header_bytes (blake3 body) @ body)"
  by (auto simp: to_wire_with_buffer_order_into_def result_simps header_bytes_def)

lemma from_wire_envelope:
  assumes "length (blake3 body) = 32" "length (header_bytes (blake3 body) @ body) \<le> MAX_PROGRAM_BYTES"
  shows "from_wire blake3 reg (header_bytes (blake3 body) @ body) =
     (case read_body reg (rd_start body) of
        Inl e \<Rightarrow> Inl e
      | Inr (p, r) \<Rightarrow> if rd_at_end r then Inr p else Inl (DE_Program PD_TrailingBytes))"
proof -
  let ?b = "header_bytes (blake3 body) @ body"
  have len: "length ?b \<ge> HEADER_LEN" "length MAGIC = 4"
    using length_header[OF assms(1)] by (simp_all add: MAGIC_def)
  have magic: "expect_magic (rd_start ?b) = Inr ((), (rd_start ?b)\<lparr>rd_pos := 6\<rparr>)"
    using len header_fields[OF assms(1), of body]
    by (simp add: expect_magic_def rd_start_def HEADER_LEN_def)
  show ?thesis
    using assms len header_fields[OF assms(1), of body]
    by (simp add: from_wire_def magic flag_defs not_less HEADER_LEN_def del: append_assoc)
qed

subsection \<open>What the decoder guarantees\<close>

lemma yields_entry_node: "yields (read_entry_node reg i) (node_ok accept_all MAX_DECODE_DEPTH)"
  unfolding read_entry_node_def
  by (rule yields_case_prod yields_if yields_fail yields_ret
      | rule yields_bind[OF yields_within[OF yields_node]] | rule yields_bind_any | assumption)+

lemma yields_entry_nodes:
  "yields (read_entry_nodes reg i todo)
     (\<lambda>ns. length ns = todo \<and> list_all (node_ok accept_all MAX_DECODE_DEPTH) ns)"
proof (induction todo arbitrary: i)
  case (Suc todo)
  show ?case
    by simp (rule yields_bind[OF yields_entry_node], rule yields_bind[OF Suc.IH], simp add: yields_ret)
qed (simp add: yields_ret)

text \<open>A decoded declaration: valid name, an ordered range that fits, positive counts where required.\<close>

definition metadata_ok :: "decoded_buffer \<Rightarrow> bool" where
  "metadata_ok b = (is_str (db_name b)
     \<and> (case db_output_byte_range b of None \<Rightarrow> True | Some (s, e) \<Rightarrow> s \<le> e))"

lemma yields_buffer_metadata: "yields read_buffer_metadata metadata_ok"
proof -
  have range: "yields read_output_range (\<lambda>rng. case rng of None \<Rightarrow> True | Some (s, e) \<Rightarrow> s \<le> e)"
    unfolding read_output_range_def
    by (rule yields_if yields_bind_lift yields_fail yields_ret | rule yields_bind_any
        | auto simp: validate_output_range_order_def split: if_splits)+
  show ?thesis
    unfolding read_buffer_metadata_def
    by (rule yields_bind[OF yields_string] yields_bind[OF range] yields_if yields_fail yields_ret
        | rule yields_bind_any | auto simp: metadata_ok_def)+
qed

definition axes_positive :: "u32 \<times> u32 \<times> u32 \<Rightarrow> bool" where
  "axes_positive wg = (0 \<notin> set (workgroup_axes wg))"

definition metadata_result_ok :: "metadata_result \<Rightarrow> bool" where
  "metadata_result_ok = (\<lambda>(op, wg, dm). pred_option is_str op \<and> axes_positive wg
     \<and> length (dm_buffers dm) \<le> MAX_BUFFERS \<and> list_all metadata_ok (dm_buffers dm))"

lemma yields_workgroup_size: "yields read_workgroup_size axes_positive"
  unfolding read_workgroup_size_def
  by (rule yields_bind_lift yields_ret | rule yields_bind_any
      | auto simp: validate_workgroup_size_def axes_positive_def first_zero_axis_None split: option.splits if_splits)+

lemma yields_entry_op_id: "yields read_entry_op_id (pred_option is_str)"
  unfolding read_entry_op_id_def
  by (rule yields_bind_any, intro yields_if)
     (auto intro!: yields_ret yields_fail yields_bind[OF yields_string])

lemma yields_metadata: "yields metadata_fields metadata_result_ok"
  unfolding metadata_fields_def
  by (rule yields_bind[OF yields_entry_op_id] yields_bind[OF yields_workgroup_size]
        yields_bind[OF yields_leb_len] yields_bind[OF yields_repeat[OF yields_buffer_metadata]]
        yields_if yields_fail yields_ret
      | rule yields_bind_any | auto simp: metadata_result_ok_def)+

lemma yields_nodes:
  "yields (read_nodes reg) (\<lambda>(op, wg, dm). metadata_result_ok (op, wg, dm)
     \<and> length (dm_entry dm) < MAX_NODES \<and> list_all (node_ok accept_all MAX_DECODE_DEPTH) (dm_entry dm))"
  unfolding read_nodes_def read_metadata_def
  by (rule yields_bind[OF yields_leb_len] yields_bind[OF yields_within[OF yields_metadata]]
        yields_bind[OF yields_entry_nodes] yields_case_prod yields_if yields_fail yields_ret
      | rule yields_bind_any | auto simp: metadata_result_ok_def)+

definition decl_ok :: "buffer_decl \<Rightarrow> bool" where
  "decl_ok b = (is_str (bd_name b) \<and> decoded_element_ok (bd_element b)
     \<and> (bd_count b = 0 \<longrightarrow> bd_access b \<noteq> BA_Workgroup \<and> \<not> bd_is_output b \<and> \<not> bd_pipeline_live_out b)
     \<and> (case bd_output_byte_range b of
          None \<Rightarrow> True
        | Some (s, e) \<Rightarrow> s \<le> e \<and> (\<exists>n. size_bytes (bd_element b) = Some n
            \<and> unat e \<le> unat (bd_count b) * unat n)))"

lemma region_checked_decl_ok:
  "region_checked d b \<Longrightarrow> metadata_ok d \<Longrightarrow> decl_ok (decl_of_decoded b)"
  by (auto simp: region_checked_def metadata_ok_def decl_ok_def decl_of_decoded_def range_fits_def
      counts_positive_def split: option.splits)

lemma region_checked_decls_ok:
  "list_all2 region_checked ds bs \<Longrightarrow> list_all metadata_ok ds \<Longrightarrow>
   list_all decl_ok (map decl_of_decoded bs) \<and> length bs = length ds"
  by (induction rule: list_all2_induct) (auto intro: region_checked_decl_ok)

definition decoded_ok :: "program \<Rightarrow> bool" where
  "decoded_ok p = (pred_option is_str (pg_entry_op_id p) \<and> axes_positive (pg_workgroup_size p)
     \<and> length (pg_buffers p) \<le> MAX_BUFFERS \<and> list_all decl_ok (pg_buffers p)
     \<and> length (pg_entry p) < MAX_NODES
     \<and> list_all (node_ok accept_all MAX_DECODE_DEPTH) (pg_entry p))"

lemma yields_body: "yields (read_body reg) (\<lambda>p. consistent p \<and> decoded_ok p)"
proof -
  have idx: "writable (map db_access bs) = output_indices_from 0 (map decl_of_decoded bs)"
    if "length bs \<le> MAX_BUFFERS" for bs
  proof -
    have "0 + length (map decl_of_decoded bs) \<le> 2 ^ 32" using that by (simp add: MAX_BUFFERS_def)
    from output_indices_from_eq[OF this] show ?thesis by (simp add: decl_of_decoded_def comp_def)
  qed
  have final: "yields (rd_bind (os_decode_from bs) (\<lambda>out. rd_ret
      ((with_non_composable_with_self (with_optional_entry_op_id
         (new_raw (map decl_of_decoded bs) wg entry) op) nc)\<lparr>pg_output_index := Some out\<rparr>)))
      (\<lambda>p. consistent p \<and> decoded_ok p)"
    if "metadata_result_ok (op, wg, dm)" "list_all2 region_checked (dm_buffers dm) bs"
      "length entry < MAX_NODES" "list_all (node_ok accept_all MAX_DECODE_DEPTH) entry"
    for op wg dm bs entry nc
  proof -
    have bs: "list_all decl_ok (map decl_of_decoded bs)" "length bs \<le> MAX_BUFFERS"
      using region_checked_decls_ok[OF that(2)] that(1) by (auto simp: metadata_result_ok_def)
    then have "length bs \<le> 2 ^ 32" by (simp add: MAX_BUFFERS_def)
    then show ?thesis
      by (rule yields_bind[OF yields_output_set])
         (use that bs idx[OF bs(2)] in \<open>auto intro!: yields_ret simp: consistent_def decoded_ok_def
            new_raw_def with_non_composable_with_self_def with_optional_entry_op_id_def
            metadata_result_ok_def\<close>)
  qed
  show ?thesis
    unfolding read_body_def
    by (rule yields_bind[OF yields_nodes] yields_case_prod
        | rule yields_bind[OF yields_memory_regions] | rule final | auto)+
qed

subsection \<open>Re-encoding\<close>

lemma put_wire_buffer [simp]:
  "put_buffer_metadata out (wire_buffer b) = put_buffer_metadata out b"
  "put_memory_region out i (wire_buffer b) = put_memory_region out i b"
  "bd_access (wire_buffer b) = bd_access b"
  by (simp_all add: put_buffer_metadata_def put_memory_region_def put_shape_def wire_buffer_def
      cong: rbind_cong)

lemma reject_wire_buffer [simp]: "reject_buffer_shape (wire_buffer b) = reject_buffer_shape b"
  by (cases "bd_output_byte_range b")
     (auto simp: reject_buffer_shape_def output_full_size_def wire_buffer_def
       cong: rbind_cong if_cong)

lemma put_wire_tables:
  "put_memory_region_list out i (map wire_buffer bs) = put_memory_region_list out i bs"
  "put_output_indices out i (map wire_buffer bs) = put_output_indices out i bs"
  "reject_buffer_shapes (map wire_buffer bs) = reject_buffer_shapes bs"
  by (induction bs arbitrary: out i) (simp_all cong: rbind_cong)

lemma put_canonical_entry_node: "put_entry_node out (canonical_node n) = put_entry_node out n"
  by (simp add: put_entry_node_def put_canonical_node)

lemma to_wire_wire_program:
  "to_wire blake3 (wire_program p bs) = to_wire_with_buffer_order_into blake3 p bs []"
proof -
  have "put_metadata_payload [] (wire_program p bs) (map wire_buffer bs) = put_metadata_payload [] p bs"
    by (simp add: put_metadata_payload_def wire_program_def put_all_map cong: rbind_cong)
  then have "put_body (wire_program p bs) (map wire_buffer bs) = put_body p bs"
    by (simp add: put_body_def put_nodes_section_def put_memory_regions_def encode_from_buffers_into_def
        put_wire_tables put_all_map put_canonical_entry_node wire_program_def comp_def filter_map
        cong: rbind_cong)
  moreover have "reject_non_roundtrippable_shapes (wire_program p bs) (map wire_buffer bs)
      = reject_non_roundtrippable_shapes p bs"
    by (simp add: reject_non_roundtrippable_shapes_def put_wire_tables wire_program_def
        split: option.split)
  ultimately show ?thesis
    by (simp add: to_wire_def to_wire_with_buffer_order_into_def)
       (simp add: wire_program_def)
qed

lemma u16_bytes_unique: "u16_from_le_bytes a b = w \<longleftrightarrow> [a, b] = u16_to_le_bytes w"
proof
  assume w: "u16_from_le_bytes a b = w"
  have "ucast w = a" unfolding w[symmetric]
    by (rule bit_word_eqI) (auto simp: u16_from_le_bytes_def bit_simps)
  moreover have "ucast (drop_bit 8 w) = b" unfolding w[symmetric]
    by (rule bit_word_eqI) (auto simp: u16_from_le_bytes_def bit_simps dest: bit_imp_le_length)
  ultimately show "[a, b] = u16_to_le_bytes w" by (simp add: u16_to_le_bytes_def)
qed (auto simp: u16_to_le_bytes_def u16_le_roundtrip)

lemma only_endian_flag:
  assumes "flags AND NOT (FLAG_COMPRESSED OR FLAG_SEALED OR FLAG_OPAQUE_ENDIAN_FIXED) = 0"
    "flags AND (FLAG_COMPRESSED OR FLAG_SEALED) = 0" "flags AND FLAG_OPAQUE_ENDIAN_FIXED \<noteq> 0"
  shows "flags = FLAG_OPAQUE_ENDIAN_FIXED"
proof -
  have bits: "bit flags n \<longleftrightarrow> n = 2" for n
  proof -
    have c: "bit (FLAG_OPAQUE_ENDIAN_FIXED) n \<longleftrightarrow> n = 2" "bit FLAG_COMPRESSED n \<longleftrightarrow> n = 0"
      "bit FLAG_SEALED n \<longleftrightarrow> n = 1" for n
      by (simp_all only: flag_defs bit_push_bit_iff bit_1_iff) auto
    from assms(3) obtain k where "bit (flags AND FLAG_OPAQUE_ENDIAN_FIXED) k"
      by (metis bit_eqI bit_0_eq bot_apply bot_bool_def)
    then have "bit flags 2" by (auto simp: bit_and_iff c)
    moreover have "\<not> bit flags n" if "n \<noteq> 2"
    proof
      assume b: "bit flags n"
      have "bit (flags AND NOT (FLAG_COMPRESSED OR FLAG_SEALED OR FLAG_OPAQUE_ENDIAN_FIXED)) n
          \<or> bit (flags AND (FLAG_COMPRESSED OR FLAG_SEALED)) n"
        using b that bit_imp_le_length[OF b] by (auto simp: bit_simps c)
      with assms show False by simp
    qed
    ultimately show ?thesis by auto
  qed
  show ?thesis
    by (rule bit_word_eqI, simp only: bits flag_defs bit_push_bit_iff bit_1_iff) auto
qed

lemma header_exact:
  assumes "HEADER_LEN \<le> length bs" "take 4 bs = MAGIC"
    "u16_from_le_bytes (bs ! 4) (bs ! 5) = WIRE_FORMAT_VERSION"
    "u16_from_le_bytes (bs ! 6) (bs ! 7) = FLAG_OPAQUE_ENDIAN_FIXED"
    "take 32 (drop 8 bs) = d"
  shows "bs = header_bytes d @ drop HEADER_LEN bs"
proof -
  have len: "40 \<le> length bs" using assms(1) by (simp add: HEADER_LEN_def)
  have two: "take 2 (drop i bs) = [bs ! i, bs ! Suc i]" if "Suc i < length bs" for i
    using that by (simp add: numeral_2_eq_2 Cons_nth_drop_Suc[symmetric])
  have "bs = take 4 bs @ take 2 (drop 4 bs) @ take 2 (drop 6 bs) @ take 32 (drop 8 bs) @ drop 40 bs"
    using append_take_drop_id[of 4 bs] append_take_drop_id[of 2 "drop 4 bs"]
      append_take_drop_id[of 2 "drop 6 bs"] append_take_drop_id[of 32 "drop 8 bs"] by simp
  with assms len show ?thesis
    by (simp add: two u16_bytes_unique header_bytes_def HEADER_LEN_def)
qed

lemma safe_body [safe_intros]: "safe_parser (read_body reg)"
proof -
  have "safe_parser (read_entry_nodes reg i todo)" for i todo
    by (induction todo arbitrary: i)
       (auto simp: read_entry_node_def read_node_record_def read_operand_def intro!: safe_intros)
  then show ?thesis
    unfolding read_body_def read_nodes_def read_node_record_def read_operand_def read_metadata_def
    by (intro safe_intros)
qed

text \<open>The empty program, for concrete instances.\<close>

lemma empty_program_fields [simp]:
  "pg_buffers empty_program = []" "pg_entry_op_id empty_program = None"
  "pg_workgroup_size empty_program = (1, 1, 1)" "pg_non_composable empty_program = False"
  "pg_entry empty_program = [N_Region ''vyre.program.root'' None []]"
  by (simp_all add: empty_program_def wrapped_def new_raw_def wrap_entry_def
      entry_needs_root_region_def ROOT_REGION_GENERATOR_def)

lemma empty_program_ok: "program_ok \<lparr>reg_exprs = [], reg_nodes = []\<rparr> empty_program (pg_buffers empty_program)"
  by (simp add: program_ok_def MAX_NODES_def MAX_DECODE_DEPTH_Suc nodes_ok_with_def is_str_ascii
      del: Suc_numeral)

lemma empty_program_body:
  "\<exists>body. reject_non_roundtrippable_shapes empty_program [] = Inr () \<and> put_body empty_program [] = Inr body
     \<and> length body + HEADER_LEN \<le> MAX_PROGRAM_BYTES"
  by (simp add: reject_non_roundtrippable_shapes_def put_body_def
      put_nodes_section_def put_metadata_payload_def METADATA_MARKER_def METADATA_OP_ID_def
      put_node_record_def put_leb_str_def put_payload_def u64_of_len_def put_leb_u64.simps Let_def
      put_bool_def put_u8_def put_u32_def u32_to_le_bytes_def as_bytes_def
      put_entry_node_def put_nodes_with_def put_string_def put_len_u32_def MAX_STRING_LEN_def
      put_memory_regions_def encode_from_buffers_into_def MAX_PROGRAM_BYTES_def HEADER_LEN_def)

lemma empty_program_decodes:
  "\<exists>body. program_from_wire (\<lambda>_. replicate 32 0) \<lparr>reg_exprs = [], reg_nodes = []\<rparr>
     (header_bytes (replicate 32 0) @ body) = Inr (wire_program empty_program [])"
proof -
  let ?h = "\<lambda>_ :: bytes. replicate 32 0 :: bytes"
  obtain body where body: "reject_non_roundtrippable_shapes empty_program [] = Inr ()"
    "put_body empty_program [] = Inr body" "length body + HEADER_LEN \<le> MAX_PROGRAM_BYTES"
    using empty_program_body by blast
  have "read_body \<lparr>reg_exprs = [], reg_nodes = []\<rparr> (rd_start body) = Inr (wire_program empty_program [],
      \<lparr>rd_bytes = body, rd_pos = length body\<rparr>)"
    using body(3) empty_program_ok
    by (intro reads_start[OF reads_body[OF _ body(1,2)]]) (simp_all add: MAX_PROGRAM_BYTES_def)
  then have "program_from_wire ?h \<lparr>reg_exprs = [], reg_nodes = []\<rparr>
      (header_bytes (replicate 32 0) @ body) = Inr (wire_program empty_program [])"
    using from_wire_envelope[of ?h body] header_fields(2)[of "replicate 32 0" body] body(3)
    by (simp add: program_from_wire_def rd_at_end_def length_header not_less)
  then show ?thesis by blast
qed

subsection \<open>Blobs the encoder writes and the decoder refuses\<close>

definition appends :: "(bytes \<Rightarrow> encode_error + bytes) \<Rightarrow> bool" where
  "appends f = (\<forall>out out'. f out = Inr out' \<longrightarrow> (\<exists>bs. out' = out @ bs))"

lemma appends_bind: "appends f \<Longrightarrow> appends g \<Longrightarrow> appends (\<lambda>out. rbind (f out) g)"
  by (fastforce simp: appends_def result_simps)

lemma appends_put_all: "(\<And>x. appends (\<lambda>out. put out x)) \<Longrightarrow> appends (\<lambda>out. put_all put out xs)"
proof (induction xs)
  case (Cons x xs)
  then show ?case using appends_bind[of "\<lambda>out. put out x" "\<lambda>out. put_all put out xs"] by simp
qed (simp add: appends_def)

lemma appends_payload: "appends (\<lambda>out. put_payload out p)"
  by (auto simp: appends_def put_payload_Inr)

lemma appends_record: "appends (\<lambda>out. put_node_record out op_id payload [])"
  by (auto simp: appends_def put_node_record_def result_simps put_leb_str_Inr put_payload_Inr put_leb_u64_eq)

lemma appends_entry_node: "appends (\<lambda>out. put_entry_node out n)"
  using appends_record by (cases "put_node [] n") (auto simp: put_entry_node_def appends_def)

lemma appends_region: "appends (\<lambda>out. put_memory_region out i b)"
  by (auto simp: appends_def put_memory_region_def put_u8_def put_leb_u32_def put_leb_u64_eq result_simps put_payload_Inr Let_def split: if_splits)

lemma appends_regions: "appends (\<lambda>out. put_memory_regions out bs)"
proof -
  have "appends (\<lambda>out. put_memory_region_list out i bs)" for i
  proof (induction bs arbitrary: i)
    case (Cons b bs)
    then show ?case using appends_bind[OF appends_region] by simp
  qed (simp add: appends_def)
  then show ?thesis by (fastforce simp: put_memory_regions_def appends_def result_simps put_leb_u64_eq)
qed

lemma appends_output_set: "appends (\<lambda>out. encode_from_buffers_into out bs)"
proof -
  have "put_output_indices out i bs = Inr out' \<Longrightarrow> \<exists>cs. out' = out @ cs" for out out' i
    by (induction out i bs rule: put_output_indices.induct)
      (auto simp: put_leb_u32_def put_leb_u64_eq split: if_splits)
  then show ?thesis by (fastforce simp: encode_from_buffers_into_def appends_def result_simps put_leb_u64_eq Let_def)
qed

lemma appends_buffer_metadata: "appends (\<lambda>out. put_buffer_metadata out b)"
  by (cases "bd_output_byte_range b")
    (auto simp: appends_def put_buffer_metadata_def result_simps put_string_Inr put_bool_def put_u8_def put_u32_def
      put_leb_u64_eq put_hints_payload_def Let_def split: option.splits)

definition refused :: "(bytes \<Rightarrow> encode_error + bytes) \<Rightarrow> 'a parser \<Rightarrow> decode_error \<Rightarrow> bool" where
  "refused put m e = (\<forall>out out'. put out = Inr out' \<longrightarrow> (\<exists>bs. out' = out @ bs \<and> refuses m bs e))"

lemma refuses_more: "refuses m bs e \<Longrightarrow> refuses m (bs @ cs) e"
  by (simp add: refuses_def)

lemma refused_bind:
  assumes "wrote f m x" "refused g (k x) e"
  shows "refused (\<lambda>out. rbind (f out) g) (rd_bind m k) e"
  unfolding refused_def
proof (intro allI impI)
  fix out out' assume "rbind (f out) g = Inr out'"
  then obtain mid where "f out = Inr mid" "g mid = Inr out'" by (auto simp: result_simps)
  moreover from wroteD[OF assms(1) this(1)] obtain bs where "mid = out @ bs" "reads m bs x" by blast
  moreover from assms(2) calculation(2) obtain cs where "out' = mid @ cs" "refuses (k x) cs e"
    unfolding refused_def by blast
  ultimately show "\<exists>bs. out' = out @ bs \<and> refuses (rd_bind m k) bs e"
    using refuses_bind by fastforce
qed

lemma refused_then:
  assumes "refused f m e" "appends g"
  shows "refused (\<lambda>out. rbind (f out) g) (rd_bind m k) e"
  unfolding refused_def
proof (intro allI impI)
  fix out out' assume "rbind (f out) g = Inr out'"
  then obtain mid where "f out = Inr mid" "g mid = Inr out'" by (auto simp: result_simps)
  with assms obtain bs cs where "mid = out @ bs" "refuses m bs e" "out' = mid @ cs"
    unfolding refused_def appends_def by meson
  moreover have "refuses m bs e \<Longrightarrow> refuses (rd_bind m k) bs e" for bs
    by (simp add: refuses_def rd_bind_def)
  ultimately show "\<exists>bs. out' = out @ bs \<and> refuses (rd_bind m k) bs e"
    using refuses_more by fastforce
qed

lemma refused_put: "wrote (\<lambda>out. Inr (f out)) m x \<Longrightarrow> refused g (k x) e \<Longrightarrow> refused (\<lambda>out. g (f out)) (rd_bind m k) e"
  using refused_bind[of "\<lambda>out. Inr (f out)"] by simp

lemma refused_fail: "appends g \<Longrightarrow> (\<And>r. m r = Inl e) \<Longrightarrow> refused g m e"
  by (simp add: refused_def appends_def refuses_def)

lemma refused_in: "refused f m e \<Longrightarrow> refused f (rd_bind m k) e"
  by (fastforce simp: refused_def refuses_def rd_bind_def)

lemma rd_bind_ret: "rd_bind m rd_ret = m"
  by (simp add: fun_eq_iff rd_bind_def rd_ret_def split: sum.split)

lemma refused_leb_len:
  assumes "refused g (k n) e" "n \<le> limit"
  shows "refused (\<lambda>out. rbind (u64_of_len n) (\<lambda>v. g (put_leb_u64 out v))) (rd_bind (leb_len limit label) k) e"
proof -
  have "wrote (\<lambda>out. rbind (u64_of_len n) (\<lambda>v. Inr (put_leb_u64 out v))) (leb_len limit label) n"
    using wrote_leb_len[of Inr rd_ret n n limit label] assms(2) by (simp add: wrote_ret rd_bind_ret)
  from refused_bind[OF this, where g = g and k = k, OF assms(1)] show ?thesis by (simp add: rbind_assoc)
qed

lemma refused_zero_count:
  assumes "is_str (bd_name b)" "bd_is_output b" "bd_count b = 0"
  shows "refused (\<lambda>out. put_buffer_metadata out b) read_buffer_metadata (DE_Program (PD_OutputCount (bd_name b)))"
proof -
  let ?e = "DE_Program (PD_OutputCount (bd_name b))"
  show ?thesis unfolding refused_def
  proof (intro allI impI)
    fix out out' assume put: "put_buffer_metadata out b = Inr out'"
    let ?name = "u32_to_le_bytes (of_nat (length (bd_name b))) @ as_bytes (bd_name b)"
    from put have len: "length (bd_name b) \<le> MAX_STRING_LEN"
      by (auto simp: put_buffer_metadata_def result_simps put_string_Inr)
    from put obtain cs where out': "out' = out @ ?name @ u32_to_le_bytes (bd_binding b) @ u32_to_le_bytes 0 @
        [1] @ [if bd_pipeline_live_out b then 1 else 0] @ cs"
      using assms(2,3) by (cases "bd_output_byte_range b")
        (auto simp: put_buffer_metadata_def result_simps put_string_Inr put_bool_def put_u8_def put_u32_def
          put_leb_u64_eq put_hints_payload_def Let_def split: option.splits if_splits)
    have "refuses read_buffer_metadata (?name @ u32_to_le_bytes (bd_binding b) @ u32_to_le_bytes 0 @
        [1] @ [if bd_pipeline_live_out b then 1 else 0] @ cs) ?e"
      unfolding read_buffer_metadata_def
      by (rule refuses_bind[OF reads_string[OF assms(1) len]] refuses_bind[OF reads_u32]
        refuses_bind[OF reads_u8] | simp add: refuses_fail)+
    with out' show "\<exists>bs. out' = out @ bs \<and> refuses read_buffer_metadata bs ?e" by blast
  qed
qed

lemma refused_buffers:
  assumes "list_all (\<lambda>b. buffer_ok b \<and> reject_buffer_shape b = Inr ()) bs" "is_str (bd_name b)" "bd_is_output b" "bd_count b = 0"
  shows "refused (\<lambda>out. put_all put_buffer_metadata out (bs @ b # bs'))
    (rd_repeat (length (bs @ b # bs')) read_buffer_metadata) (DE_Program (PD_OutputCount (bd_name b)))"
  using assms(1)
proof (induction bs)
  case Nil
  from refused_then[OF refused_zero_count[OF assms(2-4)] appends_put_all[OF appends_buffer_metadata]]
  show ?case by simp
next
  case (Cons c bs)
  note rest = refused_in[OF Cons.IH]
  from Cons.prems have "wrote (\<lambda>out. put_buffer_metadata out c) read_buffer_metadata (metadata_of c)"
    by (intro wrote_buffer_metadata) auto
  from refused_bind[OF this rest] Cons.prems show ?case by simp
qed

lemma refused_metadata:
  assumes shapes: "reject_non_roundtrippable_shapes p (bs @ b # bs') = Inr u"
    and "list_all buffer_ok bs" "is_str (bd_name b)" "bd_is_output b" "bd_count b = 0"
    and op: "pred_option is_str (pg_entry_op_id p)" and len: "length (bs @ b # bs') \<le> MAX_BUFFERS"
  shows "refused (\<lambda>out. put_metadata_payload out p (bs @ b # bs')) metadata_fields (DE_Program (PD_OutputCount (bd_name b)))"
proof -
  let ?e = "DE_Program (PD_OutputCount (bd_name b))"
  have axes: "wrote (\<lambda>out. Inr (put_u32s out (workgroup_axes (pg_workgroup_size p)))) read_workgroup_size (pg_workgroup_size p)"
    using wrote_workgroup_size[of Inr rd_ret "pg_workgroup_size p"] shapes
    by (simp add: wrote_ret rd_bind_ret reject_shapes_ok)
  have composable: "wrote (\<lambda>out. Inr (put_bool out (pg_non_composable p))) read_non_composable (pg_non_composable p)"
    using wrote_non_composable[of Inr rd_ret] by (simp add: wrote_ret rd_bind_ret)
  have marker: "wrote (\<lambda>out. Inr (out @ METADATA_MARKER)) (rd_take 9) METADATA_MARKER"
    using wrote_bytes[of Inr rd_ret METADATA_MARKER] by (simp add: wrote_ret rd_bind_ret METADATA_MARKER_def numeral_eq_Suc)
  have bufs: "refused (\<lambda>out. put_all put_buffer_metadata out (bs @ b # bs'))
      (rd_bind (rd_repeat (length (bs @ b # bs')) read_buffer_metadata) k) ?e" for k :: "decoded_buffer list \<Rightarrow> metadata_result parser"
    using assms(1-5) by (intro refused_in refused_buffers) (auto simp: reject_shapes_ok list_all_iff)
  let ?len = "\<lambda>out. rbind (u64_of_len (length (bs @ b # bs'))) (\<lambda>n. put_all put_buffer_metadata (put_leb_u64 out n) (bs @ b # bs'))"
  let ?flag = "\<lambda>out. ?len (put_bool out (pg_non_composable p))"
  let ?axes = "\<lambda>out. ?flag (put_u32s out (workgroup_axes (pg_workgroup_size p)))"
  let ?op = "\<lambda>out. case pg_entry_op_id p of None \<Rightarrow> Inr (put_u8 out 0) | Some x \<Rightarrow> put_string (put_u8 out 1) x"
  have lens: "refused ?len (rd_bind (leb_len MAX_BUFFERS ''metadata buffer count'') (\<lambda>n.
      rd_bind (rd_repeat n read_buffer_metadata) k)) ?e" for k :: "decoded_buffer list \<Rightarrow> metadata_result parser"
    by (rule refused_leb_len[OF _ len], rule bufs)
  have head: "refused ?axes (rd_bind read_workgroup_size (\<lambda>wg. rd_bind read_non_composable (\<lambda>nc.
      rd_bind (leb_len MAX_BUFFERS ''metadata buffer count'') (\<lambda>n.
        rd_bind (rd_repeat n read_buffer_metadata) (k wg nc))))) ?e" for k :: "u32 \<times> u32 \<times> u32 \<Rightarrow> bool \<Rightarrow> decoded_buffer list \<Rightarrow> metadata_result parser"
    by (rule refused_put[where g = ?flag, OF axes], rule refused_put[where g = ?len, OF composable], rule lens)
  have "refused (\<lambda>out. rbind (?op out) ?axes) (rd_bind read_entry_op_id (\<lambda>op. rd_bind read_workgroup_size (\<lambda>wg.
      rd_bind read_non_composable (\<lambda>nc. rd_bind (leb_len MAX_BUFFERS ''metadata buffer count'') (\<lambda>n.
        rd_bind (rd_repeat n read_buffer_metadata) (k op wg nc)))))) ?e"
    for k :: "string option \<Rightarrow> u32 \<times> u32 \<times> u32 \<Rightarrow> bool \<Rightarrow> decoded_buffer list \<Rightarrow> metadata_result parser"
    by (rule refused_bind[where f = ?op and g = ?axes, OF wrote_entry_op_id[OF op]], rule head)
  then show ?thesis
    unfolding put_metadata_payload_def metadata_fields_def Let_def
    by (intro refused_put[where f = "\<lambda>out. out @ METADATA_MARKER" and g = "\<lambda>out. rbind (?op out) ?axes", OF marker])
      (simp only: simp_thms if_False)
qed

lemma refused_nodes_section:
  assumes "refused (\<lambda>out. put_metadata_payload out p bs) metadata_fields e" "length (pg_entry p) < MAX_NODES"
  shows "refused (\<lambda>out. put_nodes_section out p bs) (read_nodes reg) e"
proof (cases "put_metadata_payload [] p bs")
  case (Inr payload)
  have op: "is_str METADATA_OP_ID" "length METADATA_OP_ID \<le> MAX_STRING_LEN"
    by (simp_all add: METADATA_OP_ID_def is_str_ascii MAX_STRING_LEN_def)
  from assms(1) Inr have "refuses metadata_fields payload e" by (fastforce simp: refused_def)
  then have within: "length payload < usize_bound \<Longrightarrow> read_metadata payload r = Inl e" for r
    by (auto simp: read_metadata_def rd_within_def refuses_def rd_at_def rd_start_def dest!: spec[of _ "[]"])
  have nodes: "appends (\<lambda>out. put_all put_entry_node out (pg_entry p))"
    by (rule appends_put_all[OF appends_entry_node])
  show ?thesis
  proof (cases "length payload < usize_bound")
    case True
    have small: "length (pg_entry p) + 1 \<le> MAX_NODES" using assms(2) by simp
    show ?thesis
      unfolding put_nodes_section_def read_nodes_def Inr rbind_Inr
      by (rule refused_leb_len[OF _ small], simp, rule refused_bind[OF wrote_node_record[OF op]])
        (simp add: refused_fail[OF nodes] rd_bind_def within[OF True])
  next
    case False
    then show ?thesis
      by (auto simp: refused_def put_nodes_section_def Inr put_node_record_def result_simps put_payload_Inr)
  qed
qed (simp add: put_nodes_section_def refused_def result_simps)

lemma refused_body:
  assumes "refused (\<lambda>out. put_nodes_section out p bs) (read_nodes reg) e" "put_body p bs = Inr body"
  shows "refuses (read_body reg) body e"
proof -
  have "refused (\<lambda>out. rbind (put_nodes_section out p bs) (\<lambda>body.
      rbind (put_memory_regions body bs) (\<lambda>body. encode_from_buffers_into body bs))) (read_body reg) e"
    unfolding read_body_def by (rule refused_then[OF assms(1) appends_bind[OF appends_regions appends_output_set]])
  then show ?thesis using assms(2) by (fastforce simp: refused_def put_body_def)
qed

text \<open>A program with one output buffer of count zero.\<close>

definition zero_count_program :: program where
  "zero_count_program = wrapped [(bd_read_write ''o'' 0 DT_U32)\<lparr>bd_is_output := True\<rparr>] (1, 1, 1) []"

lemma zero_count_program_fields [simp]:
  "pg_buffers zero_count_program = [(bd_read_write ''o'' 0 DT_U32)\<lparr>bd_is_output := True\<rparr>]"
  "pg_entry_op_id zero_count_program = None"
  "pg_workgroup_size zero_count_program = (1, 1, 1)" "pg_non_composable zero_count_program = False"
  "pg_entry zero_count_program = [N_Region ''vyre.program.root'' None []]"
  by (simp_all add: zero_count_program_def wrapped_def new_raw_def wrap_entry_def
      entry_needs_root_region_def ROOT_REGION_GENERATOR_def)

lemma put_leb_u64_short: "v < 128 \<Longrightarrow> put_leb_u64 out v = out @ [ucast (v AND 127)]"
proof -
  assume "v < 128"
  then have "drop_bit 7 v = 0"
    by (simp add: word_less_nat_alt unat_eq_0[symmetric] drop_bit_eq_div unat_div)
  then show ?thesis by (subst put_leb_u64.simps) simp
qed

lemma zero_count_program_body:
  "\<exists>body. reject_non_roundtrippable_shapes zero_count_program (pg_buffers zero_count_program) = Inr ()
     \<and> put_body zero_count_program (pg_buffers zero_count_program) = Inr body
     \<and> length body + HEADER_LEN \<le> MAX_PROGRAM_BYTES"
  by (simp add: put_leb_u64_short reject_non_roundtrippable_shapes_def put_body_def bd_read_write_def bd_storage_def reject_buffer_shape_def
      put_nodes_section_def put_metadata_payload_def METADATA_MARKER_def METADATA_OP_ID_def
      put_node_record_def put_leb_str_def put_payload_def u64_of_len_def  put_leb_u32_def Let_def
      put_bool_def put_u8_def put_u32_def u32_to_le_bytes_def as_bytes_def put_buffer_metadata_def put_hints_payload_def
      put_entry_node_def put_nodes_with_def put_string_def put_len_u32_def MAX_STRING_LEN_def put_memory_region_def
      put_shape_def is_output_access_def default_hints_def
      put_memory_regions_def encode_from_buffers_into_def MAX_PROGRAM_BYTES_def HEADER_LEN_def)

subsection \<open>Properties\<close>

text \<open>
  C1. Programs round-trip through the wire format.  If a program encodes, is within the
  decoder's limits with its extensions registered, and the blob is within the size cap, then
  decoding the blob returns the program: same entry operation, workgroup size, composability
  and buffers (without the refinements the format does not carry), the entry with canonical
  floating-point literals, the name index rebuilt and the output index filled.  Encoding the
  result again gives the same bytes.
\<close>

theorem program_roundtrip:
  assumes "to_wire blake3 p = Inr blob" and "program_ok reg p (pg_buffers p)"
    and "length blob \<le> MAX_PROGRAM_BYTES" and digest: "\<And>body. length (blake3 body) = 32"
  shows "program_from_wire blake3 reg blob = Inr (wire_program p (pg_buffers p))
    \<and> to_wire blake3 (wire_program p (pg_buffers p)) = Inr blob"
proof -
  from assms(1) obtain body where
    body: "reject_non_roundtrippable_shapes p (pg_buffers p) = Inr ()" "put_body p (pg_buffers p) = Inr body"
    "blob = header_bytes (blake3 body) @ body"
    by (auto simp: to_wire_def to_wire_Inr)
  have "length body < usize_bound" using assms(3) body(3) by (simp add: MAX_PROGRAM_BYTES_def)
  then have "read_body reg (rd_start body) = Inr (wire_program p (pg_buffers p),
      \<lparr>rd_bytes = body, rd_pos = length body\<rparr>)"
    by (rule reads_start[OF reads_body[OF assms(2) body(1,2)]])
  then have "from_wire blake3 reg blob = Inr (wire_program p (pg_buffers p))"
    unfolding body(3) using from_wire_envelope[of blake3 body reg, OF digest] assms(3) body(3)
    by (simp add: rd_at_end_def)
  moreover have "u16_from_le_bytes (blob ! 4) (blob ! 5) = WIRE_FORMAT_VERSION"
    unfolding body(3) by (rule header_fields(2)[OF digest])
  moreover have "to_wire blake3 (wire_program p (pg_buffers p)) = Inr blob"
    using assms(1) by (simp add: to_wire_wire_program) (simp add: to_wire_def)
  ultimately show ?thesis using assms(3) by (simp add: program_from_wire_def not_less)
qed

theorem program_roundtrip_witness:
  "\<exists>blob. to_wire (\<lambda>_. replicate 32 0) empty_program = Inr blob
     \<and> program_from_wire (\<lambda>_. replicate 32 0) \<lparr>reg_exprs = [], reg_nodes = []\<rparr> blob
         = Inr (wire_program empty_program [])"
proof -
  obtain body where "reject_non_roundtrippable_shapes empty_program [] = Inr ()"
    "put_body empty_program [] = Inr body" "length body + HEADER_LEN \<le> MAX_PROGRAM_BYTES"
    using empty_program_body by blast
  then have blob: "to_wire (\<lambda>_. replicate 32 0) empty_program
      = Inr (header_bytes (replicate 32 0) @ body)"
    "length (header_bytes (replicate 32 0) @ body) \<le> MAX_PROGRAM_BYTES"
    by (simp_all add: to_wire_def to_wire_Inr length_header)
  with program_roundtrip[OF blob(1) empty_program_ok blob(2)] show ?thesis by simp
qed

text \<open>
  C2. Decoding is sound on untrusted bytes.  Whatever the bytes and whatever the digest
  function, a decoded program has consistent lookup tables, positive workgroup dimensions, at
  most the permitted numbers of buffers and nodes, entry nodes within the nesting limits, and
  buffers with valid names, positive counts where the access mode needs them, and output
  ranges that are ordered and inside the buffer.
\<close>

theorem from_wire_sound:
  assumes "program_from_wire blake3 reg bytes = Inr p"
  shows "consistent p \<and> decoded_ok p"
proof -
  obtain r where "read_body reg (rd_start (drop HEADER_LEN bytes)) = Inr (p, r)"
    using assms by (auto simp: program_from_wire_def from_wire_def Let_def result_simps
        split: if_splits sum.splits)
  then show ?thesis by (rule yieldsD[OF yields_body])
qed

theorem from_wire_sound_witness:
  "consistent (wire_program empty_program []) \<and> decoded_ok (wire_program empty_program [])"
  using empty_program_decodes from_wire_sound by blast

text \<open>
  C3. The envelope is checked byte for byte.  An accepted blob is at most 64 MiB long and
  consists of exactly the header the encoder writes for its body (magic, version, the
  endianness flag alone, and the digest of the body) followed by that body, which is consumed
  to its last byte.  Hence a body whose digest differs is never decoded.
\<close>

theorem from_wire_integrity:
  assumes "program_from_wire blake3 reg bytes = Inr p"
  shows "\<exists>body. bytes = header_bytes (blake3 body) @ body \<and> length bytes \<le> MAX_PROGRAM_BYTES
    \<and> read_body reg (rd_start body) = Inr (p, \<lparr>rd_bytes = body, rd_pos = length body\<rparr>)"
proof -
  let ?body = "drop HEADER_LEN bytes"
  let ?flags = "u16_from_le_bytes (bytes ! 6) (bytes ! 7)"
  from assms have fw: "from_wire blake3 reg bytes = Inr p" "length bytes \<le> MAX_PROGRAM_BYTES"
    by (auto simp: program_from_wire_def split: if_splits)
  then have h: "take 4 bytes = MAGIC" "HEADER_LEN \<le> length bytes"
    "u16_from_le_bytes (bytes ! 4) (bytes ! 5) = WIRE_FORMAT_VERSION"
    "take 32 (drop 8 bytes) = blake3 ?body" "?flags = FLAG_OPAQUE_ENDIAN_FIXED"
    by (auto simp: from_wire_def Let_def result_simps not_less intro: only_endian_flag
        split: if_splits)
  from fw(1) obtain r where r: "read_body reg (rd_start ?body) = Inr (p, r)" "rd_at_end r"
    by (auto simp: from_wire_def Let_def result_simps split: if_splits sum.splits)
  have "advanced (rd_start ?body) r" by (rule safe_advanced[OF safe_body r(1)])
  with r(2) have "r = \<lparr>rd_bytes = ?body, rd_pos = length ?body\<rparr>"
    by (cases r) (simp add: advanced_def rd_start_def rd_at_end_def)
  with r(1) fw(2) header_exact[OF h(2,1,3,5,4)] show ?thesis by metis
qed

theorem from_wire_integrity_witness:
  "\<exists>body. read_body \<lparr>reg_exprs = [], reg_nodes = []\<rparr> (rd_start body)
     = Inr (wire_program empty_program [], \<lparr>rd_bytes = body, rd_pos = length body\<rparr>)"
  using empty_program_decodes from_wire_integrity by blast

text \<open>
  C36. The encoder writes programs its decoder refuses.  Take a program that encodes and has an output buffer with
  count zero; the encoder accepts such a buffer as long as it is neither live-out nor workgroup
  memory.  Unless an earlier buffer is refused first, decoding the blob fails and reports that buffer's count.
\<close>

theorem encoder_accepts_undecodable:
  assumes "to_wire blake3 p = Inr blob" and "pg_buffers p = bs @ b # bs'"
    and "bd_is_output b" and "bd_count b = 0" and "is_str (bd_name b)"
    and "list_all buffer_ok bs" and "pred_option is_str (pg_entry_op_id p)"
    and "length (pg_buffers p) \<le> MAX_BUFFERS" and "length (pg_entry p) < MAX_NODES"
    and "length blob \<le> MAX_PROGRAM_BYTES" and digest: "\<And>body. length (blake3 body) = 32"
  shows "program_from_wire blake3 reg blob = Inl (DE_Program (PD_OutputCount (bd_name b)))"
proof -
  let ?e = "DE_Program (PD_OutputCount (bd_name b))"
  from assms(1) obtain body where
    body: "reject_non_roundtrippable_shapes p (pg_buffers p) = Inr ()" "put_body p (pg_buffers p) = Inr body"
    "blob = header_bytes (blake3 body) @ body"
    by (auto simp: to_wire_def to_wire_Inr)
  have "refused (\<lambda>out. put_metadata_payload out p (pg_buffers p)) metadata_fields ?e"
    using refused_metadata[OF body(1)[unfolded assms(2)] assms(6,5,3,4,7)] assms(2,8) by simp
  from refused_body[OF refused_nodes_section[OF this assms(9)] body(2)]
  have "refuses (read_body reg) body ?e" .
  moreover have "length body < usize_bound" using assms(10) body(3) by (simp add: MAX_PROGRAM_BYTES_def)
  ultimately have "read_body reg (rd_start body) = Inl ?e"
    by (auto simp: refuses_def rd_at_def rd_start_def dest!: spec[of _ "[]"])
  then have "from_wire blake3 reg blob = Inl ?e"
    unfolding body(3) using from_wire_envelope[of blake3 body reg, OF digest] assms(10) body(3) by simp
  moreover have "u16_from_le_bytes (blob ! 4) (blob ! 5) = WIRE_FORMAT_VERSION"
    unfolding body(3) by (rule header_fields(2)[OF digest])
  ultimately show ?thesis using assms(10) by (simp add: program_from_wire_def not_less)
qed

theorem encoder_accepts_undecodable_witness:
  "\<exists>blob. to_wire (\<lambda>_. replicate 32 0) zero_count_program = Inr blob
     \<and> program_from_wire (\<lambda>_. replicate 32 0) \<lparr>reg_exprs = [], reg_nodes = []\<rparr> blob
         = Inl (DE_Program (PD_OutputCount ''o''))"
proof -
  obtain body where "reject_non_roundtrippable_shapes zero_count_program (pg_buffers zero_count_program) = Inr ()"
    "put_body zero_count_program (pg_buffers zero_count_program) = Inr body" "length body + HEADER_LEN \<le> MAX_PROGRAM_BYTES"
    using zero_count_program_body by blast
  then have blob: "to_wire (\<lambda>_. replicate 32 0) zero_count_program
      = Inr (header_bytes (replicate 32 0) @ body)"
    "length (header_bytes (replicate 32 0) @ body) \<le> MAX_PROGRAM_BYTES"
    by (simp_all add: to_wire_def to_wire_Inr length_header)
  from encoder_accepts_undecodable[OF blob(1), of "[]" "(bd_read_write ''o'' 0 DT_U32)\<lparr>bd_is_output := True\<rparr>" "[]"] blob
  show ?thesis
    by (simp add: bd_read_write_def bd_storage_def is_str_ascii MAX_BUFFERS_def MAX_NODES_def)
qed

end
