(* ===== verification/Ref_Float.thy ===== *)
theory Ref_Float
  imports Vyre_Prelude
begin

text \<open>
  The IEEE-754 arithmetic of the Rust primitive types \<open>f32\<close> and \<open>f64\<close> that the reference
  interpreter uses, on bit patterns: classification, comparison, rounding to nearest with
  ties to even, the four operations, fused multiply-add, the integral rounding functions
  and the \<open>as\<close> conversions.  A finite number is read as sign, magnitude and exponent
  and every operation is computed exactly on integers and rounded once.

  Two things stay parameters of the model, in the record \<open>fp_host\<close>: the elementary functions of
  the third-party crate \<open>libm\<close>, and which zero \<open>f32::min\<close> and \<open>f32::max\<close> return for two zeros of
  different sign, which the language leaves open.
\<close>

type_synonym f32 = "32 word"
type_synonym f64 = "64 word"

datatype libm_fn =
    LM_sinf | LM_cosf | LM_sqrtf | LM_expf | LM_exp2f | LM_logf | LM_log2f | LM_tanf
  | LM_acosf | LM_asinf | LM_atanf | LM_tanhf | LM_sinhf | LM_coshf

record fp_host =
  fh_libm :: "libm_fn \<Rightarrow> f32 \<Rightarrow> f32"
  fh_zero_tie :: "f32 \<Rightarrow> f32 \<Rightarrow> f32"

subsection \<open>Fields and classification\<close>

definition f32_sign :: "f32 \<Rightarrow> bool" where "f32_sign x = bit x 31"
definition f32_mag :: "f32 \<Rightarrow> nat" where "f32_mag x = unat x mod 2 ^ 31"
definition f32_exp :: "f32 \<Rightarrow> nat" where "f32_exp x = f32_mag x div 2 ^ 23"
definition f32_frac :: "f32 \<Rightarrow> nat" where "f32_frac x = f32_mag x mod 2 ^ 23"

definition f64_sign :: "f64 \<Rightarrow> bool" where "f64_sign x = bit x 63"
definition f64_mag :: "f64 \<Rightarrow> nat" where "f64_mag x = unat x mod 2 ^ 63"
definition f64_exp :: "f64 \<Rightarrow> nat" where "f64_exp x = f64_mag x div 2 ^ 52"
definition f64_frac :: "f64 \<Rightarrow> nat" where "f64_frac x = f64_mag x mod 2 ^ 52"

definition f32_is_nan :: "f32 \<Rightarrow> bool" where
  "f32_is_nan x = (f32_exp x = 255 \<and> f32_frac x \<noteq> 0)"

definition f32_is_infinite :: "f32 \<Rightarrow> bool" where
  "f32_is_infinite x = (f32_exp x = 255 \<and> f32_frac x = 0)"

definition f32_is_finite :: "f32 \<Rightarrow> bool" where
  "f32_is_finite x = (f32_exp x < 255)"

definition f32_is_subnormal :: "f32 \<Rightarrow> bool" where
  "f32_is_subnormal x = (f32_exp x = 0 \<and> f32_frac x \<noteq> 0)"

definition f64_is_nan :: "f64 \<Rightarrow> bool" where
  "f64_is_nan x = (f64_exp x = 2047 \<and> f64_frac x \<noteq> 0)"

definition f64_is_finite :: "f64 \<Rightarrow> bool" where
  "f64_is_finite x = (f64_exp x < 2047)"

definition f32_make :: "bool \<Rightarrow> nat \<Rightarrow> f32" where
  "f32_make s mag = of_nat (mag + (if s then 2 ^ 31 else 0))"

definition f64_make :: "bool \<Rightarrow> nat \<Rightarrow> f64" where
  "f64_make s mag = of_nat (mag + (if s then 2 ^ 63 else 0))"

definition F32_INF :: nat where "F32_INF = 255 * 2 ^ 23"
definition F64_INF :: nat where "F64_INF = 2047 * 2 ^ 52"
definition F32_NAN :: f32 where "F32_NAN = 0x7FC00000"

subsection \<open>Comparison\<close>

text \<open>The magnitude bits of two numbers are ordered as the numbers are.\<close>

definition f32_key :: "f32 \<Rightarrow> int" where
  "f32_key x = (if f32_sign x then - int (f32_mag x) else int (f32_mag x))"

definition f64_key :: "f64 \<Rightarrow> int" where
  "f64_key x = (if f64_sign x then - int (f64_mag x) else int (f64_mag x))"

definition f32_eq :: "f32 \<Rightarrow> f32 \<Rightarrow> bool" where
  "f32_eq a b = (\<not> f32_is_nan a \<and> \<not> f32_is_nan b \<and> f32_key a = f32_key b)"

definition f32_lt :: "f32 \<Rightarrow> f32 \<Rightarrow> bool" where
  "f32_lt a b = (\<not> f32_is_nan a \<and> \<not> f32_is_nan b \<and> f32_key a < f32_key b)"

definition f32_le :: "f32 \<Rightarrow> f32 \<Rightarrow> bool" where
  "f32_le a b = (\<not> f32_is_nan a \<and> \<not> f32_is_nan b \<and> f32_key a \<le> f32_key b)"

definition f64_eq :: "f64 \<Rightarrow> f64 \<Rightarrow> bool" where
  "f64_eq a b = (\<not> f64_is_nan a \<and> \<not> f64_is_nan b \<and> f64_key a = f64_key b)"

definition f64_lt :: "f64 \<Rightarrow> f64 \<Rightarrow> bool" where
  "f64_lt a b = (\<not> f64_is_nan a \<and> \<not> f64_is_nan b \<and> f64_key a < f64_key b)"

definition f64_le :: "f64 \<Rightarrow> f64 \<Rightarrow> bool" where
  "f64_le a b = (\<not> f64_is_nan a \<and> \<not> f64_is_nan b \<and> f64_key a \<le> f64_key b)"

definition f32_min :: "fp_host \<Rightarrow> f32 \<Rightarrow> f32 \<Rightarrow> f32" where
  "f32_min h a b =
     (if f32_is_nan a then b else if f32_is_nan b then a
      else if f32_lt a b then a else if f32_lt b a then b
      else if a = b then a else fh_zero_tie h a b)"

definition f32_max :: "fp_host \<Rightarrow> f32 \<Rightarrow> f32 \<Rightarrow> f32" where
  "f32_max h a b =
     (if f32_is_nan a then b else if f32_is_nan b then a
      else if f32_lt b a then a else if f32_lt a b then b
      else if a = b then a else fh_zero_tie h a b)"

subsection \<open>Rounding\<close>

fun bit_len :: "nat \<Rightarrow> nat" where
  "bit_len n = (if n = 0 then 0 else Suc (bit_len (n div 2)))"

declare bit_len.simps [simp del]

text \<open>
  \<open>round_mag p emin limit m e sticky\<close> is the magnitude pattern nearest to \<open>m * 2 ^ e\<close>, or to a number
  a little above it when \<open>sticky\<close>, in the format with \<open>p\<close> significant bits, least exponent \<open>emin\<close>
  and infinity \<open>limit\<close>.  Adding the significand to the scaled exponent gives the pattern of
  subnormal and normal numbers alike, and carries into the exponent.
\<close>

definition round_mag :: "nat \<Rightarrow> int \<Rightarrow> nat \<Rightarrow> nat \<Rightarrow> int \<Rightarrow> bool \<Rightarrow> nat" where
  "round_mag p emin limit m e sticky =
     (let e' = max (e + int (bit_len m) - int p) emin in
      if e' \<le> e then min limit (m * 2 ^ nat (e - e') + nat (e' - emin) * 2 ^ (p - 1))
      else let d = 2 ^ nat (e' - e); q = m div d; r = m mod d;
               up = (d < 2 * r \<or> 2 * r = d \<and> (sticky \<or> odd q)) in
        min limit ((if up then q + 1 else q) + nat (e' - emin) * 2 ^ (p - 1)))"

definition f32_round :: "bool \<Rightarrow> nat \<Rightarrow> int \<Rightarrow> bool \<Rightarrow> f32" where
  "f32_round s m e sticky = f32_make s (if m = 0 then 0 else round_mag 24 (- 149) F32_INF m e sticky)"

definition f64_round :: "bool \<Rightarrow> nat \<Rightarrow> int \<Rightarrow> bool \<Rightarrow> f64" where
  "f64_round s m e sticky = f64_make s (if m = 0 then 0 else round_mag 53 (- 1074) F64_INF m e sticky)"

text \<open>A finite number is \<open>sig * 2 ^ scale\<close>.\<close>

definition f32_sig :: "f32 \<Rightarrow> nat" where
  "f32_sig x = (if f32_exp x = 0 then f32_frac x else 2 ^ 23 + f32_frac x)"

definition f32_scale :: "f32 \<Rightarrow> int" where
  "f32_scale x = (if f32_exp x = 0 then - 149 else int (f32_exp x) - 150)"

definition f64_sig :: "f64 \<Rightarrow> nat" where
  "f64_sig x = (if f64_exp x = 0 then f64_frac x else 2 ^ 52 + f64_frac x)"

definition f64_scale :: "f64 \<Rightarrow> int" where
  "f64_scale x = (if f64_exp x = 0 then - 1074 else int (f64_exp x) - 1075)"

subsection \<open>Arithmetic\<close>

definition signed_sig :: "bool \<Rightarrow> nat \<Rightarrow> int" where
  "signed_sig s m = (if s then - int m else int m)"

text \<open>The rounded sum of two finite numbers; an exact zero is negative only when both terms are.\<close>

definition dyadic_sum :: "bool \<Rightarrow> nat \<Rightarrow> int \<Rightarrow> bool \<Rightarrow> nat \<Rightarrow> int \<Rightarrow> f32" where
  "dyadic_sum s1 m1 e1 s2 m2 e2 =
     (let e = min e1 e2;
          v = signed_sig s1 (m1 * 2 ^ nat (e1 - e)) + signed_sig s2 (m2 * 2 ^ nat (e2 - e)) in
      if v = 0 then f32_make (s1 \<and> s2) 0 else f32_round (v < 0) (nat \<bar>v\<bar>) e False)"

definition f32_neg :: "f32 \<Rightarrow> f32" where
  "f32_neg x = x XOR 0x80000000"

definition f32_abs :: "f32 \<Rightarrow> f32" where
  "f32_abs x = x AND 0x7FFFFFFF"

definition f32_add :: "f32 \<Rightarrow> f32 \<Rightarrow> f32" where
  "f32_add a b =
     (if f32_is_nan a \<or> f32_is_nan b then F32_NAN
      else if f32_is_infinite a then
        (if f32_is_infinite b \<and> f32_sign a \<noteq> f32_sign b then F32_NAN else a)
      else if f32_is_infinite b then b
      else dyadic_sum (f32_sign a) (f32_sig a) (f32_scale a) (f32_sign b) (f32_sig b) (f32_scale b))"

definition f32_sub :: "f32 \<Rightarrow> f32 \<Rightarrow> f32" where
  "f32_sub a b = (if f32_is_nan b then F32_NAN else f32_add a (f32_neg b))"

definition f32_mul :: "f32 \<Rightarrow> f32 \<Rightarrow> f32" where
  "f32_mul a b =
     (let s = (f32_sign a \<noteq> f32_sign b) in
      if f32_is_nan a \<or> f32_is_nan b then F32_NAN
      else if f32_is_infinite a \<or> f32_is_infinite b then
        (if f32_mag a = 0 \<or> f32_mag b = 0 then F32_NAN else f32_make s F32_INF)
      else f32_round s (f32_sig a * f32_sig b) (f32_scale a + f32_scale b) False)"

text \<open>Fifty extra quotient bits exceed the 24 that are kept; the remainder only breaks ties.\<close>

definition f32_div :: "f32 \<Rightarrow> f32 \<Rightarrow> f32" where
  "f32_div a b =
     (let s = (f32_sign a \<noteq> f32_sign b) in
      if f32_is_nan a \<or> f32_is_nan b then F32_NAN
      else if f32_is_infinite a then (if f32_is_infinite b then F32_NAN else f32_make s F32_INF)
      else if f32_is_infinite b then f32_make s 0
      else if f32_mag b = 0 then (if f32_mag a = 0 then F32_NAN else f32_make s F32_INF)
      else let n = f32_sig a * 2 ^ 50 in
        f32_round s (n div f32_sig b) (f32_scale a - f32_scale b - 50) (n mod f32_sig b \<noteq> 0))"

definition f32_mul_add :: "f32 \<Rightarrow> f32 \<Rightarrow> f32 \<Rightarrow> f32" where
  "f32_mul_add a b c =
     (let s = (f32_sign a \<noteq> f32_sign b) in
      if f32_is_nan a \<or> f32_is_nan b \<or> f32_is_nan c then F32_NAN
      else if f32_is_infinite a \<or> f32_is_infinite b then
        (if f32_mag a = 0 \<or> f32_mag b = 0 \<or> f32_is_infinite c \<and> f32_sign c \<noteq> s then F32_NAN
         else f32_make s F32_INF)
      else if f32_is_infinite c then c
      else dyadic_sum s (f32_sig a * f32_sig b) (f32_scale a + f32_scale b)
             (f32_sign c) (f32_sig c) (f32_scale c))"

subsection \<open>Rounding to integers\<close>

definition f32_integral :: "(bool \<Rightarrow> nat \<Rightarrow> nat \<Rightarrow> nat \<Rightarrow> nat) \<Rightarrow> f32 \<Rightarrow> f32" where
  "f32_integral pick x =
     (if \<not> f32_is_finite x \<or> f32_scale x \<ge> 0 then x
      else let d = 2 ^ nat (- f32_scale x) in
        f32_round (f32_sign x) (pick (f32_sign x) (f32_sig x div d) (f32_sig x mod d) d) 0 False)"

definition f32_trunc :: "f32 \<Rightarrow> f32" where
  "f32_trunc = f32_integral (\<lambda>s q r d. q)"

definition f32_floor :: "f32 \<Rightarrow> f32" where
  "f32_floor = f32_integral (\<lambda>s q r d. if s \<and> r \<noteq> 0 then q + 1 else q)"

definition f32_ceil :: "f32 \<Rightarrow> f32" where
  "f32_ceil = f32_integral (\<lambda>s q r d. if \<not> s \<and> r \<noteq> 0 then q + 1 else q)"

definition f32_round_half_away :: "f32 \<Rightarrow> f32" where
  "f32_round_half_away = f32_integral (\<lambda>s q r d. if d \<le> 2 * r then q + 1 else q)"

subsection \<open>Conversions\<close>

text \<open>\<open>f64::from(f32)\<close> is exact; a quiet NaN keeps its payload.\<close>

definition f64_of_f32 :: "f32 \<Rightarrow> f64" where
  "f64_of_f32 x =
     (if f32_is_nan x then f64_make (f32_sign x) (F64_INF + 2 ^ 51 + (f32_frac x mod 2 ^ 22) * 2 ^ 29)
      else if f32_is_infinite x then f64_make (f32_sign x) F64_INF
      else f64_round (f32_sign x) (f32_sig x) (f32_scale x) False)"

definition f32_of_f64 :: "f64 \<Rightarrow> f32" where
  "f32_of_f64 x =
     (if f64_is_nan x then
        f32_make (f64_sign x) (F32_INF + 2 ^ 22 + (f64_frac x mod 2 ^ 51) div 2 ^ 29)
      else if \<not> f64_is_finite x then f32_make (f64_sign x) F32_INF
      else f32_round (f64_sign x) (f64_sig x) (f64_scale x) False)"

definition f32_of_nat :: "nat \<Rightarrow> f32" where
  "f32_of_nat n = f32_round False n 0 False"

definition f32_of_int :: "int \<Rightarrow> f32" where
  "f32_of_int i = f32_round (i < 0) (nat \<bar>i\<bar>) 0 False"

text \<open>The integer part of the magnitude of a finite \<open>f64\<close>.\<close>

definition f64_trunc_mag :: "f64 \<Rightarrow> nat" where
  "f64_trunc_mag x =
     (if f64_scale x \<ge> 0 then f64_sig x * 2 ^ nat (f64_scale x)
      else f64_sig x div 2 ^ nat (- f64_scale x))"

text \<open>\<open>as\<close> casts to integers saturate and send NaN to zero.\<close>

definition f64_as_u32 :: "f64 \<Rightarrow> u32" where
  "f64_as_u32 x =
     (if f64_is_nan x \<or> f64_sign x then 0
      else if \<not> f64_is_finite x then - 1
      else of_nat (min (f64_trunc_mag x) (2 ^ 32 - 1)))"

definition f64_as_u64 :: "f64 \<Rightarrow> u64" where
  "f64_as_u64 x =
     (if f64_is_nan x \<or> f64_sign x then 0
      else if \<not> f64_is_finite x then - 1
      else of_nat (min (f64_trunc_mag x) (2 ^ 64 - 1)))"

definition f64_as_i32 :: "f64 \<Rightarrow> u32" where
  "f64_as_i32 x =
     (if f64_is_nan x then 0
      else if f64_sign x then
        (if \<not> f64_is_finite x then 0x80000000 else - of_nat (min (f64_trunc_mag x) (2 ^ 31)))
      else if \<not> f64_is_finite x then 0x7FFFFFFF
      else of_nat (min (f64_trunc_mag x) (2 ^ 31 - 1)))"

subsection \<open>Widening is exact\<close>

lemma bit_len_pos: "0 < n \<Longrightarrow> 0 < bit_len n"
  by (subst bit_len.simps) simp

lemma bit_len_bounds: "0 < n \<Longrightarrow> 2 ^ (bit_len n - 1) \<le> n \<and> n < 2 ^ bit_len n"
proof (induction n rule: bit_len.induct)
  case (1 n)
  show ?case
  proof (cases "n div 2 = 0")
    case True
    with 1(2) have "n = 1" by linarith
    then show ?thesis by (simp add: bit_len.simps)
  next
    case False
    with 1 have IH: "2 ^ (bit_len (n div 2) - 1) \<le> n div 2 \<and> n div 2 < 2 ^ bit_len (n div 2)" by simp
    obtain k where k: "bit_len (n div 2) = Suc k"
      using bit_len_pos[of "n div 2"] False gr0_implies_Suc by blast
    have "bit_len n = Suc (Suc k)" using 1(2) k by (subst bit_len.simps) simp
    with IH k show ?thesis by (simp; linarith)
  qed
qed

lemma bit_len_unique:
  assumes "2 ^ k \<le> n" "n < 2 ^ Suc k"
  shows "bit_len n = Suc k"
proof -
  have "0 < n" using assms(1) by (metis less_le_trans zero_less_numeral zero_less_power)
  note b = bit_len_bounds[OF this] bit_len_pos[OF this]
  have "(2 :: nat) ^ (bit_len n - 1) < 2 ^ Suc k" using b(1) assms(2) by linarith
  then have "bit_len n - 1 < Suc k" using power_strict_increasing_iff[of "2 :: nat" "bit_len n - 1" "Suc k"] by simp
  moreover have "(2 :: nat) ^ k < 2 ^ bit_len n" using b(1) assms(1) by linarith
  then have "k < bit_len n" by simp
  ultimately show ?thesis using b by linarith
qed

lemma split_sign_bit:
  fixes u :: nat
  assumes "u < 2 * 2 ^ k"
  shows "u = u mod 2 ^ k + (if odd (u div 2 ^ k) then 2 ^ k else 0)"
proof -
  have "u div 2 ^ k < 2" using assms by (simp add: less_mult_imp_div_less)
  then consider "u div 2 ^ k = 0" | "u div 2 ^ k = 1" by linarith
  then show ?thesis using div_mult_mod_eq[of u "2 ^ k"] by cases simp_all
qed

lemma bit_unat: "bit x n = odd (unat x div 2 ^ n)" for x :: "'a :: len word"
proof -
  have "bit (unat x) n = bit x n" by (simp add: bit_unsigned_iff)
  then show ?thesis by (simp add: bit_iff_odd)
qed

lemma unat_f32: "unat x = f32_mag x + (if f32_sign x then 2 ^ 31 else 0)"
  using split_sign_bit[of "unat x" 31] unsigned_less[of x, where 'a = nat]
  by (simp add: f32_sign_def f32_mag_def bit_unat)

lemma f32_make_fields [simp]: "f32_make (f32_sign x) (f32_mag x) = x"
  by (simp only: f32_make_def flip: unat_f32) simp

lemma f64_fields_make [simp]:
  assumes "m < 2 ^ 63"
  shows "f64_sign (f64_make s m) = s" "f64_mag (f64_make s m) = m"
proof -
  have u: "unat (f64_make s m) = m + (if s then 2 ^ 63 else 0)"
    using assms by (simp add: f64_make_def unat_of_nat take_bit_nat_eq_self del: of_nat_add)
  show "f64_sign (f64_make s m) = s" using assms by (simp add: f64_sign_def bit_unat u div_add_self2)
  show "f64_mag (f64_make s m) = m" using assms by (simp add: f64_mag_def u)
qed

text \<open>
  A positive \<open>m * 2 ^ e\<close> that is exactly an \<open>f32\<close>: normal when \<open>m\<close> has 24 bits, subnormal otherwise.
\<close>

definition f32_exact :: "nat \<Rightarrow> int \<Rightarrow> bool" where
  "f32_exact m e = (0 < m \<and> bit_len m \<le> 24 \<and> - 149 \<le> e \<and> e \<le> 104 \<and> (bit_len m = 24 \<or> e = - 149))"

lemma f64_round_exact:
  assumes "f32_exact m e"
  defines "k \<equiv> 53 - bit_len m"
  shows "f64_round s m e False = f64_make s (m * 2 ^ k + nat (e - int k + 1074) * 2 ^ 52)"
    and "m * 2 ^ k + nat (e - int k + 1074) * 2 ^ 52 < F64_INF"
    and "2 ^ 52 \<le> m * 2 ^ k" "m * 2 ^ k < 2 ^ 53"
proof -
  have m: "0 < m" "bit_len m \<le> 24" "- 149 \<le> e" "e \<le> 104" using assms(1) by (auto simp: f32_exact_def)
  have k: "29 \<le> k" "int k = 53 - int (bit_len m)" using m(2) by (auto simp: k_def)
  have k52: "k < 53" using bit_len_pos[OF m(1)] by (simp add: k_def)
  have eq52: "bit_len m - 1 + k = 52" "bit_len m + k = 53"
    using m(2) bit_len_pos[OF m(1)] by (auto simp: k_def)
  show lo: "2 ^ 52 \<le> m * 2 ^ k"
    using bit_len_bounds[OF m(1)] mult_le_mono1[of "2 ^ (bit_len m - 1)" m "2 ^ k"]
    by (simp only: eq52 flip: power_add)
  show hi: "m * 2 ^ k < 2 ^ 53"
    using bit_len_bounds[OF m(1)] mult_less_mono1[of m "2 ^ bit_len m" "2 ^ k"]
    by (simp only: eq52 flip: power_add) simp
  have "nat (e - int k + 1074) \<le> 1149" using m(4) k(1) by linarith
  then have "nat (e - int k + 1074) * 2 ^ 52 \<le> 1149 * 2 ^ 52" by simp
  with hi show lt: "m * 2 ^ k + nat (e - int k + 1074) * 2 ^ 52 < F64_INF"
    by (simp add: F64_INF_def)
  have e': "max (e + int (bit_len m) - int 53) (- 1074) = e - int k" using k m(3) k52 by auto
  have "nat (e - (e - int k)) = k" by simp
  then have "round_mag 53 (- 1074) F64_INF m e False = m * 2 ^ k + nat (e - int k + 1074) * 2 ^ 52"
    using lt unfolding round_mag_def e' by (simp add: Let_def)
  then show "f64_round s m e False = f64_make s (m * 2 ^ k + nat (e - int k + 1074) * 2 ^ 52)"
    using m(1) by (simp add: f64_round_def)
qed

lemma f32_round_exact:
  assumes "f32_exact m e"
  defines "k \<equiv> 53 - bit_len m"
  shows "f32_round s (m * 2 ^ k) (e - int k) False = f32_make s (m + nat (e + 149) * 2 ^ 23)"
proof -
  have m: "0 < m" "bit_len m \<le> 24" "- 149 \<le> e" "e \<le> 104" "bit_len m = 24 \<or> e = - 149"
    using assms(1) by (auto simp: f32_exact_def)
  note sig = f64_round_exact(3,4)[OF assms(1), folded k_def]
  have len: "bit_len (m * 2 ^ k) = 53" using bit_len_unique[of 52 "m * 2 ^ k"] sig by simp
  have k: "int k = 53 - int (bit_len m)" "0 < k" using m(2) by (auto simp: k_def)
  have e': "max (e - int k + int 53 - int 24) (- 149) = e" using m k by auto
  have d: "nat (e - (e - int k)) = k" by simp
  have "m < 2 ^ 24"
    using bit_len_bounds[OF m(1)] m(2) by (metis less_le_trans one_le_numeral power_increasing)
  moreover have "nat (e + 149) \<le> 253" using m(4) by linarith
  then have "nat (e + 149) * 2 ^ 23 \<le> 253 * 2 ^ 23" by simp
  ultimately have lt: "m + nat (e + 149) * 2 ^ 23 < F32_INF" by (simp add: F32_INF_def)
  have "round_mag 24 (- 149) F32_INF (m * 2 ^ k) (e - int k) False = m + nat (e + 149) * 2 ^ 23"
    using lt k(2) unfolding round_mag_def len e' d by (simp add: Let_def)
  with m(1) show ?thesis by (simp add: f32_round_def)
qed

lemma f32_of_f64_exact:
  assumes "f32_exact m e"
  shows "f32_of_f64 (f64_round s m e False) = f32_make s (m + nat (e + 149) * 2 ^ 23)"
proof -
  define k where "k = 53 - bit_len m"
  define x where "x = f64_round s m e False"
  note r = f64_round_exact(1)[OF assms, of s, folded k_def x_def]
    f64_round_exact(2-4)[OF assms, folded k_def]
  have k: "k < 53" using assms bit_len_pos[of m] by (auto simp: k_def f32_exact_def)
  define E where "E = nat (e - int k + 1075)"
  have E: "nat (e - int k + 1074) = E - 1" "0 < E" "int E = e - int k + 1075"
    using assms k by (auto simp: E_def f32_exact_def)
  have mag: "f64_mag x = (m * 2 ^ k - 2 ^ 52) + E * 2 ^ 52"
    and sg: "f64_sign x = s"
    using r(2,3) E unfolding r(1) by (auto simp: F64_INF_def diff_mult_distrib)
  have small: "m * 2 ^ k - 2 ^ 52 < 2 ^ 52" using r(4) by simp
  have ex: "f64_exp x = E" using small by (simp add: f64_exp_def mag)
  have fr: "f64_frac x = m * 2 ^ k - 2 ^ 52" using small by (simp add: f64_frac_def mag)
  have "E < 2047" using assms E(3) by (auto simp: f32_exact_def)
  then show ?thesis
    using f32_round_exact[OF assms, of s, folded k_def] E r(3)
    by (simp add: f32_of_f64_def f64_is_nan_def f64_is_finite_def f64_sig_def f64_scale_def
        ex fr sg flip: x_def)
qed

lemma f32_of_f64_of_f32:
  assumes "\<not> f32_is_nan x"
  shows "f32_of_f64 (f64_of_f32 x) = x"
proof -
  have "unat x mod 2 ^ 31 < 2 ^ 31" by simp
  then have mag: "f32_mag x < 2 ^ 31" by (simp add: f32_mag_def)
  then have ex: "f32_exp x < 256" by (simp add: f32_exp_def less_mult_imp_div_less)
  have fr: "f32_frac x < 2 ^ 23" by (simp add: f32_frac_def)
  have parts: "f32_mag x = f32_exp x * 2 ^ 23 + f32_frac x"
    by (simp add: f32_exp_def f32_frac_def)
  consider "f32_is_infinite x" | "f32_sig x = 0" "f32_mag x = 0" | "f32_exact (f32_sig x) (f32_scale x)"
    "\<not> f32_is_infinite x"
  proof (cases "f32_exp x = 255 \<or> f32_exp x = 0")
    case True
    have "bit_len (f32_frac x) \<le> 24" if "0 < f32_frac x"
    proof -
      have "(2 :: nat) ^ (bit_len (f32_frac x) - 1) < 2 ^ 23"
        using bit_len_bounds[OF that] fr by linarith
      then show ?thesis
        using power_strict_increasing_iff[of "2 :: nat" "bit_len (f32_frac x) - 1" 23] by simp
    qed
    with True that assms parts show ?thesis
      by (cases "f32_frac x = 0")
        (auto simp: f32_is_infinite_def f32_is_nan_def f32_exact_def f32_sig_def f32_scale_def)
  next
    case False
    have "bit_len (2 ^ 23 + f32_frac x) = 24" using bit_len_unique[of 23] fr by simp
    with False ex that(3) show ?thesis
      by (simp add: f32_exact_def f32_sig_def f32_scale_def f32_is_infinite_def)
  qed
  then show ?thesis
  proof cases
    case 1
    then have "f32_mag x = F32_INF" by (simp add: parts f32_is_infinite_def F32_INF_def)
    with 1 f32_make_fields[of x] show ?thesis
      by (simp add: f64_of_f32_def assms f32_of_f64_def f64_is_nan_def f64_is_finite_def f64_exp_def
          f64_frac_def F64_INF_def)
  next
    case 2
    then have "\<not> f32_is_infinite x" by (auto simp: parts f32_is_infinite_def)
    with 2 f32_make_fields[of x] show ?thesis
      by (simp add: f64_of_f32_def assms f64_round_def f32_of_f64_def f64_is_nan_def f64_is_finite_def
          f64_exp_def f64_frac_def f64_sig_def f32_round_def)
  next
    case 3
    have "f32_sig x + nat (f32_scale x + 149) * 2 ^ 23 = f32_mag x"
      by (cases "f32_exp x") (simp_all add: parts f32_sig_def f32_scale_def nat_add_distrib)
    with 3 show ?thesis by (simp add: f64_of_f32_def assms f32_of_f64_exact)
  qed
qed

end
