(* ===== verification/Ref_Value.thy ===== *)
theory Ref_Value
  imports Ref_Float Wire_Framing Spec_DataType
begin

text \<open>
  Runtime values of the reference interpreter (\<open>vyre-reference/src/value.rs\<close>) with the float
  canonicalisation they go through (\<open>execution/typed_ops/float_ops.rs\<close>).  A \<open>Float\<close> is its
  \<open>f64\<close> pattern, so the equality of the datatype is the source's \<open>PartialEq\<close>, which compares
  floats by \<open>to_bits\<close>.  Functions that write into a slice return the new contents.
\<close>

datatype (plugins only: code size) ref_value =
    V_U32 u32
  | V_I32 u32
  | V_U64 u64
  | V_Bool bool
  | V_Bytes bytes
  | V_Float f64
  | V_Array "ref_value list"

definition canonical_f32 :: "f32 \<Rightarrow> f32" where
  "canonical_f32 value =
     (if f32_is_nan value then 0x7FC00000
      else if f32_is_subnormal value then value AND 0x80000000
      else value)"

subsection \<open>Reading scalars\<close>

text \<open>\<open>Vec::resize\<close> with zeros.\<close>

definition pad_to :: "nat \<Rightarrow> bytes \<Rightarrow> bytes" where
  "pad_to n bs = take n bs @ replicate (n - length bs) 0"

definition u32_of_le :: "bytes \<Rightarrow> u32" where
  "u32_of_le bs = u32_from_le_bytes (bs ! 0) (bs ! 1) (bs ! 2) (bs ! 3)"

definition u64_of_le :: "bytes \<Rightarrow> u64" where
  "u64_of_le bs = u64_from_le_bytes (u32_of_le bs) (u32_of_le (drop 4 bs))"

definition read_u32_prefix :: "bytes \<Rightarrow> u32" where
  "read_u32_prefix bs = u32_of_le (pad_to 4 bs)"

definition read_u64_prefix :: "bytes \<Rightarrow> u64" where
  "read_u64_prefix bs = u64_of_le (pad_to 8 bs)"

definition f64_to_u32 :: "f64 \<Rightarrow> u32 option" where
  "f64_to_u32 value =
     (if f64_is_finite value \<and> f64_le 0 value \<and> f64_le value 0x41EFFFFFFFE00000
      then Some (f64_as_u32 value) else None)"

definition f64_to_u64 :: "f64 \<Rightarrow> u64 option" where
  "f64_to_u64 value =
     (if f64_is_finite value \<and> f64_le 0 value \<and> f64_lt value 0x43F0000000000000
      then Some (f64_as_u64 value) else None)"

fun try_as_u32 :: "ref_value \<Rightarrow> u32 option" where
  "try_as_u32 (V_U32 v) = Some v"
| "try_as_u32 (V_I32 v) = (if bit v 31 then None else Some v)"
| "try_as_u32 (V_U64 v) = (if unat v < 2 ^ 32 then Some (ucast v) else None)"
| "try_as_u32 (V_Bool v) = Some (of_bool v)"
| "try_as_u32 (V_Bytes bs) = (if length bs \<le> 4 then Some (read_u32_prefix bs) else None)"
| "try_as_u32 (V_Float v) = f64_to_u32 v"
| "try_as_u32 (V_Array _) = None"

fun try_as_u64 :: "ref_value \<Rightarrow> u64 option" where
  "try_as_u64 (V_U32 v) = Some (ucast v)"
| "try_as_u64 (V_I32 v) = (if bit v 31 then None else Some (ucast v))"
| "try_as_u64 (V_U64 v) = Some v"
| "try_as_u64 (V_Bool v) = Some (of_bool v)"
| "try_as_u64 (V_Bytes bs) = (if length bs \<le> 8 then Some (read_u64_prefix bs) else None)"
| "try_as_u64 (V_Float v) = f64_to_u64 v"
| "try_as_u64 (V_Array _) = None"

fun try_as_f32 :: "ref_value \<Rightarrow> f32 option" where
  "try_as_f32 (V_Float v) = Some (f32_of_f64 v)"
| "try_as_f32 (V_U32 v) = Some v"
| "try_as_f32 _ = None"

fun truthy :: "ref_value \<Rightarrow> bool" where
  "truthy (V_Array vs) = (vs \<noteq> [])"
| "truthy (V_Float v) = (\<not> f64_eq v 0)"
| "truthy v = (case try_as_u32 v of None \<Rightarrow> True | Some w \<Rightarrow> w \<noteq> 0)"

subsection \<open>Bytes of a value\<close>

fun to_bytes :: "ref_value \<Rightarrow> bytes" where
  "to_bytes (V_U32 v) = u32_to_le_bytes v"
| "to_bytes (V_I32 v) = u32_to_le_bytes v"
| "to_bytes (V_U64 v) = u64_to_le_bytes v"
| "to_bytes (V_Bool v) = u32_to_le_bytes (of_bool v)"
| "to_bytes (V_Bytes bs) = bs"
| "to_bytes (V_Float v) = u64_to_le_bytes v"
| "to_bytes (V_Array vs) = concat (map to_bytes vs)"

definition to_bytes_width :: "ref_value \<Rightarrow> nat \<Rightarrow> bytes" where
  "to_bytes_width v declared_width =
     (if declared_width = 0 then to_bytes v
      else take declared_width (pad_to declared_width (to_bytes v)))"

definition overwrite :: "nat \<Rightarrow> bytes \<Rightarrow> bytes \<Rightarrow> bytes" where
  "overwrite off new target = take off target @ new @ drop (off + length new) target"

definition copy_bytes_prefix :: "bytes \<Rightarrow> bytes \<times> nat \<Rightarrow> bytes \<times> nat" where
  "copy_bytes_prefix bs st =
     (case st of (target, cursor) \<Rightarrow>
       if length target \<le> cursor then (target, cursor)
       else let len = min (length target - cursor) (length bs) in
         (overwrite cursor (take len bs) target, cursor + len))"

fun copy_raw_bytes_prefix :: "ref_value \<Rightarrow> bytes \<times> nat \<Rightarrow> bytes \<times> nat" and
    copy_raw_array :: "ref_value list \<Rightarrow> bytes \<times> nat \<Rightarrow> bytes \<times> nat" where
  "copy_raw_bytes_prefix (V_U32 v) st = copy_bytes_prefix (u32_to_le_bytes v) st"
| "copy_raw_bytes_prefix (V_I32 v) st = copy_bytes_prefix (u32_to_le_bytes v) st"
| "copy_raw_bytes_prefix (V_U64 v) st = copy_bytes_prefix (u64_to_le_bytes v) st"
| "copy_raw_bytes_prefix (V_Bool v) st = copy_bytes_prefix (u32_to_le_bytes (of_bool v)) st"
| "copy_raw_bytes_prefix (V_Bytes bs) st = copy_bytes_prefix bs st"
| "copy_raw_bytes_prefix (V_Float v) st = copy_bytes_prefix (u64_to_le_bytes v) st"
| "copy_raw_bytes_prefix (V_Array vs) st = copy_raw_array vs st"
| "copy_raw_array [] st = st"
| "copy_raw_array (v # vs) st =
     (if length (fst st) \<le> snd st then st else copy_raw_array vs (copy_raw_bytes_prefix v st))"

definition write_bytes_width_into :: "ref_value \<Rightarrow> bytes \<Rightarrow> bytes" where
  "write_bytes_width_into v target =
     fst (copy_raw_bytes_prefix v (replicate (length target) 0, 0))"

definition extend_fixed_width :: "bytes \<Rightarrow> nat \<Rightarrow> bytes \<Rightarrow> bytes" where
  "extend_fixed_width bs declared_width out =
     (if declared_width = 0 then out @ bs
      else let copied = min (length bs) declared_width in
        out @ take copied bs @ replicate (declared_width - copied) 0)"

text \<open>
  \<open>None\<close> is the length overflow error.  The truncation to \<open>start_len + min(...)\<close> keeps the bytes
  appended so far up to the declared width, and the resize pads them.
\<close>

fun extend_bytes_width :: "ref_value \<Rightarrow> nat \<Rightarrow> bytes \<Rightarrow> bytes option" and
    extend_array :: "ref_value list \<Rightarrow> bytes \<Rightarrow> bytes option" where
  "extend_bytes_width v declared_width out =
     (if declared_width \<noteq> 0 \<and> usize_bound \<le> length out + declared_width then None
      else case v of
          V_U32 x \<Rightarrow> Some (extend_fixed_width (u32_to_le_bytes x) declared_width out)
        | V_I32 x \<Rightarrow> Some (extend_fixed_width (u32_to_le_bytes x) declared_width out)
        | V_U64 x \<Rightarrow> Some (extend_fixed_width (u64_to_le_bytes x) declared_width out)
        | V_Bool b \<Rightarrow> Some (extend_fixed_width (u32_to_le_bytes (of_bool b)) declared_width out)
        | V_Bytes bs \<Rightarrow> Some (extend_fixed_width bs declared_width out)
        | V_Float x \<Rightarrow> Some (extend_fixed_width (u64_to_le_bytes x) declared_width out)
        | V_Array vs \<Rightarrow>
            (case extend_array vs out of
               None \<Rightarrow> None
             | Some out' \<Rightarrow>
                 Some (if declared_width = 0 then out'
                       else pad_to (length out + declared_width)
                              (take (length out + min declared_width (length out' - length out)) out'))))"
| "extend_array [] out = Some out"
| "extend_array (v # vs) out =
     (case extend_bytes_width v 0 out of None \<Rightarrow> None | Some out' \<Rightarrow> extend_array vs out')"

subsection \<open>Elements of a buffer\<close>

fun fixed_scalar_storage_width :: "data_type \<Rightarrow> usize option" where
  "fixed_scalar_storage_width DT_U8 = Some 1"
| "fixed_scalar_storage_width DT_I8 = Some 1"
| "fixed_scalar_storage_width DT_F8E4M3 = Some 1"
| "fixed_scalar_storage_width DT_F8E5M2 = Some 1"
| "fixed_scalar_storage_width DT_I4 = Some 1"
| "fixed_scalar_storage_width DT_FP4 = Some 1"
| "fixed_scalar_storage_width DT_NF4 = Some 1"
| "fixed_scalar_storage_width DT_U16 = Some 2"
| "fixed_scalar_storage_width DT_I16 = Some 2"
| "fixed_scalar_storage_width DT_F16 = Some 2"
| "fixed_scalar_storage_width DT_BF16 = Some 2"
| "fixed_scalar_storage_width (DT_Handle _) = Some 4"
| "fixed_scalar_storage_width (DT_DeviceMesh _) = Some 4"
| "fixed_scalar_storage_width DT_I64 = Some 8"
| "fixed_scalar_storage_width (DT_Array n) = Some n"
| "fixed_scalar_storage_width (DT_Vec element count) =
     Option.bind (fixed_scalar_storage_width element) (\<lambda>w. usize_checked_mul w (ucast count))"
| "fixed_scalar_storage_width (DT_TensorShaped element shape) =
     Option.bind (fixed_scalar_storage_width element)
       (\<lambda>w. fold (\<lambda>d acc. Option.bind acc (\<lambda>w. usize_checked_mul w (ucast d))) shape (Some w))"
| "fixed_scalar_storage_width (DT_Quantized storage _ _) = fixed_scalar_storage_width storage"
| "fixed_scalar_storage_width _ = None"

fun try_zero_for :: "data_type \<Rightarrow> ref_value option" where
  "try_zero_for DT_U32 = Some (V_U32 0)"
| "try_zero_for DT_I32 = Some (V_I32 0)"
| "try_zero_for DT_U64 = Some (V_U64 0)"
| "try_zero_for DT_Bool = Some (V_Bool False)"
| "try_zero_for DT_Bytes = Some (V_Bytes [])"
| "try_zero_for DT_F32 = Some (V_Float 0)"
| "try_zero_for DT_F64 = Some (V_Float 0)"
| "try_zero_for DT_Vec2U32 = Some (V_Bytes (replicate 8 0))"
| "try_zero_for DT_Vec4U32 = Some (V_Bytes (replicate 16 0))"
| "try_zero_for ty =
     map_option (\<lambda>w. V_Bytes (replicate (unat w) 0)) (fixed_scalar_storage_width ty)"

definition zero_for :: "data_type \<Rightarrow> ref_value" where
  "zero_for ty = (case try_zero_for ty of None \<Rightarrow> V_Bytes [] | Some v \<Rightarrow> v)"

definition need_bytes :: "nat \<Rightarrow> bytes \<Rightarrow> ref_value \<Rightarrow> ref_value option" where
  "need_bytes n bs v = (if length bs < n then None else Some v)"

fun from_element_bytes :: "data_type \<Rightarrow> bytes \<Rightarrow> ref_value option" where
  "from_element_bytes DT_U32 bs = need_bytes 4 bs (V_U32 (u32_of_le bs))"
| "from_element_bytes DT_I32 bs = need_bytes 4 bs (V_I32 (u32_of_le bs))"
| "from_element_bytes DT_U64 bs = need_bytes 8 bs (V_U64 (u64_of_le bs))"
| "from_element_bytes DT_Bool bs = need_bytes 4 bs (V_Bool (u32_of_le bs \<noteq> 0))"
| "from_element_bytes DT_Vec2U32 bs = need_bytes 8 bs (V_Bytes (take 8 bs))"
| "from_element_bytes DT_Vec4U32 bs = need_bytes 16 bs (V_Bytes (take 16 bs))"
| "from_element_bytes DT_F32 bs =
     need_bytes 4 bs (V_Float (f64_of_f32 (canonical_f32 (u32_of_le bs))))"
| "from_element_bytes DT_F64 bs = need_bytes 8 bs (V_Float (u64_of_le bs))"
| "from_element_bytes DT_Bytes bs = Some (V_Bytes bs)"
| "from_element_bytes ty bs =
     (case fixed_scalar_storage_width ty of
        Some w \<Rightarrow> need_bytes (unat w) bs (V_Bytes (take (unat w) bs))
      | None \<Rightarrow> Some (V_Bytes bs))"

subsection \<open>The byte writers\<close>

text \<open>What a fixed-width slot holds after the bytes \<open>acc\<close> were copied into it.\<close>

definition slot :: "nat \<Rightarrow> bytes \<Rightarrow> bytes \<times> nat" where
  "slot n acc = (pad_to n acc, min n (length acc))"

lemma length_pad_to [simp]: "length (pad_to n bs) = n"
  by (simp add: pad_to_def min_def)

lemma pad_to_append_full: "n \<le> length acc \<Longrightarrow> pad_to n (acc @ bs) = pad_to n acc"
  by (simp add: pad_to_def)

lemma copy_bytes_prefix_slot: "copy_bytes_prefix bs (slot n acc) = slot n (acc @ bs)"
proof (cases "length acc < n")
  case False
  then show ?thesis by (simp add: copy_bytes_prefix_def slot_def pad_to_append_full)
next
  case True
  let ?k = "min (n - length acc) (length bs)"
  have "overwrite (length acc) (take ?k bs) (pad_to n acc) = pad_to n (acc @ bs)"
    using True by (simp add: overwrite_def pad_to_def min_def)
  then show ?thesis
    using True by (auto simp: copy_bytes_prefix_def slot_def Let_def)
qed

lemma copy_raw_slot:
  "st = slot n acc \<Longrightarrow> copy_raw_bytes_prefix v st = slot n (acc @ to_bytes v)"
  "st = slot n acc \<Longrightarrow> copy_raw_array vs st = slot n (acc @ concat (map to_bytes vs))"
proof (induction v st and vs st arbitrary: acc and acc
    rule: copy_raw_bytes_prefix_copy_raw_array.induct)
  case (9 v vs st)
  show ?case
  proof (cases "n \<le> length acc")
    case True
    then show ?thesis by (simp add: 9(3)) (simp add: slot_def pad_to_append_full)
  next
    case False
    then have "\<not> length (fst st) \<le> snd st" by (simp add: 9(3) slot_def)
    with 9(1)[OF this 9(3)] 9(2)[OF this, of "acc @ to_bytes v"] show ?thesis by simp
  qed
qed (simp_all add: copy_bytes_prefix_slot)

lemma write_bytes_width_into_eq: "write_bytes_width_into v target = pad_to (length target) (to_bytes v)"
proof -
  have "(replicate (length target) 0, 0) = slot (length target) []"
    by (simp add: slot_def pad_to_def)
  then show ?thesis by (simp add: write_bytes_width_into_def copy_raw_slot[OF refl]) (simp add: slot_def)
qed

lemma to_bytes_width_eq: "to_bytes_width v n = (if n = 0 then to_bytes v else pad_to n (to_bytes v))"
  by (simp add: to_bytes_width_def)

lemma extend_fixed_width_eq:
  "extend_fixed_width bs n out = out @ (if n = 0 then bs else pad_to n bs)"
  by (simp add: extend_fixed_width_def pad_to_def min_def)

lemma extend_bytes_width_eq:
  "extend_bytes_width v n out =
     (if n \<noteq> 0 \<and> usize_bound \<le> length out + n then None else Some (out @ to_bytes_width v n))"
  "extend_array vs out = Some (out @ concat (map to_bytes vs))"
proof (induction v n out and vs out rule: extend_bytes_width_extend_array.induct)
  case (1 v n out)
  have pad: "take (min n (length bs)) bs @ replicate (n - min n (length bs)) 0 = pad_to n bs"
    for bs by (cases "n \<le> length bs") (simp_all add: pad_to_def)
  show ?case
    using 1 by (cases v) (simp_all add: extend_fixed_width_eq to_bytes_width_eq pad_to_def[of "_ + _"] pad)
qed (simp_all add: to_bytes_width_eq)

declare extend_bytes_width.simps [simp del]

subsection \<open>Canonical floats\<close>

lemma and_sign_mask: "(x :: f32) AND 0x80000000 = (if f32_sign x then 0x80000000 else 0)"
proof (rule bit_word_eqI)
  fix n
  assume "n < LENGTH(32)"
  then have "bit (0x80000000 :: f32) n = (n = 31)"
    using bit_push_bit_iff[of 31 "1 :: f32" n] by (auto simp: bit_1_iff)
  then show "bit (x AND 0x80000000) n = bit (if f32_sign x then 0x80000000 else 0 :: f32) n"
    by (cases "n = 31") (auto simp: bit_and_iff f32_sign_def)
qed

lemma f32_mag_constants: "f32_mag 0 = 0" "f32_mag 0x80000000 = 0" "f32_mag 0x7FC00000 = 0x7FC00000"
  by (simp_all add: f32_mag_def)

lemma canonical_f32_cases:
  obtains "canonical_f32 x = F32_NAN"
  | "\<not> f32_is_nan (canonical_f32 x)" "\<not> f32_is_subnormal (canonical_f32 x)"
proof (cases "f32_is_nan x")
  case True
  then show ?thesis using that(1) by (simp add: canonical_f32_def F32_NAN_def)
next
  case nn: False
  show ?thesis
  proof (cases "f32_is_subnormal x")
    case True
    have "f32_mag (x AND 0x80000000) = 0" by (simp add: and_sign_mask f32_mag_constants)
    then show ?thesis
      using that(2) nn True
      by (simp add: canonical_f32_def f32_is_nan_def f32_is_subnormal_def f32_exp_def f32_frac_def)
  next
    case False
    then show ?thesis using that(2) nn by (simp add: canonical_f32_def)
  qed
qed

lemma F32_NAN_facts: "f32_is_nan F32_NAN" "canonical_f32 F32_NAN = F32_NAN"
  by (simp_all add: F32_NAN_def canonical_f32_def f32_is_nan_def f32_exp_def f32_frac_def f32_mag_constants)

lemma canonical_f32_idem [simp]: "canonical_f32 (canonical_f32 x) = canonical_f32 x"
  by (rule canonical_f32_cases[of x]) (simp_all add: F32_NAN_facts canonical_f32_def[of "canonical_f32 x"])

text \<open>Widening a canonical \<open>f32\<close> to the \<open>f64\<close> of a value loses nothing.\<close>

lemma widen_nan: "f32_of_f64 (f64_of_f32 F32_NAN) = F32_NAN"
proof -
  have w: "f64_of_f32 F32_NAN = 0x7FF8000000000000"
    using F32_NAN_facts(1)
    by (simp add: f64_of_f32_def) (simp add: F32_NAN_def f32_sign_def bit_unat f32_frac_def
        f32_mag_constants f64_make_def F64_INF_def)
  have m: "f64_mag 0x7FF8000000000000 = 0x7FF8000000000000" "\<not> f64_sign 0x7FF8000000000000"
    by (simp_all add: f64_mag_def f64_sign_def bit_unat)
  show ?thesis
    unfolding w
    by (simp add: f32_of_f64_def f64_is_nan_def f64_exp_def f64_frac_def m f32_make_def F32_INF_def F32_NAN_def)
qed

lemma widen_canonical [simp]: "f32_of_f64 (f64_of_f32 (canonical_f32 x)) = canonical_f32 x"
  by (rule canonical_f32_cases[of x]) (simp_all add: widen_nan f32_of_f64_of_f32)

subsection \<open>Properties\<close>

text \<open>
  C22.  The two allocation-free encoders agree with the reference encoder \<open>to_bytes_width\<close>:
  writing a value into a slot gives exactly its encoding at the slot's width (nothing for an empty
  slot), and appending it gives the buffer followed by that encoding, unless the
  length overflows, for nested arrays too.
\<close>

theorem byte_writers_agree:
  "write_bytes_width_into v target = (if target = [] then [] else to_bytes_width v (length target)) \<and>
   extend_bytes_width v n out =
     (if n \<noteq> 0 \<and> usize_bound \<le> length out + n then None else Some (out @ to_bytes_width v n))"
  by (auto simp: write_bytes_width_into_eq to_bytes_width_eq extend_bytes_width_eq(1) pad_to_def)

end
