(* ===== verification/Ref_Ops.thy ===== *)
theory Ref_Ops
  imports Ref_Value Spec_Ops
begin

text \<open>
  The primitive operators of the reference interpreter: binary and unary operators dispatched on
  the variant of their operands (\<open>vyre-reference/src/execution/typed_ops\<close>), casts
  (\<open>execution/expr_cast.rs\<close>), the deterministic float functions (\<open>ieee754.rs\<close>) and the sequential
  semantics of atomics (\<open>atomics.rs\<close>).  The source writes the integer operators once as
  a macro and instantiates it at \<open>u32\<close>, \<open>i32\<close> and \<open>u64\<close>; the model has one higher-order function
  with the macro's parameters.  A signed integer is its bit pattern, read by \<open>sint\<close>.
\<close>

text \<open>
  Every failure of the interpreter is an \<open>Error::interp\<close> with a message; the model keeps which one.
\<close>

datatype (plugins only: code size) op_error =
    OE_MismatchedOperands bin_op
  | OE_NonPrimitiveOperand un_op
  | OE_UnknownBinOp bin_op
  | OE_UnknownUnOp un_op
  | OE_UndefinedDivision
  | OE_BoolBinOp bin_op
  | OE_BoolUnOp un_op
  | OE_FloatBinOp bin_op
  | OE_FloatUnOp un_op
  | OE_InvalidCast data_type
  | OE_MissingExpected
  | OE_UnexpectedExpected
  | OE_UnsupportedAtomic atomic_op

datatype (plugins only: code size) node_error =
    NE_DuplicateBinding string
  | NE_UndeclaredAssign string
  | NE_LoopVariable string
  | NE_Trap u32 string
  | NE_Resume string
  | NE_Collective
  | NE_IndirectDispatch
  | NE_OffsetRange
  | NE_OpaqueNode
  | NE_AsyncTagBusy string
  | NE_AsyncTagUnknown string

datatype (plugins only: code size) run_error =
    RE_NonUniformBranch
  | RE_BarrierDivergence
  | RE_AsyncPending
  | RE_GlobalIdOverflow
  | RE_InvocationCount
  | RE_WorkgroupBudget
  | RE_BufferLayout string
  | RE_MissingInput string
  | RE_ShortInput string
  | RE_UnusedInput
  | RE_ZeroWorkgroup
  | RE_MissingOutput string
  | RE_TopLevelRegion

datatype (plugins only: code size) interp_error =
    IE_Op op_error
  | IE_Node node_error
  | IE_Run run_error
  | IE_UndeclaredVariable string
  | IE_MissingBuffer string
  | IE_AtomicTarget string
  | IE_NotU32 string
  | IE_NotFloat
  | IE_AxisOutOfRange u8
  | IE_MixedLanes
  | IE_NoDialect
  | IE_UnknownOp string
  | IE_Arity nat nat
  | IE_CallInput
  | IE_CpuRefPanic string
  | IE_OpaqueExpr
  | IE_UnknownExpr
  | IE_Panic

subsection \<open>Machine integers\<close>

definition count_ones :: "'a :: len word \<Rightarrow> nat" where
  "count_ones w = length (filter (bit w) [0..<LENGTH('a)])"

definition leading_zeros :: "'a :: len word \<Rightarrow> nat" where
  "leading_zeros w = length (takeWhile (\<lambda>i. \<not> bit w i) (rev [0..<LENGTH('a)]))"

definition trailing_zeros :: "'a :: len word \<Rightarrow> nat" where
  "trailing_zeros w = length (takeWhile (\<lambda>i. \<not> bit w i) [0..<LENGTH('a)])"

text \<open>Saturating arithmetic: the exact result clamped to the type.\<close>

definition clamp_unsigned :: "int \<Rightarrow> 'a :: len word" where
  "clamp_unsigned i = word_of_int (max 0 (min (2 ^ LENGTH('a) - 1) i))"

definition clamp_signed :: "int \<Rightarrow> 'a :: len word" where
  "clamp_signed i =
     word_of_int (max (- (2 ^ (LENGTH('a) - 1))) (min (2 ^ (LENGTH('a) - 1) - 1) i))"

subsection \<open>Operators shared before dispatch\<close>

fun u32_shared_binop :: "bin_op \<Rightarrow> u32 \<Rightarrow> u32 \<Rightarrow> ref_value option" where
  "u32_shared_binop BO_Min l r = Some (V_U32 (min l r))"
| "u32_shared_binop BO_Max l r = Some (V_U32 (max l r))"
| "u32_shared_binop BO_AbsDiff l r = Some (V_U32 (if l < r then r - l else l - r))"
| "u32_shared_binop BO_RotateLeft l r = Some (V_U32 (word_rotl (unat (r AND 31)) l))"
| "u32_shared_binop BO_RotateRight l r = Some (V_U32 (word_rotr (unat (r AND 31)) l))"
| "u32_shared_binop BO_WrappingAdd l r = Some (V_U32 (l + r))"
| "u32_shared_binop BO_WrappingSub l r = Some (V_U32 (l - r))"
| "u32_shared_binop BO_SaturatingAdd l r = Some (V_U32 (clamp_unsigned (uint l + uint r)))"
| "u32_shared_binop BO_SaturatingSub l r = Some (V_U32 (clamp_unsigned (uint l - uint r)))"
| "u32_shared_binop BO_SaturatingMul l r = Some (V_U32 (clamp_unsigned (uint l * uint r)))"
| "u32_shared_binop BO_MulHigh l r =
     Some (V_U32 (ucast (drop_bit 32 ((ucast l :: u64) * ucast r))))"
| "u32_shared_binop _ l r = None"

fun i32_shared_binop :: "bin_op \<Rightarrow> u32 \<Rightarrow> u32 \<Rightarrow> ref_value option" where
  "i32_shared_binop BO_Min l r = Some (V_I32 (if sint l \<le> sint r then l else r))"
| "i32_shared_binop BO_Max l r = Some (V_I32 (if sint l \<le> sint r then r else l))"
| "i32_shared_binop BO_AbsDiff l r = Some (V_U32 (word_of_int \<bar>sint l - sint r\<bar>))"
| "i32_shared_binop BO_WrappingAdd l r = Some (V_I32 (l + r))"
| "i32_shared_binop BO_WrappingSub l r = Some (V_I32 (l - r))"
| "i32_shared_binop BO_SaturatingAdd l r = Some (V_I32 (clamp_signed (sint l + sint r)))"
| "i32_shared_binop BO_SaturatingSub l r = Some (V_I32 (clamp_signed (sint l - sint r)))"
| "i32_shared_binop BO_SaturatingMul l r = Some (V_I32 (clamp_signed (sint l * sint r)))"
| "i32_shared_binop _ l r = None"

fun u64_shared_binop :: "bin_op \<Rightarrow> u64 \<Rightarrow> u64 \<Rightarrow> ref_value option" where
  "u64_shared_binop BO_Min l r = Some (V_U64 (min l r))"
| "u64_shared_binop BO_Max l r = Some (V_U64 (max l r))"
| "u64_shared_binop BO_AbsDiff l r = Some (V_U64 (if l < r then r - l else l - r))"
| "u64_shared_binop BO_WrappingAdd l r = Some (V_U64 (l + r))"
| "u64_shared_binop BO_WrappingSub l r = Some (V_U64 (l - r))"
| "u64_shared_binop BO_SaturatingAdd l r = Some (V_U64 (clamp_unsigned (uint l + uint r)))"
| "u64_shared_binop BO_SaturatingSub l r = Some (V_U64 (clamp_unsigned (uint l - uint r)))"
| "u64_shared_binop BO_SaturatingMul l r = Some (V_U64 (clamp_unsigned (uint l * uint r)))"
| "u64_shared_binop BO_MulHigh l r =
     Some (V_U64 (ucast (drop_bit 64 ((ucast l :: 128 word) * ucast r))))"
| "u64_shared_binop _ l r = None"

subsection \<open>Integer operators\<close>

definition div_u32 :: "u32 \<Rightarrow> u32 \<Rightarrow> interp_error + u32" where
  "div_u32 l r = Inr (if r = 0 then - 1 else l div r)"

definition rem_u32 :: "u32 \<Rightarrow> u32 \<Rightarrow> interp_error + u32" where
  "rem_u32 l r = Inr (if r = 0 then 0 else l mod r)"

definition shift_u32 :: "u32 \<Rightarrow> u32 \<Rightarrow> bool \<Rightarrow> u32" where
  "shift_u32 l r left_shift =
     (let shift = unat (r AND 31) in if left_shift then push_bit shift l else drop_bit shift l)"

definition div_i32 :: "u32 \<Rightarrow> u32 \<Rightarrow> interp_error + u32" where
  "div_i32 l r =
     (if r = 0 then Inl (IE_Op OE_UndefinedDivision)
      else if l = 0x80000000 \<and> r = - 1 then Inl (IE_Op OE_UndefinedDivision)
      else Inr (word_of_int (sgn (sint l) * sgn (sint r) * (\<bar>sint l\<bar> div \<bar>sint r\<bar>))))"

definition rem_i32 :: "u32 \<Rightarrow> u32 \<Rightarrow> interp_error + u32" where
  "rem_i32 l r =
     (if r = 0 then Inl (IE_Op OE_UndefinedDivision)
      else if l = 0x80000000 \<and> r = - 1 then Inl (IE_Op OE_UndefinedDivision)
      else Inr (word_of_int (sgn (sint l) * (\<bar>sint l\<bar> mod \<bar>sint r\<bar>))))"

definition shift_i32 :: "u32 \<Rightarrow> u32 \<Rightarrow> bool \<Rightarrow> u32" where
  "shift_i32 l r left_shift =
     (let shift = unat (r AND 31) in
      if left_shift then push_bit shift l else signed_drop_bit shift l)"

definition div_u64 :: "u64 \<Rightarrow> u64 \<Rightarrow> interp_error + u64" where
  "div_u64 l r = Inr (if r = 0 then - 1 else l div r)"

definition rem_u64 :: "u64 \<Rightarrow> u64 \<Rightarrow> interp_error + u64" where
  "rem_u64 l r = Inr (if r = 0 then 0 else l mod r)"

definition shift_u64 :: "u64 \<Rightarrow> u64 \<Rightarrow> bool \<Rightarrow> u64" where
  "shift_u64 l r left_shift =
     (let shift = unat (r AND 63) in if left_shift then push_bit shift l else drop_bit shift l)"

text \<open>The reading of a word as a number, \<open>uint\<close> or \<open>sint\<close>, carries the type's order.\<close>

fun int_bin_helpers ::
  "('a :: len word \<Rightarrow> ref_value) \<Rightarrow> ('a word \<Rightarrow> 'a word \<Rightarrow> bool \<Rightarrow> 'a word) \<Rightarrow>
   ('a word \<Rightarrow> 'a word \<Rightarrow> interp_error + 'a word) \<Rightarrow> ('a word \<Rightarrow> 'a word \<Rightarrow> interp_error + 'a word) \<Rightarrow>
   ('a word \<Rightarrow> int) \<Rightarrow> bin_op \<Rightarrow> 'a word \<Rightarrow> 'a word \<Rightarrow> interp_error + ref_value" where
  "int_bin_helpers val sft dv rm num BO_Add l r = Inr (val (l + r))"
| "int_bin_helpers val sft dv rm num BO_Sub l r = Inr (val (l - r))"
| "int_bin_helpers val sft dv rm num BO_Mul l r = Inr (val (l * r))"
| "int_bin_helpers val sft dv rm num BO_Div l r = rbind (dv l r) (\<lambda>x. Inr (val x))"
| "int_bin_helpers val sft dv rm num BO_Mod l r = rbind (rm l r) (\<lambda>x. Inr (val x))"
| "int_bin_helpers val sft dv rm num BO_BitAnd l r = Inr (val (l AND r))"
| "int_bin_helpers val sft dv rm num BO_BitOr l r = Inr (val (l OR r))"
| "int_bin_helpers val sft dv rm num BO_BitXor l r = Inr (val (l XOR r))"
| "int_bin_helpers val sft dv rm num BO_Shl l r = Inr (val (sft l r True))"
| "int_bin_helpers val sft dv rm num BO_Shr l r = Inr (val (sft l r False))"
| "int_bin_helpers val sft dv rm num BO_Eq l r = Inr (V_Bool (l = r))"
| "int_bin_helpers val sft dv rm num BO_Ne l r = Inr (V_Bool (l \<noteq> r))"
| "int_bin_helpers val sft dv rm num BO_Lt l r = Inr (V_Bool (num l < num r))"
| "int_bin_helpers val sft dv rm num BO_Gt l r = Inr (V_Bool (num l > num r))"
| "int_bin_helpers val sft dv rm num BO_Le l r = Inr (V_Bool (num l \<le> num r))"
| "int_bin_helpers val sft dv rm num BO_Ge l r = Inr (V_Bool (num l \<ge> num r))"
| "int_bin_helpers val sft dv rm num BO_And l r = Inr (V_Bool (l \<noteq> 0 \<and> r \<noteq> 0))"
| "int_bin_helpers val sft dv rm num BO_Or l r = Inr (V_Bool (l \<noteq> 0 \<or> r \<noteq> 0))"
| "int_bin_helpers val sft dv rm num op l r = Inl (IE_Op (OE_UnknownBinOp op))"

definition binop_u32 :: "bin_op \<Rightarrow> u32 \<Rightarrow> u32 \<Rightarrow> interp_error + ref_value" where
  "binop_u32 = int_bin_helpers V_U32 shift_u32 div_u32 rem_u32 uint"

definition binop_i32 :: "bin_op \<Rightarrow> u32 \<Rightarrow> u32 \<Rightarrow> interp_error + ref_value" where
  "binop_i32 = int_bin_helpers V_I32 shift_i32 div_i32 rem_i32 sint"

definition binop_u64 :: "bin_op \<Rightarrow> u64 \<Rightarrow> u64 \<Rightarrow> interp_error + ref_value" where
  "binop_u64 = int_bin_helpers V_U64 shift_u64 div_u64 rem_u64 uint"

fun int_un_helpers :: "('a :: len word \<Rightarrow> ref_value) \<Rightarrow> un_op \<Rightarrow> 'a word \<Rightarrow> interp_error + ref_value" where
  "int_un_helpers val UO_Negate v = Inr (val (0 - v))"
| "int_un_helpers val UO_BitNot v = Inr (val (NOT v))"
| "int_un_helpers val UO_LogicalNot v = Inr (V_Bool (v = 0))"
| "int_un_helpers val UO_Popcount v = Inr (val (of_nat (count_ones v)))"
| "int_un_helpers val UO_Clz v = Inr (val (of_nat (leading_zeros v)))"
| "int_un_helpers val UO_Ctz v = Inr (val (of_nat (trailing_zeros v)))"
| "int_un_helpers val UO_ReverseBits v = Inr (val (word_reverse v))"
| "int_un_helpers val op v = Inl (IE_Op (OE_UnknownUnOp op))"

definition unop_u32 :: "un_op \<Rightarrow> u32 \<Rightarrow> interp_error + ref_value" where
  "unop_u32 = int_un_helpers V_U32"

definition unop_i32 :: "un_op \<Rightarrow> u32 \<Rightarrow> interp_error + ref_value" where
  "unop_i32 = int_un_helpers V_I32"

definition unop_u64 :: "un_op \<Rightarrow> u64 \<Rightarrow> interp_error + ref_value" where
  "unop_u64 = int_un_helpers V_U64"

fun binop_bool :: "bin_op \<Rightarrow> bool \<Rightarrow> bool \<Rightarrow> interp_error + ref_value" where
  "binop_bool BO_Eq l r = Inr (V_Bool (l = r))"
| "binop_bool BO_Ne l r = Inr (V_Bool (l \<noteq> r))"
| "binop_bool BO_And l r = Inr (V_Bool (l \<and> r))"
| "binop_bool BO_Or l r = Inr (V_Bool (l \<or> r))"
| "binop_bool op l r = Inl (IE_Op (OE_BoolBinOp op))"

fun unop_bool :: "un_op \<Rightarrow> bool \<Rightarrow> interp_error + ref_value" where
  "unop_bool UO_LogicalNot v = Inr (V_Bool (\<not> v))"
| "unop_bool op v = Inl (IE_Op (OE_BoolUnOp op))"

subsection \<open>Float operators\<close>

definition wrap_f32 :: "f32 \<Rightarrow> ref_value" where
  "wrap_f32 v = V_Float (f64_of_f32 (canonical_f32 v))"

fun binop_f32_canonical :: "fp_host \<Rightarrow> bin_op \<Rightarrow> f32 \<Rightarrow> f32 \<Rightarrow> interp_error + ref_value" where
  "binop_f32_canonical h BO_Add l r = Inr (wrap_f32 (f32_add l r))"
| "binop_f32_canonical h BO_Sub l r = Inr (wrap_f32 (f32_sub l r))"
| "binop_f32_canonical h BO_Mul l r = Inr (wrap_f32 (f32_mul l r))"
| "binop_f32_canonical h BO_Div l r = Inr (wrap_f32 (f32_div l r))"
| "binop_f32_canonical h BO_Min l r = Inr (wrap_f32 (f32_min h l r))"
| "binop_f32_canonical h BO_Max l r = Inr (wrap_f32 (f32_max h l r))"
| "binop_f32_canonical h BO_Eq l r = Inr (V_Bool (f32_eq l r))"
| "binop_f32_canonical h BO_Ne l r = Inr (V_Bool (\<not> f32_eq l r))"
| "binop_f32_canonical h BO_Lt l r = Inr (V_Bool (f32_lt l r))"
| "binop_f32_canonical h BO_Gt l r = Inr (V_Bool (f32_lt r l))"
| "binop_f32_canonical h BO_Le l r = Inr (V_Bool (f32_le l r))"
| "binop_f32_canonical h BO_Ge l r = Inr (V_Bool (f32_le r l))"
| "binop_f32_canonical h op l r = Inl (IE_Op (OE_FloatBinOp op))"

definition binop_f32 :: "fp_host \<Rightarrow> bin_op \<Rightarrow> f32 \<Rightarrow> f32 \<Rightarrow> interp_error + ref_value" where
  "binop_f32 h op l r = binop_f32_canonical h op (canonical_f32 l) (canonical_f32 r)"

definition f32_sign_of :: "f32 \<Rightarrow> f32" where
  "f32_sign_of v =
     (if f32_is_nan v then F32_NAN
      else if f32_lt 0 v then 0x3F800000
      else if f32_lt v 0 then 0xBF800000
      else 0)"

definition canonical_inverse_sqrt :: "fp_host \<Rightarrow> f32 \<Rightarrow> f32" where
  "canonical_inverse_sqrt h x = f32_div 0x3F800000 (fh_libm h LM_sqrtf x)"

definition canonical_reciprocal :: "f32 \<Rightarrow> f32" where
  "canonical_reciprocal x = canonical_f32 (f32_div 0x3F800000 (canonical_f32 x))"

fun unop_f32_canonical :: "fp_host \<Rightarrow> un_op \<Rightarrow> f32 \<Rightarrow> interp_error + ref_value" where
  "unop_f32_canonical h UO_Negate v = Inr (wrap_f32 (f32_neg v))"
| "unop_f32_canonical h UO_Abs v = Inr (wrap_f32 (f32_abs v))"
| "unop_f32_canonical h UO_Sqrt v = Inr (wrap_f32 (fh_libm h LM_sqrtf v))"
| "unop_f32_canonical h UO_InverseSqrt v = Inr (wrap_f32 (canonical_inverse_sqrt h v))"
| "unop_f32_canonical h UO_Reciprocal v = Inr (wrap_f32 (canonical_reciprocal v))"
| "unop_f32_canonical h UO_Sin v = Inr (wrap_f32 (fh_libm h LM_sinf v))"
| "unop_f32_canonical h UO_Cos v = Inr (wrap_f32 (fh_libm h LM_cosf v))"
| "unop_f32_canonical h UO_Floor v = Inr (wrap_f32 (f32_floor v))"
| "unop_f32_canonical h UO_Ceil v = Inr (wrap_f32 (f32_ceil v))"
| "unop_f32_canonical h UO_Round v = Inr (wrap_f32 (f32_round_half_away v))"
| "unop_f32_canonical h UO_Trunc v = Inr (wrap_f32 (f32_trunc v))"
| "unop_f32_canonical h UO_Sign v = Inr (wrap_f32 (f32_sign_of v))"
| "unop_f32_canonical h UO_IsNan v = Inr (V_Bool (f32_is_nan v))"
| "unop_f32_canonical h UO_IsInf v = Inr (V_Bool (f32_is_infinite v))"
| "unop_f32_canonical h UO_IsFinite v = Inr (V_Bool (f32_is_finite v))"
| "unop_f32_canonical h UO_Exp v = Inr (wrap_f32 (fh_libm h LM_expf v))"
| "unop_f32_canonical h UO_Log v = Inr (wrap_f32 (fh_libm h LM_logf v))"
| "unop_f32_canonical h UO_Log2 v = Inr (wrap_f32 (fh_libm h LM_log2f v))"
| "unop_f32_canonical h UO_Exp2 v = Inr (wrap_f32 (fh_libm h LM_exp2f v))"
| "unop_f32_canonical h UO_Tan v = Inr (wrap_f32 (fh_libm h LM_tanf v))"
| "unop_f32_canonical h UO_Acos v = Inr (wrap_f32 (fh_libm h LM_acosf v))"
| "unop_f32_canonical h UO_Asin v = Inr (wrap_f32 (fh_libm h LM_asinf v))"
| "unop_f32_canonical h UO_Atan v = Inr (wrap_f32 (fh_libm h LM_atanf v))"
| "unop_f32_canonical h UO_Tanh v = Inr (wrap_f32 (fh_libm h LM_tanhf v))"
| "unop_f32_canonical h UO_Sinh v = Inr (wrap_f32 (fh_libm h LM_sinhf v))"
| "unop_f32_canonical h UO_Cosh v = Inr (wrap_f32 (fh_libm h LM_coshf v))"
| "unop_f32_canonical h op v = Inl (IE_Op (OE_FloatUnOp op))"

definition unop_f32 :: "fp_host \<Rightarrow> un_op \<Rightarrow> f32 \<Rightarrow> interp_error + ref_value" where
  "unop_f32 h op v = unop_f32_canonical h op (canonical_f32 v)"

subsection \<open>Dispatch\<close>

definition or_else :: "ref_value option \<Rightarrow> interp_error + ref_value \<Rightarrow> interp_error + ref_value" where
  "or_else shared rest = (case shared of Some v \<Rightarrow> Inr v | None \<Rightarrow> rest)"

definition eval_binop :: "fp_host \<Rightarrow> bin_op \<Rightarrow> ref_value \<Rightarrow> ref_value \<Rightarrow> interp_error + ref_value" where
  "eval_binop h op left right =
     (case (left, right) of
        (V_U32 l, V_U32 r) \<Rightarrow> or_else (u32_shared_binop op l r) (binop_u32 op l r)
      | (V_I32 l, V_I32 r) \<Rightarrow> or_else (i32_shared_binop op l r) (binop_i32 op l r)
      | (V_U64 l, V_U64 r) \<Rightarrow> or_else (u64_shared_binop op l r) (binop_u64 op l r)
      | (V_Bool l, V_Bool r) \<Rightarrow> binop_bool op l r
      | (V_Float l, V_Float r) \<Rightarrow> binop_f32 h op (f32_of_f64 l) (f32_of_f64 r)
      | _ \<Rightarrow> Inl (IE_Op (OE_MismatchedOperands op)))"

definition eval_unop :: "fp_host \<Rightarrow> un_op \<Rightarrow> ref_value \<Rightarrow> interp_error + ref_value" where
  "eval_unop h op operand =
     (case operand of
        V_U32 v \<Rightarrow> unop_u32 op v
      | V_I32 v \<Rightarrow> unop_i32 op v
      | V_U64 v \<Rightarrow> unop_u64 op v
      | V_Bool v \<Rightarrow> unop_bool op v
      | V_Float v \<Rightarrow> unop_f32 h op (f32_of_f64 v)
      | _ \<Rightarrow> Inl (IE_Op (OE_NonPrimitiveOperand op)))"

subsection \<open>Casts\<close>

definition widen_to_words :: "ref_value \<Rightarrow> nat \<Rightarrow> bytes" where
  "widen_to_words v words = write_bytes_width_into v (replicate (words * 4) 0)"

definition cast_or :: "data_type \<Rightarrow> ('a \<Rightarrow> ref_value) \<Rightarrow> 'a option \<Rightarrow> interp_error + ref_value" where
  "cast_or target f x = (case x of Some y \<Rightarrow> Inr (f y) | None \<Rightarrow> Inl (IE_Op (OE_InvalidCast target)))"

fun cast_value :: "data_type \<Rightarrow> ref_value \<Rightarrow> interp_error + ref_value" where
  "cast_value DT_U32 v =
     (case v of V_I32 x \<Rightarrow> Inr (V_U32 x)
      | V_Float x \<Rightarrow> Inr (V_U32 (f64_as_u32 x))
      | _ \<Rightarrow> cast_or DT_U32 V_U32 (try_as_u32 v))"
| "cast_value DT_I32 v =
     (case v of V_I32 x \<Rightarrow> Inr (V_I32 x)
      | V_Float x \<Rightarrow> Inr (V_I32 (f64_as_i32 x))
      | _ \<Rightarrow> cast_or DT_I32 V_I32 (try_as_u32 v))"
| "cast_value DT_U64 v = cast_or DT_U64 V_U64 (try_as_u64 v)"
| "cast_value DT_F32 v =
     (case v of V_U32 x \<Rightarrow> Inr (V_Float (f64_of_f32 (f32_of_nat (unat x))))
      | V_I32 x \<Rightarrow> Inr (V_Float (f64_of_f32 (f32_of_int (sint x))))
      | V_U64 x \<Rightarrow> Inr (V_Float (f64_of_f32 (f32_of_nat (unat x))))
      | V_Float x \<Rightarrow> Inr (V_Float x)
      | V_Bool b \<Rightarrow> Inr (V_Float (if b then 0x3FF0000000000000 else 0))
      | _ \<Rightarrow> cast_or DT_F32 (\<lambda>x. V_Float (f64_of_f32 (f32_of_nat (unat x)))) (try_as_u32 v))"
| "cast_value DT_Bool v = Inr (V_Bool (truthy v))"
| "cast_value DT_Bytes v = Inr (V_Bytes (to_bytes v))"
| "cast_value DT_Vec2U32 v = Inr (V_Bytes (widen_to_words v 2))"
| "cast_value DT_Vec4U32 v = Inr (V_Bytes (widen_to_words v 4))"
| "cast_value _ v = Inr (V_Bytes (to_bytes v))"

text \<open>The other arms of \<open>spec_output_value\<close> are not reached: its callers pass one of these types.\<close>

definition read_fixed_prefix :: "bytes \<Rightarrow> nat \<Rightarrow> bytes" where
  "read_fixed_prefix bs width = pad_to width bs"

fun spec_output_value :: "data_type \<Rightarrow> bytes \<Rightarrow> ref_value" where
  "spec_output_value DT_U32 bs = V_U32 (read_u32_prefix bs)"
| "spec_output_value DT_I32 bs = V_I32 (read_u32_prefix bs)"
| "spec_output_value DT_Bool bs = V_Bool (read_u32_prefix bs \<noteq> 0)"
| "spec_output_value DT_U64 bs = V_U64 (read_u64_prefix bs)"
| "spec_output_value DT_F32 bs = V_Float (f64_of_f32 (read_u32_prefix bs))"
| "spec_output_value DT_Vec2U32 bs = V_Bytes (read_fixed_prefix bs 8)"
| "spec_output_value DT_Vec4U32 bs = V_Bytes (read_fixed_prefix bs 16)"
| "spec_output_value _ bs = V_Bytes bs"

subsection \<open>Atomics\<close>

definition atomic_compare_exchange :: "u32 \<Rightarrow> u32 option \<Rightarrow> u32 \<Rightarrow> interp_error + u32 \<times> u32" where
  "atomic_compare_exchange old expected value =
     (case expected of
        None \<Rightarrow> Inl (IE_Op OE_MissingExpected)
      | Some e \<Rightarrow> Inr (old, if old = e then value else old))"

fun atomic_apply :: "atomic_op \<Rightarrow> u32 \<Rightarrow> u32 option \<Rightarrow> u32 \<Rightarrow> interp_error + u32 \<times> u32" where
  "atomic_apply AO_Add old expected value = Inr (old, old + value)"
| "atomic_apply AO_Or old expected value = Inr (old, old OR value)"
| "atomic_apply AO_And old expected value = Inr (old, old AND value)"
| "atomic_apply AO_Xor old expected value = Inr (old, old XOR value)"
| "atomic_apply AO_Min old expected value = Inr (old, min old value)"
| "atomic_apply AO_Max old expected value = Inr (old, max old value)"
| "atomic_apply AO_Exchange old expected value = Inr (old, value)"
| "atomic_apply AO_CompareExchange old expected value = atomic_compare_exchange old expected value"
| "atomic_apply AO_LruUpdate old expected value = Inr (old, max old value)"
| "atomic_apply op old expected value = Inl (IE_Op (OE_UnsupportedAtomic op))"

subsection \<open>Typing\<close>

datatype value_kind = K_U32 | K_I32 | K_U64 | K_Bool | K_Bytes | K_Float | K_Array

fun kind_of :: "ref_value \<Rightarrow> value_kind" where
  "kind_of (V_U32 _) = K_U32"
| "kind_of (V_I32 _) = K_I32"
| "kind_of (V_U64 _) = K_U64"
| "kind_of (V_Bool _) = K_Bool"
| "kind_of (V_Bytes _) = K_Bytes"
| "kind_of (V_Float _) = K_Float"
| "kind_of (V_Array _) = K_Array"

definition comparisons :: "bin_op list" where
  "comparisons = [BO_Eq, BO_Ne, BO_Lt, BO_Gt, BO_Le, BO_Ge]"

definition word_ops :: "bin_op list" where
  "word_ops = [BO_Add, BO_Sub, BO_Mul, BO_Div, BO_Mod, BO_BitAnd, BO_BitOr, BO_BitXor, BO_Shl, BO_Shr,
     BO_Min, BO_Max, BO_WrappingAdd, BO_WrappingSub, BO_SaturatingAdd, BO_SaturatingSub, BO_SaturatingMul]"

definition float_ops :: "bin_op list" where
  "float_ops = [BO_Add, BO_Sub, BO_Mul, BO_Div, BO_Min, BO_Max]"

definition int_result :: "bin_op \<Rightarrow> value_kind \<Rightarrow> value_kind option" where
  "int_result op k =
     (if op \<in> set word_ops then Some k
      else if op \<in> set comparisons \<or> op = BO_And \<or> op = BO_Or then Some K_Bool
      else None)"

text \<open>The typing table: which operand kind an operator accepts and what it returns.\<close>

definition binop_kind :: "bin_op \<Rightarrow> value_kind \<Rightarrow> value_kind option" where
  "binop_kind op k =
     (case k of
        K_U32 \<Rightarrow>
          if op \<in> {BO_AbsDiff, BO_RotateLeft, BO_RotateRight, BO_MulHigh} then Some K_U32 else int_result op K_U32
      | K_I32 \<Rightarrow> if op = BO_AbsDiff then Some K_U32 else int_result op K_I32
      | K_U64 \<Rightarrow> if op \<in> {BO_AbsDiff, BO_MulHigh} then Some K_U64 else int_result op K_U64
      | K_Bool \<Rightarrow> if op \<in> {BO_Eq, BO_Ne, BO_And, BO_Or} then Some K_Bool else None
      | K_Float \<Rightarrow>
          if op \<in> set float_ops then Some K_Float
          else if op \<in> set comparisons then Some K_Bool else None
      | _ \<Rightarrow> None)"

text \<open>Signed division that the interpreter refuses because backends leave it undefined.\<close>

definition undefined_division :: "bin_op \<Rightarrow> ref_value \<Rightarrow> ref_value \<Rightarrow> bool" where
  "undefined_division op l r =
     ((op = BO_Div \<or> op = BO_Mod) \<and>
      (case (l, r) of (V_I32 x, V_I32 y) \<Rightarrow> y = 0 \<or> x = 0x80000000 \<and> y = - 1 | _ \<Rightarrow> False))"

text \<open>Floats an operator returns are widened canonical \<open>f32\<close> numbers.\<close>

definition canonical_value :: "ref_value \<Rightarrow> bool" where
  "canonical_value v = (case v of V_Float x \<Rightarrow> x = f64_of_f32 (canonical_f32 (f32_of_f64 x)) | _ \<Rightarrow> True)"

definition typed_result :: "value_kind option \<Rightarrow> bool \<Rightarrow> interp_error + ref_value \<Rightarrow> bool" where
  "typed_result k bad res =
     (case res of
        Inr v \<Rightarrow> k = Some (kind_of v) \<and> canonical_value v \<and> \<not> bad
      | Inl e \<Rightarrow> k = None \<or> bad \<and> e = IE_Op OE_UndefinedDivision)"

lemmas kind_tables = comparisons_def word_ops_def float_ops_def int_result_def binop_kind_def

lemma canonical_wrap [simp]: "canonical_value (wrap_f32 x)" "kind_of (wrap_f32 x) = K_Float"
  by (simp_all add: canonical_value_def wrap_f32_def)

lemma typed_u32:
  "typed_result (binop_kind op K_U32) (undefined_division op (V_U32 l) (V_U32 r))
     (or_else (u32_shared_binop op l r) (binop_u32 op l r))"
  by (cases op) (simp_all add: typed_result_def kind_tables undefined_division_def or_else_def binop_u32_def
      canonical_value_def div_u32_def rem_u32_def)

lemma typed_i32:
  "typed_result (binop_kind op K_I32) (undefined_division op (V_I32 l) (V_I32 r))
     (or_else (i32_shared_binop op l r) (binop_i32 op l r))"
  by (cases op) (simp_all add: typed_result_def kind_tables undefined_division_def or_else_def binop_i32_def
      canonical_value_def div_i32_def rem_i32_def)

lemma typed_u64:
  "typed_result (binop_kind op K_U64) (undefined_division op (V_U64 l) (V_U64 r))
     (or_else (u64_shared_binop op l r) (binop_u64 op l r))"
  by (cases op) (simp_all add: typed_result_def kind_tables undefined_division_def or_else_def binop_u64_def
      canonical_value_def div_u64_def rem_u64_def)

lemma typed_bool:
  "typed_result (binop_kind op K_Bool) (undefined_division op (V_Bool l) (V_Bool r)) (binop_bool op l r)"
  by (cases op) (simp_all add: typed_result_def kind_tables undefined_division_def canonical_value_def)

lemma typed_f32:
  "typed_result (binop_kind op K_Float) (undefined_division op (V_Float x) (V_Float y)) (binop_f32 h op l r)"
  by (cases op) (simp_all add: typed_result_def kind_tables undefined_division_def binop_f32_def
      canonical_value_def[of "V_Bool _"])

definition unop_kind :: "un_op \<Rightarrow> value_kind \<Rightarrow> value_kind option" where
  "unop_kind op k =
     (if k \<in> {K_U32, K_I32, K_U64} then
        (if op \<in> {UO_Negate, UO_BitNot, UO_Popcount, UO_Clz, UO_Ctz, UO_ReverseBits} then Some k
         else if op = UO_LogicalNot then Some K_Bool else None)
      else if k = K_Bool then (if op = UO_LogicalNot then Some K_Bool else None)
      else if k = K_Float then
        (if op \<in> {UO_IsNan, UO_IsInf, UO_IsFinite} then Some K_Bool
         else if op \<in> {UO_BitNot, UO_LogicalNot, UO_Popcount, UO_Clz, UO_Ctz, UO_ReverseBits,
             UO_Unpack4Low, UO_Unpack4High, UO_Unpack8Low, UO_Unpack8High} \<union> range UO_Opaque then None
         else Some K_Float)
      else None)"

lemma typed_int_un:
  "(\<And>x. kind_of (val x) = k) \<Longrightarrow> k \<in> {K_U32, K_I32, K_U64} \<Longrightarrow> (\<And>x. canonical_value (val x)) \<Longrightarrow>
   typed_result (unop_kind op k) False (int_un_helpers val op v)"
  by (cases op) (auto simp: typed_result_def unop_kind_def canonical_value_def[of "V_Bool _"])

lemma typed_f32_un: "typed_result (unop_kind op K_Float) False (unop_f32 h op v)"
  by (cases op) (auto simp: typed_result_def unop_kind_def unop_f32_def canonical_value_def[of "V_Bool _"])

lemma typed_bool_un: "typed_result (unop_kind op K_Bool) False (unop_bool op v)"
  by (cases op) (auto simp: typed_result_def unop_kind_def canonical_value_def[of "V_Bool _"])

text \<open>
  C21.  The primitive operators are typed by a fixed table.  A binary operator succeeds exactly when
  both operands have one kind that the table accepts for it, except that signed division
  and remainder by zero or of the least integer by minus one fail with the undefined-division error; the
  result then has the kind of the table, and a float result is a canonical \<open>f32\<close>: never
  subnormal and never a NaN with a payload.  The same holds of unary operators.  (The comments of \<open>ieee754.rs\<close> ask
  for the flush to zero; \<open>README.md\<close> and \<open>docs/faq.md\<close> promise that subnormals are preserved.)
\<close>

theorem operators_typed:
  "typed_result (if kind_of l = kind_of r then binop_kind op (kind_of l) else None)
     (undefined_division op l r) (eval_binop h op l r) \<and>
   typed_result (unop_kind uop (kind_of l)) False (eval_unop h uop l)"
proof
  have mis: "typed_result None False (Inl e)" for e by (simp add: typed_result_def)
  have nodiv: "\<not> undefined_division op l r" if "kind_of l \<noteq> kind_of r"
    using that by (cases l; cases r) (simp_all add: undefined_division_def)
  show "typed_result (if kind_of l = kind_of r then binop_kind op (kind_of l) else None)
     (undefined_division op l r) (eval_binop h op l r)"
    using nodiv
    by (cases l; cases r)
      (simp_all add: eval_binop_def typed_u32 typed_i32 typed_u64 typed_bool typed_f32 mis,
       simp_all add: typed_result_def binop_kind_def)
  have none: "unop_kind uop K_Bytes = None" "unop_kind uop K_Array = None"
    by (simp_all add: unop_kind_def)
  show "typed_result (unop_kind uop (kind_of l)) False (eval_unop h uop l)"
    by (cases l)
      (simp_all add: eval_unop_def unop_u32_def unop_i32_def unop_u64_def typed_int_un typed_f32_un
        typed_bool_un canonical_value_def none mis)
qed

end
