(* ===== verification/Ref_Memory.thy ===== *)
theory Ref_Memory
  imports Ref_Ops Ir_Model "HOL-Library.AList"
begin

text \<open>
  The memory of the reference interpreter: typed buffers with the out-of-bounds rules of
  \<open>vyre-reference/src/oob.rs\<close>, and the storage and workgroup maps of
  \<open>execution/hashmap/memory.rs\<close>.  A \<open>Buffer\<close> shares its bytes through an \<open>Arc\<close>, and every
  clone of the memory made during a run aliases them, so one threaded store models all of
  them.  A hash map is an association list with distinct keys, read by \<open>map_of\<close>.  Offsets that
  do not fit a \<open>usize\<close> wrap as in a release build, and an access that would then
  slice out of range is the error \<open>IE_Panic\<close>.
\<close>

record ref_buffer =
  rb_bytes :: bytes
  rb_element :: data_type

type_synonym buffer_map = "(string \<times> ref_buffer) list"

record memory =
  mem_storage :: buffer_map
  mem_workgroup :: buffer_map

subsection \<open>Typed access\<close>

definition buffer_len :: "ref_buffer \<Rightarrow> interp_error + u32" where
  "buffer_len b =
     (let n = length (rb_bytes b);
          clamp = (\<lambda>c. if c < 2 ^ 32 then of_nat c else - 1 :: u32) in
      case bit_width (rb_element b) of
        Some bits \<Rightarrow>
          if n * 8 < usize_bound
          then (if bits = 0 then Inl IE_Panic else Inr (clamp (n * 8 div unat bits)))
          else Inr (clamp (usize_bound - 1))
      | None \<Rightarrow>
          (case size_bytes (rb_element b) of
             Some stride \<Rightarrow> Inr (clamp (if stride = 0 then n else n div unat stride))
           | None \<Rightarrow> Inr (clamp n)))"

definition zero_fill :: "ref_buffer \<Rightarrow> ref_buffer" where
  "zero_fill b = b\<lparr>rb_bytes := replicate (length (rb_bytes b)) 0\<rparr>"

fun ir_to_conform_type :: "data_type \<Rightarrow> data_type" where
  "ir_to_conform_type DT_Bool = DT_U32"
| "ir_to_conform_type ty = ty"

definition byte_offset :: "u32 \<Rightarrow> usize \<Rightarrow> nat option" where
  "byte_offset index stride = map_option unat (usize_checked_mul (ucast index) stride)"

text \<open>The bounds test \<open>offset + width > len\<close> in \<open>usize\<close> arithmetic.\<close>

definition beyond :: "nat \<Rightarrow> nat \<Rightarrow> nat \<Rightarrow> bool" where
  "beyond offset width n = (n < (offset + width) mod usize_bound)"

definition load :: "ref_buffer \<Rightarrow> u32 \<Rightarrow> interp_error + ref_value" where
  "load b index =
     (let stride = min_bytes (rb_element b);
          ty = ir_to_conform_type (rb_element b);
          n = length (rb_bytes b) in
      if rb_element b = DT_Bytes then
        Inr (V_Bytes (if n < unat index then [] else drop (unat index) (rb_bytes b)))
      else case byte_offset index stride of
          None \<Rightarrow> Inr (zero_for ty)
        | Some offset \<Rightarrow>
            if stride = 0 \<or> beyond offset (unat stride) n then Inr (zero_for ty)
            else if n < offset + unat stride then Inl IE_Panic
            else Inr (case from_element_bytes ty (take (unat stride) (drop offset (rb_bytes b))) of
                        Some v \<Rightarrow> v | None \<Rightarrow> zero_for ty))"

definition write_element :: "data_type \<Rightarrow> bytes \<Rightarrow> ref_value \<Rightarrow> bytes" where
  "write_element element target v =
     (if element = DT_F32 then
        u32_to_le_bytes (canonical_f32
          (case v of V_Float x \<Rightarrow> f32_of_f64 x | V_U32 x \<Rightarrow> x | _ \<Rightarrow> 0))
      else write_bytes_width_into v target)"

definition store :: "ref_buffer \<Rightarrow> u32 \<Rightarrow> ref_value \<Rightarrow> interp_error + ref_buffer" where
  "store b index v =
     (let stride = min_bytes (rb_element b); n = length (rb_bytes b) in
      if rb_element b = DT_Bytes then
        (if n \<le> unat index then Inr b
         else let bs = to_bytes v; write_len = min (length bs) (n - unat index) in
           Inr (b\<lparr>rb_bytes := overwrite (unat index) (take write_len bs) (rb_bytes b)\<rparr>))
      else case byte_offset index stride of
          None \<Rightarrow> Inr b
        | Some offset \<Rightarrow>
            if stride = 0 \<or> beyond offset (unat stride) n then Inr b
            else if n < offset + unat stride then Inl IE_Panic
            else Inr (b\<lparr>rb_bytes :=
                     overwrite offset
                       (write_element (rb_element b) (take (unat stride) (drop offset (rb_bytes b))) v)
                       (rb_bytes b)\<rparr>))"

definition atomic_stride :: "ref_buffer \<Rightarrow> usize" where
  "atomic_stride b = max (min_bytes (rb_element b)) 4"

definition atomic_load :: "ref_buffer \<Rightarrow> u32 \<Rightarrow> interp_error + u32 option" where
  "atomic_load b index =
     (case byte_offset index (atomic_stride b) of
        None \<Rightarrow> Inr None
      | Some offset \<Rightarrow>
          if beyond offset 4 (length (rb_bytes b)) then Inr None
          else if length (rb_bytes b) < offset + 4 then Inl IE_Panic
          else Inr (Some (u32_of_le (take 4 (drop offset (rb_bytes b))))))"

definition atomic_store :: "ref_buffer \<Rightarrow> u32 \<Rightarrow> u32 \<Rightarrow> interp_error + ref_buffer" where
  "atomic_store b index v =
     (case byte_offset index (atomic_stride b) of
        None \<Rightarrow> Inr b
      | Some offset \<Rightarrow>
          if beyond offset 4 (length (rb_bytes b)) then Inr b
          else if length (rb_bytes b) < offset + 4 then Inl IE_Panic
          else Inr (b\<lparr>rb_bytes := overwrite offset (u32_to_le_bytes v) (rb_bytes b)\<rparr>))"

subsection \<open>Storage and workgroup maps\<close>

definition resolve_buffer :: "memory \<Rightarrow> string \<Rightarrow> interp_error + ref_buffer" where
  "resolve_buffer m name =
     (case map_of (mem_storage m) name of
        Some b \<Rightarrow> Inr b
      | None \<Rightarrow> ok_or (map_of (mem_workgroup m) name) (IE_MissingBuffer name))"

text \<open>Writing through the reference that \<open>buffer_mut\<close> returns.\<close>

definition set_buffer :: "memory \<Rightarrow> string \<Rightarrow> ref_buffer \<Rightarrow> memory" where
  "set_buffer m name b =
     (if map_of (mem_storage m) name \<noteq> None
      then m\<lparr>mem_storage := AList.update name b (mem_storage m)\<rparr>
      else m\<lparr>mem_workgroup := AList.update name b (mem_workgroup m)\<rparr>)"

definition update_buffer ::
  "memory \<Rightarrow> string \<Rightarrow> (ref_buffer \<Rightarrow> interp_error + ref_buffer) \<Rightarrow> interp_error + memory" where
  "update_buffer m name f =
     rbind (resolve_buffer m name) (\<lambda>b. rbind (f b) (\<lambda>b'. Inr (set_buffer m name b')))"

definition atomic_buffer_mut :: "memory \<Rightarrow> string \<Rightarrow> interp_error + ref_buffer" where
  "atomic_buffer_mut m name = ok_or (map_of (mem_storage m) name) (IE_AtomicTarget name)"

definition MAX_WORKGROUP_BYTES :: nat where
  "MAX_WORKGROUP_BYTES = 64 * 1024 * 1024"

definition workgroup_byte_len :: "buffer_decl \<Rightarrow> interp_error + nat" where
  "workgroup_byte_len d =
     (case static_byte_len d of
        Inr (Some n) \<Rightarrow> Inr (unat n)
      | Inr None \<Rightarrow>
          if bd_count d = 0 then Inr 0 else Inl (IE_Run (RE_BufferLayout (bd_name d)))
      | Inl _ \<Rightarrow> Inl (IE_Run (RE_BufferLayout (bd_name d))))"

definition workgroup_decls :: "program \<Rightarrow> buffer_decl list" where
  "workgroup_decls prog = filter (\<lambda>d. bd_access d = BA_Workgroup) (pg_buffers prog)"

fun allocate_workgroup :: "buffer_decl list \<Rightarrow> nat \<Rightarrow> buffer_map \<Rightarrow> interp_error + buffer_map" where
  "allocate_workgroup [] allocated wg = Inr wg"
| "allocate_workgroup (d # ds) allocated wg =
     rbind (workgroup_byte_len d) (\<lambda>n.
       if usize_bound \<le> allocated + n \<or> MAX_WORKGROUP_BYTES < allocated + n
       then Inl (IE_Run RE_WorkgroupBudget)
       else allocate_workgroup ds (allocated + n)
              (AList.update (bd_name d) \<lparr>rb_bytes = replicate n 0, rb_element = bd_element d\<rparr> wg))"

definition workgroup_memory :: "program \<Rightarrow> interp_error + buffer_map" where
  "workgroup_memory prog = allocate_workgroup (workgroup_decls prog) 0 []"

fun workgroup_matches :: "buffer_map \<Rightarrow> buffer_decl list \<Rightarrow> interp_error + bool" where
  "workgroup_matches wg [] = Inr True"
| "workgroup_matches wg (d # ds) =
     (case map_of wg (bd_name d) of
        None \<Rightarrow> Inr False
      | Some b \<Rightarrow>
          rbind (workgroup_byte_len d) (\<lambda>n.
            if rb_element b \<noteq> bd_element d \<or> length (rb_bytes b) \<noteq> n then Inr False
            else workgroup_matches wg ds))"

text \<open>The emptied map when the existing one can be reused, \<open>None\<close> when it cannot.\<close>

definition zero_existing_workgroup :: "buffer_map \<Rightarrow> program \<Rightarrow> interp_error + buffer_map option" where
  "zero_existing_workgroup wg prog =
     rbind (workgroup_matches wg (workgroup_decls prog)) (\<lambda>ok.
       if \<not> ok \<or> length wg \<noteq> length (workgroup_decls prog) then Inr None
       else Inr (Some (map (\<lambda>(k, b). (k, zero_fill b)) wg)))"

definition reset_workgroup :: "memory \<Rightarrow> program \<Rightarrow> interp_error + memory" where
  "reset_workgroup m prog =
     rbind (zero_existing_workgroup (mem_workgroup m) prog) (\<lambda>reused.
       case reused of
         Some wg \<Rightarrow> Inr (m\<lparr>mem_workgroup := wg\<rparr>)
       | None \<Rightarrow> rbind (workgroup_memory prog) (\<lambda>wg. Inr (m\<lparr>mem_workgroup := wg\<rparr>)))"

definition output_value :: "ref_buffer \<Rightarrow> buffer_decl \<Rightarrow> ref_value" where
  "output_value b d =
     (case bd_output_byte_range d of
        Some (s, e) \<Rightarrow>
          if s \<le> e \<and> unat e \<le> length (rb_bytes b)
          then V_Bytes (drop (unat s) (take (unat e) (rb_bytes b)))
          else V_Bytes (rb_bytes b)
      | None \<Rightarrow> V_Bytes (rb_bytes b))"

subsection \<open>Laws of slices\<close>

lemma length_overwrite:
  "off + length new \<le> length t \<Longrightarrow> length (overwrite off new t) = length t"
  by (simp add: overwrite_def)

lemma slice_overwrite_same:
  assumes "off + length new \<le> length t" "w = length new"
  shows "take w (drop off (overwrite off new t)) = new"
  using assms by (simp add: overwrite_def)

lemma slice_overwrite_other:
  assumes "off + length new \<le> length t" "off' + w \<le> off \<or> off + length new \<le> off'"
  shows "take w (drop off' (overwrite off new t)) = take w (drop off' t)"
proof (rule nth_equalityI)
  show len: "length (take w (drop off' (overwrite off new t))) = length (take w (drop off' t))"
    using assms by (simp add: length_overwrite)
  fix i
  assume i: "i < length (take w (drop off' (overwrite off new t)))"
  have "overwrite off new t ! (off' + i) = t ! (off' + i)"
  proof (cases "off' + i < off")
    case True
    then show ?thesis using assms(1) by (simp add: overwrite_def nth_append)
  next
    case False
    with assms(2) i have "off + length new \<le> off' + i" by auto
    moreover from this have "\<not> off' + i - off < length new" by linarith
    ultimately show ?thesis using assms(1) by (simp add: overwrite_def nth_append)
  qed
  then show "take w (drop off' (overwrite off new t)) ! i = take w (drop off' t) ! i"
    using i len by (simp add: length_overwrite[OF assms(1)] less_diff_conv add.commute nth_drop)
qed

text \<open>Two cells of one width are apart unless their indices agree.\<close>

lemma cells_apart:
  fixes i j w :: nat
  assumes "i \<noteq> j"
  shows "j * w + w \<le> i * w \<or> i * w + w \<le> j * w"
proof (cases "i < j")
  case True
  then have "Suc i * w \<le> j * w" by (intro mult_le_mono1) simp
  then show ?thesis by simp
next
  case False
  with assms have "Suc j * w \<le> i * w" by (intro mult_le_mono1) simp
  then show ?thesis by simp
qed

lemma cell_in_usize:
  assumes "unat w < 2 ^ 32"
  shows "unat (i :: u32) * unat (w :: usize) + unat w < usize_bound"
    and "byte_offset i w = Some (unat i * unat w)"
    and "beyond (unat i * unat w) (unat w) n = (n < unat i * unat w + unat w)"
proof -
  have "unat i < 2 ^ 32" using unsigned_less[of i, where 'a = nat] by simp
  then have "Suc (unat i) * unat w \<le> 2 ^ 32 * unat w" by (intro mult_le_mono1) simp
  then have le: "unat i * unat w + unat w \<le> 2 ^ 32 * unat w" by simp
  moreover have "2 ^ 32 * unat w < 2 ^ 32 * (2 ^ 32 :: nat)" using assms by (intro mult_strict_left_mono) simp_all
  ultimately show lt: "unat i * unat w + unat w < usize_bound"
    unfolding power_add[symmetric] by (simp only: le_less_trans numeral_plus_numeral arith_simps)
  then show "beyond (unat i * unat w) (unat w) n = (n < unat i * unat w + unat w)"
    by (simp add: beyond_def)
  have "unat i * unat w < usize_bound" using lt by linarith
  then show "byte_offset i w = Some (unat i * unat w)"
    using unat_mult_small[of "ucast i" w] by (simp add: byte_offset_def usize_checked_mul_def)
qed

subsection \<open>Scalar cells\<close>

definition scalar_element :: "data_type \<Rightarrow> bool" where
  "scalar_element ty = (ty \<in> {DT_U32, DT_I32, DT_U64, DT_Bool, DT_F32})"

text \<open>What a cell of a scalar buffer returns for a value stored into it.\<close>

fun stored_value :: "data_type \<Rightarrow> ref_value \<Rightarrow> ref_value" where
  "stored_value DT_I32 v = V_I32 (read_u32_prefix (to_bytes v))"
| "stored_value DT_U64 v = V_U64 (read_u64_prefix (to_bytes v))"
| "stored_value DT_F32 v = wrap_f32 (case v of V_Float x \<Rightarrow> f32_of_f64 x | V_U32 x \<Rightarrow> x | _ \<Rightarrow> 0)"
| "stored_value ty v = V_U32 (read_u32_prefix (to_bytes v))"

definition cell_in_bounds :: "ref_buffer \<Rightarrow> u32 \<Rightarrow> bool" where
  "cell_in_bounds b i =
     ((unat i + 1) * unat (min_bytes (rb_element b)) \<le> length (rb_bytes b))"

lemma scalar_stride:
  assumes "scalar_element ty"
  shows "ty \<noteq> DT_Bytes" "min_bytes ty \<noteq> 0" "unat (min_bytes ty) < 2 ^ 32"
  using assms by (auto simp: scalar_element_def)

lemma u32_of_le_bytes: "u32_of_le (u32_to_le_bytes w) = w"
  by (simp add: u32_of_le_def u32_to_le_bytes_def u32_le_roundtrip)

lemma length_write_element:
  "scalar_element ty \<Longrightarrow> length t = unat (min_bytes ty) \<Longrightarrow> length (write_element ty t v) = unat (min_bytes ty)"
  by (auto simp: scalar_element_def write_element_def write_bytes_width_into_eq)

lemma element_round_trip:
  assumes "scalar_element ty" "length t = unat (min_bytes ty)"
  shows "from_element_bytes (ir_to_conform_type ty) (write_element ty t v) = Some (stored_value ty v)"
  using assms
  by (auto simp: scalar_element_def write_element_def write_bytes_width_into_eq need_bytes_def read_u32_prefix_def
      read_u64_prefix_def u32_of_le_bytes wrap_f32_def)

lemma load_scalar:
  assumes "scalar_element (rb_element b)"
  shows "load b i = Inr (
    if cell_in_bounds b i
    then (case from_element_bytes (ir_to_conform_type (rb_element b))
            (take (unat (min_bytes (rb_element b)))
               (drop (unat i * unat (min_bytes (rb_element b))) (rb_bytes b))) of
            Some v \<Rightarrow> v | None \<Rightarrow> zero_for (ir_to_conform_type (rb_element b)))
    else zero_for (ir_to_conform_type (rb_element b)))"
  using scalar_stride[OF assms] cell_in_usize(2,3)[OF scalar_stride(3)[OF assms]]
  by (simp add: load_def Let_def cell_in_bounds_def add.commute cong: option.case_cong)

lemma store_scalar:
  assumes "scalar_element (rb_element b)"
  defines "w \<equiv> unat (min_bytes (rb_element b))"
  shows "store b i v = Inr (
    if cell_in_bounds b i
    then b\<lparr>rb_bytes := overwrite (unat i * w)
             (write_element (rb_element b) (take w (drop (unat i * w) (rb_bytes b))) v) (rb_bytes b)\<rparr>
    else b)"
  using scalar_stride(1-3)[OF assms(1)] cell_in_usize[OF scalar_stride(3)[OF assms(1)]]
  by (simp add: store_def Let_def cell_in_bounds_def w_def add.commute)

lemma atomic_stride_ge [simp]: "4 \<le> unat (atomic_stride b)"
  by (simp add: atomic_stride_def max_def word_le_nat_alt)

subsection \<open>Arrays of cells\<close>

text \<open>
  What a client relies on: a write to a cell in range is read back, normalised by the cell; it
  leaves every other cell alone and keeps the shape; a write out of range changes nothing.
\<close>

locale cell_array =
  fixes ok :: "'b \<Rightarrow> bool"
    and cell :: "'b \<Rightarrow> 'i \<Rightarrow> 'v"
    and put :: "'b \<Rightarrow> 'i \<Rightarrow> 'w \<Rightarrow> 'b"
    and inside :: "'b \<Rightarrow> 'i \<Rightarrow> bool"
    and norm :: "'b \<Rightarrow> 'w \<Rightarrow> 'v"
  assumes put_ok: "ok b \<Longrightarrow> ok (put b i x)"
    and put_inside: "ok b \<Longrightarrow> inside (put b i x) j = inside b j"
    and put_norm: "ok b \<Longrightarrow> norm (put b i x) y = norm b y"
    and put_same: "ok b \<Longrightarrow> inside b i \<Longrightarrow> cell (put b i x) i = norm b x"
    and put_other: "ok b \<Longrightarrow> i \<noteq> j \<or> \<not> inside b i \<Longrightarrow> cell (put b i x) j = cell b j"
begin

definition puts :: "('i \<times> 'w) list \<Rightarrow> 'b \<Rightarrow> 'b" where
  "puts ws b = fold (\<lambda>(i, x) b. put b i x) ws b"

lemma puts_Cons [simp]: "puts ((i, x) # ws) b = puts ws (put b i x)"
  by (simp add: puts_def)

lemma puts_keep:
  assumes "ok b"
  shows "ok (puts ws b) \<and> inside (puts ws b) j = inside b j \<and> norm (puts ws b) y = norm b y"
  using assms
proof (induction ws arbitrary: b)
  case (Cons w ws)
  obtain i x where "w = (i, x)" by (cases w)
  with Cons.IH[OF put_ok[OF Cons.prems], of i x] show ?case
    by (simp add: put_inside[OF Cons.prems] put_norm[OF Cons.prems])
qed (simp add: puts_def)

text \<open>After any sequence of writes a cell holds the last one addressed to it.\<close>

lemma last_write_wins:
  assumes "ok b"
  shows "cell (puts ws b) j =
    (if inside b j \<and> j \<in> fst ` set ws
     then norm b (the (map_of (rev ws) j))
     else cell b j)"
proof (induction ws rule: rev_induct)
  case Nil
  then show ?case by (simp add: puts_def)
next
  case (snoc w ws)
  obtain i x where w: "w = (i, x)" by (cases w)
  have step: "puts (ws @ [w]) b = put (puts ws b) i x" by (simp add: puts_def w)
  have keep: "ok (puts ws b)" "inside (puts ws b) j = inside b j" "norm (puts ws b) x = norm b x"
    using puts_keep[OF assms, of ws j x] by auto
  show ?case
  proof (cases "i = j \<and> inside b j")
    case True
    with keep show ?thesis by (simp add: step put_same) (simp add: w)
  next
    case False
    then have "i \<noteq> j \<or> \<not> inside (puts ws b) i"
      using puts_keep[OF assms, of ws i x] by auto
    then have "cell (puts (ws @ [w]) b) j = cell (puts ws b) j"
      by (simp add: step put_other keep(1))
    with False snoc show ?thesis by (auto simp: w)
  qed
qed

end

text \<open>Scalar buffers under \<open>load\<close> and \<open>store\<close>, which cannot fail on them.\<close>

definition load_cell :: "ref_buffer \<Rightarrow> u32 \<Rightarrow> ref_value" where
  "load_cell b i = (case load b i of Inr v \<Rightarrow> v | Inl _ \<Rightarrow> V_Bytes [])"

definition store_cell :: "ref_buffer \<Rightarrow> u32 \<Rightarrow> ref_value \<Rightarrow> ref_buffer" where
  "store_cell b i v = (case store b i v of Inr b' \<Rightarrow> b' | Inl _ \<Rightarrow> b)"

lemma store_cell_shape:
  assumes "scalar_element (rb_element b)"
  shows "rb_element (store_cell b i v) = rb_element b"
    "length (rb_bytes (store_cell b i v)) = length (rb_bytes b)"
proof -
  let ?w = "unat (min_bytes (rb_element b))"
  show "rb_element (store_cell b i v) = rb_element b"
    using assms by (simp add: store_cell_def store_scalar)
  show "length (rb_bytes (store_cell b i v)) = length (rb_bytes b)"
  proof (cases "cell_in_bounds b i")
    case True
    then have "unat i * ?w + ?w \<le> length (rb_bytes b)" by (simp add: cell_in_bounds_def)
    with True assms show ?thesis
      by (simp add: store_cell_def store_scalar length_overwrite length_write_element)
  qed (simp add: store_cell_def store_scalar assms)
qed

definition cell_slice :: "ref_buffer \<Rightarrow> u32 \<Rightarrow> bytes" where
  "cell_slice b i =
     take (unat (min_bytes (rb_element b))) (drop (unat i * unat (min_bytes (rb_element b))) (rb_bytes b))"

lemma cell_slice_store_cell:
  assumes sc: "scalar_element (rb_element b)" and ib: "cell_in_bounds b i"
  shows "cell_slice (store_cell b i v) j =
    (if i = j then write_element (rb_element b) (cell_slice b i) v else cell_slice b j)"
proof -
  define w where "w = unat (min_bytes (rb_element b))"
  define new where "new = write_element (rb_element b) (cell_slice b i) v"
  have fit: "unat i * w + w \<le> length (rb_bytes b)" using ib by (simp add: cell_in_bounds_def w_def)
  then have len: "length new = w"
    by (simp add: new_def cell_slice_def length_write_element[OF sc] flip: w_def)
  have "cell_slice (store_cell b i v) j = take w (drop (unat j * w) (overwrite (unat i * w) new (rb_bytes b)))"
    using store_scalar[OF sc, of i v] ib by (simp add: store_cell_def cell_slice_def new_def flip: w_def)
  also have "\<dots> = (if i = j then new else take w (drop (unat j * w) (rb_bytes b)))"
    using fit len cells_apart[of "unat i" "unat j" w]
    by (auto simp: slice_overwrite_same slice_overwrite_other word_unat_eq_iff)
  finally show ?thesis by (simp add: new_def cell_slice_def w_def)
qed

lemma load_cell_eq:
  assumes "scalar_element (rb_element b)"
  shows "load_cell b i =
    (if cell_in_bounds b i
     then (case from_element_bytes (ir_to_conform_type (rb_element b)) (cell_slice b i) of
             Some v \<Rightarrow> v | None \<Rightarrow> zero_for (ir_to_conform_type (rb_element b)))
     else zero_for (ir_to_conform_type (rb_element b)))"
  by (simp add: load_cell_def load_scalar[OF assms] cell_slice_def)

lemma load_store_cell:
  assumes sc: "scalar_element (rb_element b)"
  shows "load_cell (store_cell b i v) j =
    (if i = j \<and> cell_in_bounds b i then stored_value (rb_element b) v else load_cell b j)"
proof (cases "cell_in_bounds b i")
  case False
  then have "store_cell b i v = b" by (simp add: store_cell_def store_scalar[OF sc])
  with False show ?thesis by simp
next
  case True
  have sh: "rb_element (store_cell b i v) = rb_element b"
    "cell_in_bounds (store_cell b i v) j = cell_in_bounds b j"
    using store_cell_shape[OF sc, of i v] by (simp_all add: cell_in_bounds_def)
  have "length (cell_slice b i) = unat (min_bytes (rb_element b))"
    using True by (simp add: cell_slice_def cell_in_bounds_def)
  note rt = element_round_trip[OF sc this, of v]
  have "load_cell (store_cell b i v) j =
    (if cell_in_bounds b j
     then (case from_element_bytes (ir_to_conform_type (rb_element b)) (cell_slice (store_cell b i v) j) of
             Some v \<Rightarrow> v | None \<Rightarrow> zero_for (ir_to_conform_type (rb_element b)))
     else zero_for (ir_to_conform_type (rb_element b)))"
    using load_cell_eq[of "store_cell b i v" j] sc unfolding sh by blast
  then show ?thesis
    using load_cell_eq[OF sc, of j] cell_slice_store_cell[OF sc True, of v j] True rt
    by (cases "i = j") simp_all
qed

interpretation scalar_cells: cell_array "\<lambda>b. scalar_element (rb_element b)" load_cell store_cell
  cell_in_bounds "\<lambda>b. stored_value (rb_element b)"
  by unfold_locales (auto simp: store_cell_shape cell_in_bounds_def load_store_cell)


subsection \<open>Layout of the memory\<close>

definition layout :: "buffer_map \<Rightarrow> (string \<times> data_type \<times> nat) list" where
  "layout wg = map (\<lambda>(k, b). (k, rb_element b, length (rb_bytes b))) wg"

definition same_layout :: "memory \<Rightarrow> memory \<Rightarrow> bool" where
  "same_layout m m' =
     (layout (mem_storage m') = layout (mem_storage m) \<and>
      layout (mem_workgroup m') = layout (mem_workgroup m))"

lemma same_layout_refl [simp, intro]: "same_layout m m"
  by (simp add: same_layout_def)

lemma same_layout_trans [trans]: "same_layout a b \<Longrightarrow> same_layout b c \<Longrightarrow> same_layout a c"
  by (simp add: same_layout_def)

lemma layout_update:
  assumes "map_of wg k = Some b" "rb_element b' = rb_element b" "length (rb_bytes b') = length (rb_bytes b)"
  shows "layout (AList.update k b' wg) = layout wg"
  using assms by (induction wg) (auto simp: layout_def)

lemma same_layout_set_buffer:
  assumes "resolve_buffer m name = Inr b"
    "rb_element b' = rb_element b" "length (rb_bytes b') = length (rb_bytes b)"
  shows "same_layout m (set_buffer m name b')"
  using assms
  by (auto simp: resolve_buffer_def set_buffer_def same_layout_def layout_update split: option.splits)

lemma store_keeps_shape:
  assumes "store b i v = Inr b'"
  shows "rb_element b' = rb_element b" "length (rb_bytes b') = length (rb_bytes b)"
  using assms
  by (auto simp: store_def Let_def write_element_def write_bytes_width_into_eq length_overwrite
      split: if_splits option.splits)

lemma atomic_store_keeps_shape:
  assumes "atomic_store b i v = Inr b'"
  shows "rb_element b' = rb_element b" "length (rb_bytes b') = length (rb_bytes b)"
  using assms by (auto simp: atomic_store_def length_overwrite split: if_splits option.splits)

lemma update_buffer_layout:
  assumes "update_buffer m name f = Inr m'"
    and "\<And>b b'. f b = Inr b' \<Longrightarrow> rb_element b' = rb_element b \<and> length (rb_bytes b') = length (rb_bytes b)"
  shows "same_layout m m'"
  using assms by (auto simp: update_buffer_def result_simps intro!: same_layout_set_buffer)

subsection \<open>Resetting workgroup memory\<close>

definition fresh_buffer :: "buffer_decl \<Rightarrow> ref_buffer" where
  "fresh_buffer d =
     \<lparr>rb_bytes = replicate (case workgroup_byte_len d of Inr n \<Rightarrow> n | Inl _ \<Rightarrow> 0) 0, rb_element = bd_element d\<rparr>"

definition fresh_map :: "buffer_decl list \<Rightarrow> string \<rightharpoonup> ref_buffer" where
  "fresh_map ds = map_of (map (\<lambda>d. (bd_name d, fresh_buffer d)) ds)"

lemma allocate_workgroup_eq:
  assumes "allocate_workgroup ds a wg = Inr wg'" "distinct (map bd_name ds)"
  shows "map_of wg' = map_of wg ++ fresh_map ds \<and> (\<forall>d \<in> set ds. \<exists>n. workgroup_byte_len d = Inr n)"
  using assms
proof (induction ds arbitrary: a wg)
  case Nil
  then show ?case by (simp add: fresh_map_def)
next
  case (Cons d ds)
  from Cons.prems(1) obtain n where n: "workgroup_byte_len d = Inr n"
    and rest: "allocate_workgroup ds (a + n)
      (AList.update (bd_name d) \<lparr>rb_bytes = replicate n 0, rb_element = bd_element d\<rparr> wg) = Inr wg'"
    by (auto simp: result_simps split: if_splits)
  have fresh: "fresh_buffer d = \<lparr>rb_bytes = replicate n 0, rb_element = bd_element d\<rparr>"
    by (simp add: fresh_buffer_def n)
  have notin: "bd_name d \<notin> dom (fresh_map ds)"
    using Cons.prems(2) by (auto simp: fresh_map_def dom_map_of_conv_image_fst)
  show ?case
    using Cons.IH[OF rest] Cons.prems(2) notin n fresh
    by (auto simp: update_conv' fresh_map_def map_add_def dom_def fun_eq_iff split: option.splits)
qed

lemma workgroup_matches_ok:
  assumes "\<forall>d \<in> set ds. \<exists>n. workgroup_byte_len d = Inr n"
  shows "\<exists>ok. workgroup_matches wg ds = Inr ok \<and>
    (ok \<longrightarrow> (\<forall>d \<in> set ds. \<exists>b. map_of wg (bd_name d) = Some b \<and> zero_fill b = fresh_buffer d))"
  using assms
proof (induction ds)
  case (Cons d ds)
  then obtain n ok where n: "workgroup_byte_len d = Inr n" and IH: "workgroup_matches wg ds = Inr ok"
    "ok \<longrightarrow> (\<forall>d \<in> set ds. \<exists>b. map_of wg (bd_name d) = Some b \<and> zero_fill b = fresh_buffer d)"
    by auto
  show ?case
  proof (cases "map_of wg (bd_name d)")
    case (Some b)
    have "zero_fill b = fresh_buffer d" if "rb_element b = bd_element d" "length (rb_bytes b) = n"
      using that by (simp add: zero_fill_def fresh_buffer_def n)
    with Some IH n show ?thesis by auto
  qed (auto intro: exI[of _ False])
qed auto

lemma zeroed_eq_fresh:
  assumes "distinct (map fst wg)" "distinct (map bd_name ds)" "length wg = length ds"
    and hit: "\<And>d. d \<in> set ds \<Longrightarrow> \<exists>b. map_of wg (bd_name d) = Some b \<and> zero_fill b = fresh_buffer d"
  shows "map_of (map (\<lambda>(k, b). (k, zero_fill b)) wg) = fresh_map ds"
proof
  fix k
  have zero: "map_of (map (\<lambda>(k, b). (k, zero_fill b)) wg) k = map_option zero_fill (map_of wg k)"
    by (simp add: map_of_map)
  have "bd_name ` set ds \<subseteq> fst ` set wg" using hit by (force dest: map_of_SomeD)
  moreover have "card (bd_name ` set ds) = card (fst ` set wg)"
    using assms(1-3) by (metis distinct_card length_map list.set_map)
  ultimately have names: "bd_name ` set ds = fst ` set wg" by (simp add: card_subset_eq)
  show "map_of (map (\<lambda>(k, b). (k, zero_fill b)) wg) k = fresh_map ds k"
  proof (cases "k \<in> bd_name ` set ds")
    case True
    then obtain d where d: "d \<in> set ds" "k = bd_name d" by auto
    then have "fresh_map ds k = Some (fresh_buffer d)"
      unfolding fresh_map_def using assms(2) by (intro map_of_is_SomeI) (auto simp: comp_def)
    moreover obtain b where "map_of wg k = Some b" "zero_fill b = fresh_buffer d"
      using hit[OF d(1)] d(2) by auto
    ultimately show ?thesis by (simp add: zero)
  next
    case False
    then have "map_of wg k = None" by (simp add: names map_of_eq_None_iff)
    moreover have "fresh_map ds k = None"
      using False by (simp add: fresh_map_def map_of_eq_None_iff image_image)
    ultimately show ?thesis by (simp add: zero)
  qed
qed

subsection \<open>Properties\<close>

fun store_all :: "(u32 \<times> ref_value) list \<Rightarrow> ref_buffer \<Rightarrow> interp_error + ref_buffer" where
  "store_all [] b = Inr b"
| "store_all ((i, v) # ws) b = rbind (store b i v) (store_all ws)"

lemma store_all_eq:
  "scalar_element (rb_element b) \<Longrightarrow> store_all ws b = Inr (scalar_cells.puts ws b)"
proof (induction ws arbitrary: b)
  case (Cons w ws)
  obtain i v where w: "w = (i, v)" by (cases w)
  have "store b i v = Inr (store_cell b i v)" using Cons.prems by (simp add: store_cell_def store_scalar)
  with Cons w show ?case by (simp add: store_cell_shape)
qed (simp add: scalar_cells.puts_def)

text \<open>
  C19.  Storage behaves as an array with defined out-of-bounds rules: after any sequence of stores
  to a buffer of \<open>u32\<close>, \<open>i32\<close>, \<open>u64\<close>, \<open>bool\<close> or \<open>f32\<close> cells, none of which can fail, a
  load in bounds returns the last value stored at that index in the form the element type
  keeps (zero-padded or truncated to the cell, floats canonical) or the old cell, and a load
  out of bounds returns the zero of the element type whatever was stored.
\<close>

theorem scalar_stores_then_load:
  assumes "scalar_element (rb_element b)"
  shows "rbind (store_all ws b) (\<lambda>b'. load b' j) =
    Inr (if cell_in_bounds b j
         then (case map_of (rev ws) j of
                 Some v \<Rightarrow> stored_value (rb_element b) v
               | None \<Rightarrow> load_cell b j)
         else zero_for (ir_to_conform_type (rb_element b)))"
proof -
  let ?b = "scalar_cells.puts ws b"
  have keep: "scalar_element (rb_element ?b)" using scalar_cells.puts_keep[OF assms] by blast
  have "load ?b j = Inr (load_cell ?b j)" by (simp add: load_cell_def load_scalar[OF keep])
  moreover have "load_cell b j = zero_for (ir_to_conform_type (rb_element b))" if "\<not> cell_in_bounds b j"
    using that by (simp add: load_cell_eq[OF assms])
  moreover have "j \<in> fst ` set ws \<longleftrightarrow> map_of (rev ws) j \<noteq> None"
    by (simp add: map_of_eq_None_iff)
  ultimately show ?thesis
    using scalar_cells.last_write_wins[OF assms, of ws j] by (auto simp: store_all_eq[OF assms])
qed

theorem scalar_stores_then_load_witness:
  "rbind (store_all [(1, V_U32 7), (0, V_I32 5), (1, V_Bool True), (2, V_U32 9)]
      \<lparr>rb_bytes = replicate 8 0, rb_element = DT_U32\<rparr>) (\<lambda>b'. load b' 1) = Inr (V_U32 1)"
proof -
  let ?b = "\<lparr>rb_bytes = replicate 8 0, rb_element = DT_U32\<rparr>"
  have "scalar_element (rb_element ?b)" by (simp add: scalar_element_def)
  note law = scalar_stores_then_load[OF this,
      of "[(1, V_U32 7), (0, V_I32 5), (1, V_Bool True), (2, V_U32 9)]" 1]
  have "read_u32_prefix (u32_to_le_bytes 1) = 1"
    by (simp add: read_u32_prefix_def pad_to_def u32_of_le_bytes)
  with law show ?thesis by (simp add: cell_in_bounds_def)
qed

text \<open>
  C20.  Reusing workgroup memory is invisible: whatever map an earlier workgroup left behind,
  resetting it for a program whose workgroup buffers fit the budget gives
  exactly the buffers a fresh allocation gives, all zero, and leaves storage alone.
\<close>

theorem reset_workgroup_is_fresh:
  assumes "distinct (map bd_name (workgroup_decls prog))" "distinct (map fst (mem_workgroup m))"
    and alloc: "workgroup_memory prog = Inr wg"
  shows "\<exists>m'. reset_workgroup m prog = Inr m' \<and> mem_storage m' = mem_storage m \<and>
    map_of (mem_workgroup m') = map_of wg"
proof -
  let ?ds = "workgroup_decls prog"
  have fresh: "map_of wg = fresh_map ?ds" and lens: "\<forall>d \<in> set ?ds. \<exists>n. workgroup_byte_len d = Inr n"
    using allocate_workgroup_eq[OF alloc[unfolded workgroup_memory_def] assms(1)] by auto
  obtain ok where ok: "workgroup_matches (mem_workgroup m) ?ds = Inr ok"
    "ok \<longrightarrow> (\<forall>d \<in> set ?ds. \<exists>b. map_of (mem_workgroup m) (bd_name d) = Some b \<and> zero_fill b = fresh_buffer d)"
    using workgroup_matches_ok[OF lens] by blast
  show ?thesis
  proof (cases "ok \<and> length (mem_workgroup m) = length ?ds")
    case True
    with ok(2) have "map_of (map (\<lambda>(k, b). (k, zero_fill b)) (mem_workgroup m)) = fresh_map ?ds"
      by (intro zeroed_eq_fresh[OF assms(2,1)]) auto
    with True ok(1) show ?thesis
      by (simp add: reset_workgroup_def zero_existing_workgroup_def fresh)
  next
    case False
    with ok(1) alloc show ?thesis
      by (auto simp: reset_workgroup_def zero_existing_workgroup_def)
  qed
qed

theorem reset_workgroup_is_fresh_witness:
  "\<exists>m'. reset_workgroup \<lparr>mem_storage = [],
        mem_workgroup = [(''tile'', \<lparr>rb_bytes = [1, 2, 3, 4], rb_element = DT_U32\<rparr>)]\<rparr>
      (new_raw [bd_workgroup ''tile'' 1 DT_U32] (1, 1, 1) []) = Inr m' \<and> mem_storage m' = [] \<and>
    map_of (mem_workgroup m') = map_of [(''tile'', \<lparr>rb_bytes = [0, 0, 0, 0], rb_element = DT_U32\<rparr>)]"
proof -
  let ?m = "\<lparr>mem_storage = [], mem_workgroup = [(''tile'', \<lparr>rb_bytes = [1, 2, 3, 4], rb_element = DT_U32\<rparr>)]\<rparr>"
  let ?p = "new_raw [bd_workgroup ''tile'' 1 DT_U32] (1, 1, 1) []"
  have decls: "workgroup_decls ?p = [bd_workgroup ''tile'' 1 DT_U32]"
    by (simp add: workgroup_decls_def new_raw_def bd_workgroup_def)
  have len: "workgroup_byte_len (bd_workgroup ''tile'' 1 DT_U32) = Inr 4"
    by (simp add: workgroup_byte_len_def static_byte_len_def bd_workgroup_def packed_size_bytes_def
        usize_checked_mul_def usize_checked_add_def)
  have r4: "replicate 4 (0 :: u8) = [0, 0, 0, 0]" by (simp add: numeral_eq_Suc)
  have "workgroup_memory ?p = Inr [(''tile'', \<lparr>rb_bytes = [0, 0, 0, 0], rb_element = DT_U32\<rparr>)]"
    by (simp add: workgroup_memory_def decls len MAX_WORKGROUP_BYTES_def r4) (simp add: bd_workgroup_def)
  from reset_workgroup_is_fresh[OF _ _ this, of ?m] show ?thesis by (simp add: decls)
qed

end
