(* ===== verification/Ref_Eval.thy ===== *)
theory Ref_Eval
  imports Ref_Memory
begin

text \<open>
  Expression evaluation of the reference interpreter (\<open>vyre-reference/src/execution/hashmap/mod.rs\<close>,
  \<open>step.rs\<close>, \<open>subgroup.rs\<close>, \<open>node_step.rs\<close> and \<open>src/subgroup.rs\<close>), with the default feature
  \<open>subgroup-ops\<close>.  Evaluation reads the ids, the lane index and the locals of one invocation, which
  are the fields of a snapshot, and threads the memory, which atomics change.  A subgroup operation evaluates
  its operand once per lane of the subgroup; the lanes work on clones of the memory that share its bytes,
  so their effects are threaded too.  The operator registry is the parameter \<open>h_dialect\<close>, with the
  CPU function of an operator as a partial function on bytes (\<open>None\<close> is a panic).  The cache of resolved
  operators is left out: it memoises a lookup in that fixed registry.
\<close>

record op_def =
  od_inputs :: "string list"
  od_outputs :: "string list"
  od_cpu_ref :: "bytes \<Rightarrow> bytes option"

record host =
  h_fp :: fp_host
  h_dialect :: "(string \<Rightarrow> op_def option) option"

record inv_ids =
  ids_global :: "u32 \<times> u32 \<times> u32"
  ids_workgroup :: "u32 \<times> u32 \<times> u32"
  ids_local :: "u32 \<times> u32 \<times> u32"

record lane =
  ln_ids :: inv_ids
  ln_index :: u32
  ln_vars :: "string \<rightharpoonup> ref_value"

type_synonym 'a eval_result = "interp_error + 'a \<times> memory"

definition axis_value :: "u32 \<times> u32 \<times> u32 \<Rightarrow> u8 \<Rightarrow> interp_error + ref_value" where
  "axis_value values axis =
     (case values of (x, y, z) \<Rightarrow>
       if axis = 0 then Inr (V_U32 x) else if axis = 1 then Inr (V_U32 y)
       else if axis = 2 then Inr (V_U32 z) else Inl (IE_AxisOutOfRange axis))"

definition as_index :: "string \<Rightarrow> ref_value \<times> memory \<Rightarrow> u32 eval_result" where
  "as_index label r =
     (case r of (v, m) \<Rightarrow> rbind (ok_or (try_as_u32 v) (IE_NotU32 label)) (\<lambda>i. Inr (i, m)))"

definition as_float :: "ref_value \<times> memory \<Rightarrow> f32 eval_result" where
  "as_float r = (case r of (v, m) \<Rightarrow> rbind (ok_or (try_as_f32 v) IE_NotFloat) (\<lambda>x. Inr (x, m)))"

definition lift_value :: "interp_error + ref_value \<Rightarrow> memory \<Rightarrow> ref_value eval_result" where
  "lift_value r m = rbind r (\<lambda>v. Inr (v, m))"

subsection \<open>Subgroups\<close>

definition SUBGROUP_WIDTH :: nat where "SUBGROUP_WIDTH = 32"

definition subgroup_bounds :: "nat \<Rightarrow> nat \<Rightarrow> nat \<times> nat" where
  "subgroup_bounds lane_count lane_index =
     (let start = (lane_index div SUBGROUP_WIDTH) * SUBGROUP_WIDTH in
      (start, min lane_count (start + SUBGROUP_WIDTH)))"

definition subgroup_slice :: "lane list \<Rightarrow> u32 \<Rightarrow> interp_error + lane list" where
  "subgroup_slice snaps index =
     (case subgroup_bounds (length snaps) (unat index) of (start, stop) \<Rightarrow>
       if stop < start then Inl IE_Panic else Inr (take (stop - start) (drop start snaps)))"

fun ballot_bits :: "nat \<Rightarrow> bool list \<Rightarrow> u32" where
  "ballot_bits k [] = 0"
| "ballot_bits k (b # bs) = (if b then push_bit k 1 else 0) OR ballot_bits (k + 1) bs"

definition ballot_slice :: "bool list \<Rightarrow> u32" where
  "ballot_slice bs = ballot_bits 0 (take (min SUBGROUP_WIDTH 32) bs)"

definition shuffle :: "u32 list \<Rightarrow> u32 list \<Rightarrow> u32 list" where
  "shuffle values src_lanes =
     map (\<lambda>src. if unat src < length values then values ! unat src else 0)
       (take (min (min (length values) (length src_lanes)) SUBGROUP_WIDTH) src_lanes)"

definition subgroup_sum :: "u32 list \<Rightarrow> u32" where
  "subgroup_sum values = fold (\<lambda>v acc. acc + v) (take SUBGROUP_WIDTH values) 0"

fun is_u32 :: "ref_value \<Rightarrow> bool" where
  "is_u32 (V_U32 _) = True"
| "is_u32 _ = False"

fun is_float :: "ref_value \<Rightarrow> bool" where
  "is_float (V_Float _) = True"
| "is_float _ = False"

fun u32_lane :: "ref_value \<Rightarrow> u32" where
  "u32_lane (V_U32 x) = x"
| "u32_lane _ = 0"

fun collect_lanes ::
  "(lane \<Rightarrow> memory \<Rightarrow> 'a eval_result) \<Rightarrow> lane list \<Rightarrow> memory \<Rightarrow> 'a list eval_result" where
  "collect_lanes f [] m = Inr ([], m)"
| "collect_lanes f (l # ls) m =
     rbind (f l m) (\<lambda>(x, m). rbind (collect_lanes f ls m) (\<lambda>(xs, m). Inr (x # xs, m)))"

definition shuffle_result :: "u32 \<Rightarrow> ref_value list \<Rightarrow> u32 list \<Rightarrow> interp_error + ref_value" where
  "shuffle_result index values src_lanes =
     (let local_offset = unat index mod SUBGROUP_WIDTH;
          src_lane = (if local_offset < length src_lanes then unat (src_lanes ! local_offset)
                      else unat (- 1 :: u32)) in
      if list_all is_u32 values then
        let shuffled = shuffle (map u32_lane values) src_lanes in
        Inr (V_U32 (if local_offset < length shuffled then shuffled ! local_offset else 0))
      else if list_all is_float values then
        Inr (if src_lane < length values then values ! src_lane else V_Float 0)
      else Inl IE_MixedLanes)"

fun add_float_lane :: "ref_value \<Rightarrow> f32 \<Rightarrow> f32" where
  "add_float_lane (V_Float x) acc = canonical_f32 (f32_add acc (f32_of_f64 x))"
| "add_float_lane _ acc = acc"

definition add_result :: "ref_value list \<Rightarrow> interp_error + ref_value" where
  "add_result values =
     (if list_all is_u32 values then Inr (V_U32 (subgroup_sum (map u32_lane values)))
      else if list_all is_float values then Inr (V_Float (f64_of_f32 (fold add_float_lane values 0)))
      else Inl IE_MixedLanes)"

subsection \<open>Atomics and calls\<close>

definition atomic_guard :: "atomic_op \<Rightarrow> bool \<Rightarrow> interp_error + unit" where
  "atomic_guard op has_expected =
     (if op = AO_CompareExchange then rguard has_expected (IE_Op OE_MissingExpected)
      else rguard (\<not> has_expected) (IE_Op OE_UnexpectedExpected))"

definition atomic_rmw ::
  "atomic_op \<Rightarrow> string \<Rightarrow> u32 \<Rightarrow> u32 option \<Rightarrow> u32 \<Rightarrow> memory \<Rightarrow> ref_value eval_result" where
  "atomic_rmw op buffer idx expected value m =
     rbind (atomic_buffer_mut m buffer) (\<lambda>target.
     rbind (atomic_load target idx) (\<lambda>loaded.
       case loaded of
         None \<Rightarrow> Inr (V_U32 0, m)
       | Some old \<Rightarrow>
           rbind (atomic_apply op old expected value) (\<lambda>(old, new).
           rbind (atomic_store target idx new) (\<lambda>target'.
             Inr (V_U32 old, set_buffer m buffer target')))))"

definition param_width :: "string \<Rightarrow> nat" where
  "param_width ty =
     (if ty \<in> {''u32'', ''i32'', ''f32'', ''vec-count''} then 4
      else if ty \<in> {''u64'', ''i64'', ''f64''} then 8
      else 1)"

definition MAX_CALL_INPUT_BYTES :: nat where
  "MAX_CALL_INPUT_BYTES = 64 * 1024 * 1024"

definition resolve_call :: "host \<Rightarrow> string \<Rightarrow> interp_error + op_def" where
  "resolve_call h op_id =
     (case h_dialect h of
        None \<Rightarrow> Inl IE_NoDialect
      | Some lookup \<Rightarrow> ok_or (lookup op_id) (IE_UnknownOp op_id))"

definition validate_arity :: "nat \<Rightarrow> nat \<Rightarrow> interp_error + unit" where
  "validate_arity actual expected = rguard (actual = expected) (IE_Arity actual expected)"

definition parsed_out_type :: "op_def \<Rightarrow> data_type" where
  "parsed_out_type def =
     (case od_outputs def of
        [] \<Rightarrow> DT_Bytes
      | ty # _ \<Rightarrow>
          if ty = ''u32'' then DT_U32 else if ty = ''i32'' then DT_I32
          else if ty = ''f32'' then DT_F32 else DT_Bytes)"

definition call_result :: "op_def \<Rightarrow> string \<Rightarrow> bytes \<Rightarrow> memory \<Rightarrow> ref_value eval_result" where
  "call_result def op_id input m =
     rbind (ok_or (od_cpu_ref def input) (IE_CpuRefPanic op_id)) (\<lambda>out.
       Inr (spec_output_value (parsed_out_type def) out, m))"

definition call_budget :: "bytes \<Rightarrow> string \<Rightarrow> interp_error + unit" where
  "call_budget input ty =
     rguard (length input + param_width ty < usize_bound \<and>
             length input + param_width ty \<le> MAX_CALL_INPUT_BYTES) IE_CallInput"

subsection \<open>Expressions\<close>

fun eval_expr :: "host \<Rightarrow> lane list \<Rightarrow> expr \<Rightarrow> lane \<Rightarrow> memory \<Rightarrow> ref_value eval_result" and
    encode_inputs ::
      "host \<Rightarrow> lane list \<Rightarrow> expr list \<Rightarrow> string list \<Rightarrow> bytes \<Rightarrow> lane \<Rightarrow> memory \<Rightarrow> bytes eval_result" where
  "eval_expr h snaps (E_LitU32 v) l m = Inr (V_U32 v, m)"
| "eval_expr h snaps (E_LitI32 v) l m = Inr (V_I32 v, m)"
| "eval_expr h snaps (E_LitF32 v) l m = Inr (V_Float (f64_of_f32 (canonical_f32 v)), m)"
| "eval_expr h snaps (E_LitBool v) l m = Inr (V_Bool v, m)"
| "eval_expr h snaps (E_Var name) l m =
     lift_value (ok_or (ln_vars l name) (IE_UndeclaredVariable name)) m"
| "eval_expr h snaps (E_Load buffer index) l m =
     rbind (eval_expr h snaps index l m) (\<lambda>r.
     rbind (as_index ''load index'' r) (\<lambda>(idx, m).
     rbind (resolve_buffer m buffer) (\<lambda>b. lift_value (load b idx) m)))"
| "eval_expr h snaps (E_BufLen buffer) l m =
     rbind (resolve_buffer m buffer) (\<lambda>b. rbind (buffer_len b) (\<lambda>n. Inr (V_U32 n, m)))"
| "eval_expr h snaps (E_InvocationId axis) l m = lift_value (axis_value (ids_global (ln_ids l)) axis) m"
| "eval_expr h snaps (E_WorkgroupId axis) l m = lift_value (axis_value (ids_workgroup (ln_ids l)) axis) m"
| "eval_expr h snaps (E_LocalId axis) l m = lift_value (axis_value (ids_local (ln_ids l)) axis) m"
| "eval_expr h snaps (E_BinOp op left right) l m =
     rbind (eval_expr h snaps left l m) (\<lambda>(x, m).
     rbind (eval_expr h snaps right l m) (\<lambda>(y, m). lift_value (eval_binop (h_fp h) op x y) m))"
| "eval_expr h snaps (E_UnOp op operand) l m =
     rbind (eval_expr h snaps operand l m) (\<lambda>(x, m). lift_value (eval_unop (h_fp h) op x) m)"
| "eval_expr h snaps (E_Call op_id args) l m =
     rbind (resolve_call h op_id) (\<lambda>def.
     rbind (validate_arity (length args) (length (od_inputs def))) (\<lambda>_.
     rbind (encode_inputs h snaps args (od_inputs def) [] l m) (\<lambda>(input, m).
       call_result def op_id input m)))"
| "eval_expr h snaps (E_Select cond true_val false_val) l m =
     rbind (eval_expr h snaps cond l m) (\<lambda>(c, m).
     rbind (eval_expr h snaps true_val l m) (\<lambda>(t, m).
     rbind (eval_expr h snaps false_val l m) (\<lambda>(f, m). Inr (if truthy c then t else f, m))))"
| "eval_expr h snaps (E_Cast target value) l m =
     rbind (eval_expr h snaps value l m) (\<lambda>(v, m). lift_value (cast_value target v) m)"
| "eval_expr h snaps (E_Fma a b c) l m =
     rbind (eval_expr h snaps a l m) (\<lambda>r. rbind (as_float r) (\<lambda>(x, m).
     rbind (eval_expr h snaps b l m) (\<lambda>r. rbind (as_float r) (\<lambda>(y, m).
     rbind (eval_expr h snaps c l m) (\<lambda>r. rbind (as_float r) (\<lambda>(z, m).
       Inr (wrap_f32 (f32_mul_add (canonical_f32 x) (canonical_f32 y) (canonical_f32 z)), m)))))))"
| "eval_expr h snaps (E_Atomic op buffer index None value mo) l m =
     rbind (atomic_guard op False) (\<lambda>_.
     rbind (eval_expr h snaps index l m) (\<lambda>r. rbind (as_index ''atomic index'' r) (\<lambda>(idx, m).
     rbind (eval_expr h snaps value l m) (\<lambda>r. rbind (as_index ''atomic value'' r) (\<lambda>(v, m).
       atomic_rmw op buffer idx None v m)))))"
| "eval_expr h snaps (E_Atomic op buffer index (Some expected) value mo) l m =
     rbind (atomic_guard op True) (\<lambda>_.
     rbind (eval_expr h snaps index l m) (\<lambda>r. rbind (as_index ''atomic index'' r) (\<lambda>(idx, m).
     rbind (eval_expr h snaps expected l m) (\<lambda>r. rbind (as_index ''atomic expected'' r) (\<lambda>(e, m).
     rbind (eval_expr h snaps value l m) (\<lambda>r. rbind (as_index ''atomic value'' r) (\<lambda>(v, m).
       atomic_rmw op buffer idx (Some e) v m)))))))"
| "eval_expr h snaps (E_SubgroupBallot cond) l m =
     rbind (subgroup_slice snaps (ln_index l)) (\<lambda>lanes.
     rbind (collect_lanes (\<lambda>l m. rbind (eval_expr h snaps cond l m) (\<lambda>(v, m). Inr (truthy v, m))) lanes m)
       (\<lambda>(bs, m). Inr (V_U32 (ballot_slice bs), m)))"
| "eval_expr h snaps (E_SubgroupShuffle value lane) l m =
     rbind (subgroup_slice snaps (ln_index l)) (\<lambda>lanes.
     rbind (collect_lanes (\<lambda>l m. eval_expr h snaps value l m) lanes m) (\<lambda>(vs, m).
     rbind (collect_lanes (\<lambda>l m. rbind (eval_expr h snaps lane l m) (as_index ''shuffle lane'')) lanes m)
       (\<lambda>(src_lanes, m). lift_value (shuffle_result (ln_index l) vs src_lanes) m)))"
| "eval_expr h snaps (E_SubgroupAdd value) l m =
     rbind (subgroup_slice snaps (ln_index l)) (\<lambda>lanes.
     rbind (collect_lanes (\<lambda>l m. eval_expr h snaps value l m) lanes m)
       (\<lambda>(vs, m). lift_value (add_result vs) m))"
| "eval_expr h snaps E_SubgroupLocalId l m = Inl IE_UnknownExpr"
| "eval_expr h snaps E_SubgroupSize l m = Inl IE_UnknownExpr"
| "eval_expr h snaps (E_Opaque _) l m = Inl IE_OpaqueExpr"
| "encode_inputs h snaps [] params input l m = Inr (input, m)"
| "encode_inputs h snaps (a # as) [] input l m = Inr (input, m)"
| "encode_inputs h snaps (a # as) (p # ps) input l m =
     rbind (call_budget input p) (\<lambda>_.
     rbind (eval_expr h snaps a l m) (\<lambda>(v, m).
     rbind (ok_or (extend_bytes_width v (param_width p) input) IE_CallInput) (\<lambda>input.
       encode_inputs h snaps as ps input l m)))"

declare eval_expr.simps [simp del] encode_inputs.simps [simp del]

subsection \<open>What evaluation does to the memory\<close>

text \<open>
  A relation between the memories before and after: reflexive, transitive and kept by the one
  operation of an expression that writes.
\<close>

locale effect =
  fixes rel :: "memory \<Rightarrow> memory \<Rightarrow> bool"
    and allowed :: "expr \<Rightarrow> bool"
  assumes rel_refl: "rel m m"
    and rel_trans: "rel a b \<Longrightarrow> rel b c \<Longrightarrow> rel a c"
    and rel_rmw: "allowed (E_Atomic op buffer index expected value mo) \<Longrightarrow>
      atomic_rmw op buffer idx e v m = Inr (w, m') \<Longrightarrow> rel m m'"
begin

fun admitted :: "expr \<Rightarrow> bool" where
  "admitted (E_Load _ i) = admitted i"
| "admitted (E_BinOp _ a b) = (admitted a \<and> admitted b)"
| "admitted (E_UnOp _ a) = admitted a"
| "admitted (E_Call _ args) = list_all admitted args"
| "admitted (E_Select a b c) = (admitted a \<and> admitted b \<and> admitted c)"
| "admitted (E_Cast _ a) = admitted a"
| "admitted (E_Fma a b c) = (admitted a \<and> admitted b \<and> admitted c)"
| "admitted (E_Atomic op buffer i e v mo) =
     (allowed (E_Atomic op buffer i e v mo) \<and> admitted i \<and> pred_option admitted e \<and> admitted v)"
| "admitted (E_SubgroupBallot a) = admitted a"
| "admitted (E_SubgroupShuffle a b) = (admitted a \<and> admitted b)"
| "admitted (E_SubgroupAdd a) = admitted a"
| "admitted _ = True"

definition keeps :: "(memory \<Rightarrow> 'a eval_result) \<Rightarrow> bool" where
  "keeps f = (\<forall>m x m'. f m = Inr (x, m') \<longrightarrow> rel m m')"

lemma keepsD: "keeps f \<Longrightarrow> f m = Inr (x, m') \<Longrightarrow> rel m m'"
  by (auto simp: keeps_def)

lemma keeps_cong: "(\<And>m. f m = g m) \<Longrightarrow> keeps g \<Longrightarrow> keeps f"
  by (simp add: keeps_def)

lemma keeps_ret: "keeps (\<lambda>m. Inr (x m, m))"
  by (simp add: keeps_def rel_refl)

lemma keeps_fail: "keeps (\<lambda>m. Inl (e m))"
  by (simp add: keeps_def)

lemma keeps_lift: "keeps (\<lambda>m. lift_value (r m) m)"
  by (auto simp: keeps_def lift_value_def result_simps rel_refl)

lemma keeps_bind: "keeps f \<Longrightarrow> (\<And>x. keeps (g x)) \<Longrightarrow> keeps (\<lambda>m. rbind (f m) (\<lambda>(x, m). g x m))"
  by (fastforce simp: keeps_def rbind_eq_Inr intro: rel_trans)

lemma keeps_read: "(\<And>x. keeps (g x)) \<Longrightarrow> keeps (\<lambda>m. rbind (f m) (\<lambda>x. g x m))"
  by (auto simp: keeps_def rbind_eq_Inr)

lemma keeps_index:
  "keeps f \<Longrightarrow> (\<And>i. keeps (g i)) \<Longrightarrow>
   keeps (\<lambda>m. rbind (f m) (\<lambda>r. rbind (as_index label r) (\<lambda>(i, m). g i m)))"
  by (fastforce simp: keeps_def rbind_eq_Inr as_index_def intro: rel_trans)

lemma keeps_float:
  "keeps f \<Longrightarrow> (\<And>i. keeps (g i)) \<Longrightarrow>
   keeps (\<lambda>m. rbind (f m) (\<lambda>r. rbind (as_float r) (\<lambda>(i, m). g i m)))"
  by (fastforce simp: keeps_def rbind_eq_Inr as_float_def intro: rel_trans)

lemma keeps_collect: "(\<And>l. keeps (f l)) \<Longrightarrow> keeps (\<lambda>m. collect_lanes f ls m)"
proof (induction ls)
  case Nil
  show ?case by (rule keeps_cong[OF collect_lanes.simps(1)]) (rule keeps_ret)
next
  case (Cons l ls)
  show ?case
    by (rule keeps_cong[OF collect_lanes.simps(2)]) (intro keeps_bind keeps_ret Cons)
qed

lemma keeps_eval_index: "keeps f \<Longrightarrow> keeps (\<lambda>m. rbind (f m) (as_index label))"
  by (fastforce simp: keeps_def rbind_eq_Inr as_index_def)

lemma keeps_rmw: "allowed (E_Atomic op buffer i e v mo) \<Longrightarrow> keeps (atomic_rmw op buffer idx ex w)"
  by (auto simp: keeps_def dest: rel_rmw)

lemma keeps_call: "keeps (call_result def op_id input)"
  by (auto simp: keeps_def call_result_def rbind_eq_Inr rel_refl)

lemmas eval_fun = eval_expr.simps[THEN ext]

lemmas keeps_rules = keeps_ret keeps_fail keeps_lift keeps_index keeps_float keeps_bind keeps_collect
  keeps_eval_index keeps_call keeps_read

lemma keeps_encode:
  assumes "\<And>a l. a \<in> set as \<Longrightarrow> keeps (eval_expr h snaps a l)"
  shows "keeps (encode_inputs h snaps as ps input l)"
  using assms
proof (induction as arbitrary: ps input)
  case Nil
  show ?case by (rule keeps_cong[OF encode_inputs.simps(1)]) (rule keeps_ret)
next
  case (Cons a as)
  show ?case
  proof (cases ps)
    case Nil
    then show ?thesis by (auto intro: keeps_cong[OF encode_inputs.simps(2)] keeps_ret)
  next
    case (Cons p ps')
    show ?thesis unfolding \<open>ps = p # ps'\<close>
      by (rule keeps_cong[OF encode_inputs.simps(3)], rule keeps_read, rule keeps_bind,
          simp add: Cons.prems, rule keeps_read, simp add: Cons.IH Cons.prems)
  qed
qed

lemma eval_keeps: "admitted e \<Longrightarrow> keeps (eval_expr h snaps e l)"
proof (induction e arbitrary: l)
  case (E_Call op_id args)
  have enc: "keeps (encode_inputs h snaps args ps input l)" for ps input
    by (rule keeps_encode) (use E_Call in \<open>simp add: list_all_iff\<close>)
  show ?case
    by (rule keeps_cong[OF eval_expr.simps(13)], rule keeps_read, rule keeps_read, rule keeps_bind)
      (rule enc keeps_call)+
next
  case (E_Atomic op buffer i e v mo)
  then have al: "allowed (E_Atomic op buffer i e v mo)"
    and ih: "keeps (eval_expr h snaps i l)" "keeps (eval_expr h snaps v l)" for l
    by auto
  show ?case
  proof (cases e)
    case None
    show ?thesis unfolding None
      by (rule keeps_cong[OF eval_expr.simps(17)], rule keeps_read)
        (rule keeps_index ih keeps_rmw[OF al])+
  next
    case (Some a)
    with E_Atomic have ihe: "keeps (eval_expr h snaps a l)" for l by auto
    show ?thesis unfolding Some
      by (rule keeps_cong[OF eval_expr.simps(18)], rule keeps_read)
        (rule keeps_index ih ihe keeps_rmw[OF al])+
  qed
qed (simp only: eval_fun, (rule keeps_rules | simp)+)+

end

text \<open>Every expression keeps the layout of the memory; one without atomics keeps all of it.\<close>

fun atomic_free :: "expr \<Rightarrow> bool" where
  "atomic_free (E_Atomic _ _ _ _ _ _) = False"
| "atomic_free _ = True"

lemma atomic_rmw_layout:
  assumes "atomic_rmw op buffer idx e v m = Inr (w, m')"
  shows "same_layout m m'"
proof -
  have "same_layout m (set_buffer m buffer t')"
    if "map_of (mem_storage m) buffer = Some t" "atomic_store t idx new = Inr t'" for t t' new
    using that atomic_store_keeps_shape[OF that(2)]
    by (intro same_layout_set_buffer[of _ _ t]) (simp_all add: resolve_buffer_def)
  then show ?thesis
    using assms by (auto simp: atomic_rmw_def rbind_eq_Inr atomic_buffer_mut_def split: option.splits)
qed

interpretation layouts: effect same_layout "\<lambda>_. True"
  by unfold_locales (auto dest: atomic_rmw_layout intro: same_layout_trans)

interpretation pure: effect "(=)" atomic_free
  by unfold_locales auto

lemma layouts_admitted [simp]: "layouts.admitted e"
proof (induction e)
  case (E_Atomic op buffer i e v mo)
  then show ?case by (cases e) simp_all
qed (simp_all add: list_all_iff)

lemma eval_expr_layout: "eval_expr h snaps e l m = Inr (v, m') \<Longrightarrow> same_layout m m'"
  using layouts.eval_keeps[OF layouts_admitted] by (rule layouts.keepsD)

lemma eval_expr_pure: "pure.admitted e \<Longrightarrow> eval_expr h snaps e l m = Inr (v, m') \<Longrightarrow> m' = m"
  using pure.keepsD[OF pure.eval_keeps] by metis

end
