(* ===== verification/Ref_Exec.thy ===== *)
theory Ref_Exec
  imports Ref_Eval
begin

text \<open>
  Statement execution of the reference interpreter: the locals and lexical scopes of an invocation
  and the workgroup scheduler (\<open>vyre-reference/src/execution/hashmap/state.rs\<close>), one step of the frame
  machine (\<open>step.rs\<close>, \<open>node_step.rs\<close>), and barriers with the uniform-control-flow check
  (\<open>sync.rs\<close>, \<open>execution/node_tree.rs\<close>).  Vectors used as stacks are lists with the top first.  The source
  identifies a node by its address; the model uses the path from the entry to the node, which is the
  same for two visits exactly when the address is as long as no region body is shared between two places of the
  program (see \<open>note_check\<close>).  The scheduler's loop is a partial function, so that its
  termination is a theorem.
\<close>

type_synonym slice_path = "(nat \<times> nat) list"
type_synonym node_addr = "slice_path \<times> nat"

datatype (plugins only: code size) frame =
    F_Nodes slice_path "node list" nat bool
  | F_Loop slice_path string u32 u32 "node list"

datatype (plugins only: code size) transfer = AT_Copy string nat bytes

record invocation =
  iv_ids :: inv_ids
  iv_index :: u32
  iv_vars :: "string \<rightharpoonup> ref_value"
  iv_immutable :: "string \<rightharpoonup> bool"
  iv_scopes :: "string list list"
  iv_returned :: bool
  iv_waiting :: bool
  iv_checks :: "(node_addr \<times> bool) list"
  iv_frames :: "frame list"
  iv_pending :: "(string \<times> transfer) list"

definition new_invocation :: "inv_ids \<Rightarrow> u32 \<Rightarrow> node list \<Rightarrow> invocation" where
  "new_invocation ids index entry =
     \<lparr>iv_ids = ids, iv_index = index, iv_vars = Map.empty, iv_immutable = Map.empty, iv_scopes = [[]],
      iv_returned = False, iv_waiting = False, iv_checks = [], iv_frames = [F_Nodes [] entry 0 False],
      iv_pending = []\<rparr>"

definition lane_of :: "invocation \<Rightarrow> lane" where
  "lane_of iv = \<lparr>ln_ids = iv_ids iv, ln_index = iv_index iv, ln_vars = iv_vars iv\<rparr>"

definition iv_done :: "invocation \<Rightarrow> bool" where
  "iv_done iv = (iv_returned iv \<or> iv_frames iv = [])"

subsection \<open>Locals\<close>

definition bind_local :: "string \<Rightarrow> ref_value \<Rightarrow> invocation \<Rightarrow> interp_error + invocation" where
  "bind_local name v iv =
     (if iv_vars iv name \<noteq> None then Inl (IE_Node (NE_DuplicateBinding name))
      else Inr (iv\<lparr>iv_vars := (iv_vars iv)(name \<mapsto> v),
                   iv_scopes := (case iv_scopes iv of [] \<Rightarrow> [] | s # ss \<Rightarrow> (s @ [name]) # ss)\<rparr>))"

definition assign_local :: "string \<Rightarrow> ref_value \<Rightarrow> invocation \<Rightarrow> interp_error + invocation" where
  "assign_local name v iv =
     (if iv_vars iv name = None then Inl (IE_Node (NE_UndeclaredAssign name))
      else if iv_immutable iv name = Some True then Inl (IE_Node (NE_LoopVariable name))
      else Inr (iv\<lparr>iv_vars := (iv_vars iv)(name \<mapsto> v)\<rparr>))"

definition bind_loop_var :: "string \<Rightarrow> ref_value \<Rightarrow> invocation \<Rightarrow> interp_error + invocation" where
  "bind_loop_var name v iv =
     rbind (bind_local name v iv) (\<lambda>iv. Inr (iv\<lparr>iv_immutable := (iv_immutable iv)(name \<mapsto> True)\<rparr>))"

definition push_scope :: "invocation \<Rightarrow> invocation" where
  "push_scope iv = iv\<lparr>iv_scopes := [] # iv_scopes iv\<rparr>"

definition pop_scope :: "invocation \<Rightarrow> invocation" where
  "pop_scope iv =
     (case iv_scopes iv of
        [] \<Rightarrow> iv
      | names # ss \<Rightarrow>
          iv\<lparr>iv_vars := iv_vars iv |` (- set names), iv_immutable := iv_immutable iv |` (- set names),
             iv_scopes := ss\<rparr>)"

definition push_frame :: "frame \<Rightarrow> invocation \<Rightarrow> invocation" where
  "push_frame f iv = iv\<lparr>iv_frames := f # iv_frames iv\<rparr>"

subsection \<open>Asynchronous transfers\<close>

definition begin_async :: "string \<Rightarrow> transfer \<Rightarrow> invocation \<Rightarrow> interp_error + invocation" where
  "begin_async tag t iv =
     (if map_of (iv_pending iv) tag \<noteq> None then Inl (IE_Node (NE_AsyncTagBusy tag))
      else Inr (iv\<lparr>iv_pending := AList.update tag t (iv_pending iv)\<rparr>))"

definition finish_async :: "string \<Rightarrow> invocation \<Rightarrow> interp_error + transfer \<times> invocation" where
  "finish_async tag iv =
     (case map_of (iv_pending iv) tag of
        None \<Rightarrow> Inl (IE_Node (NE_AsyncTagUnknown tag))
      | Some t \<Rightarrow> Inr (t, iv\<lparr>iv_pending := AList.delete tag (iv_pending iv)\<rparr>))"

text \<open>The zeroed payload is a vector, and a vector of \<open>2 ^ 63\<close> bytes or more panics.\<close>

definition read_bytes :: "memory \<Rightarrow> string \<Rightarrow> nat \<Rightarrow> nat \<Rightarrow> interp_error + bytes" where
  "read_bytes m source start byte_count =
     rbind (resolve_buffer m source) (\<lambda>b.
       let n = length (rb_bytes b); payload = replicate byte_count 0 in
       if 2 ^ 63 \<le> byte_count then Inl IE_Panic
       else if start < n then
         let available = min (n - start) byte_count in
         Inr (overwrite 0 (take available (drop start (rb_bytes b))) payload)
       else Inr payload)"

definition apply_async_transfer :: "transfer \<Rightarrow> memory \<Rightarrow> interp_error + memory" where
  "apply_async_transfer t m =
     (case t of AT_Copy destination start payload \<Rightarrow>
       update_buffer m destination (\<lambda>b.
         let n = length (rb_bytes b) in
         if n \<le> start then Inr b
         else let write_len = min (length payload) (n - start) in
           Inr (b\<lparr>rb_bytes := overwrite start (take write_len payload) (rb_bytes b)\<rparr>)))"

definition eval_byte_count ::
  "host \<Rightarrow> lane list \<Rightarrow> string \<Rightarrow> expr \<Rightarrow> lane \<Rightarrow> memory \<Rightarrow> nat eval_result" where
  "eval_byte_count h snaps label e l m =
     rbind (eval_expr h snaps e l m) (\<lambda>(v, m).
     rbind (ok_or (try_as_u64 v) (IE_NotU32 label)) (\<lambda>n. Inr (unat n, m)))"

definition eval_async_load ::
  "host \<Rightarrow> lane list \<Rightarrow> string \<Rightarrow> string \<Rightarrow> expr \<Rightarrow> expr \<Rightarrow> lane \<Rightarrow> memory \<Rightarrow> transfer eval_result" where
  "eval_async_load h snaps source destination offset len l m =
     rbind (eval_byte_count h snaps ''async load source offset'' offset l m) (\<lambda>(start, m).
     rbind (eval_byte_count h snaps ''async load size'' len l m) (\<lambda>(n, m).
     rbind (read_bytes m source start n) (\<lambda>payload.
     rbind (resolve_buffer m destination) (\<lambda>_. Inr (AT_Copy destination 0 payload, m)))))"

definition eval_async_store ::
  "host \<Rightarrow> lane list \<Rightarrow> string \<Rightarrow> string \<Rightarrow> expr \<Rightarrow> expr \<Rightarrow> lane \<Rightarrow> memory \<Rightarrow> transfer eval_result" where
  "eval_async_store h snaps source destination offset len l m =
     rbind (eval_byte_count h snaps ''async store destination offset'' offset l m) (\<lambda>(start, m).
     rbind (eval_byte_count h snaps ''async store size'' len l m) (\<lambda>(n, m).
     rbind (read_bytes m source 0 n) (\<lambda>payload.
     rbind (resolve_buffer m destination) (\<lambda>_. Inr (AT_Copy destination start payload, m)))))"

subsection \<open>One step\<close>

fun node_contains_barrier :: "node \<Rightarrow> bool" where
  "node_contains_barrier (N_Barrier _) = True"
| "node_contains_barrier (N_If _ then_nodes otherwise) =
     (list_ex node_contains_barrier then_nodes \<or> list_ex node_contains_barrier otherwise)"
| "node_contains_barrier (N_Loop _ _ _ body) = list_ex node_contains_barrier body"
| "node_contains_barrier (N_Block body) = list_ex node_contains_barrier body"
| "node_contains_barrier _ = False"

definition contains_barrier :: "node list \<Rightarrow> bool" where
  "contains_barrier nodes = list_ex node_contains_barrier nodes"

definition enter_block :: "slice_path \<Rightarrow> node list \<Rightarrow> invocation \<Rightarrow> invocation" where
  "enter_block path nodes iv = push_frame (F_Nodes path nodes 0 True) (push_scope iv)"

text \<open>
  A branch is recorded under its position in the program.  The source records the address of the node, and a
  region's body is shared by reference: two clones of one body, placed at two positions, have one address
  there and two positions here.  The model is that of programs without such sharing, which is every program
  that was decoded.
\<close>

definition note_check :: "node_addr \<Rightarrow> bool \<Rightarrow> invocation \<Rightarrow> invocation" where
  "note_check addr c iv = iv\<lparr>iv_checks := iv_checks iv @ [(addr, c)]\<rparr>"

fun exec_node ::
  "host \<Rightarrow> lane list \<Rightarrow> slice_path \<Rightarrow> nat \<Rightarrow> node \<Rightarrow> invocation \<Rightarrow> memory \<Rightarrow> invocation eval_result" where
  "exec_node h snaps path i (N_Let name value) iv m =
     rbind (eval_expr h snaps value (lane_of iv) m) (\<lambda>(v, m).
     rbind (bind_local name v iv) (\<lambda>iv. Inr (iv, m)))"
| "exec_node h snaps path i (N_Assign name value) iv m =
     rbind (eval_expr h snaps value (lane_of iv) m) (\<lambda>(v, m).
     rbind (assign_local name v iv) (\<lambda>iv. Inr (iv, m)))"
| "exec_node h snaps path i (N_Store buffer index value) iv m =
     rbind (eval_expr h snaps index (lane_of iv) m) (\<lambda>r. rbind (as_index ''store index'' r) (\<lambda>(idx, m).
     rbind (eval_expr h snaps value (lane_of iv) m) (\<lambda>(v, m).
     rbind (update_buffer m buffer (\<lambda>b. store b idx v)) (\<lambda>m. Inr (iv, m)))))"
| "exec_node h snaps path i (N_If cond then_nodes otherwise) iv m =
     rbind (eval_expr h snaps cond (lane_of iv) m) (\<lambda>(v, m).
       let c = truthy v;
           iv = (if contains_barrier then_nodes \<or> contains_barrier otherwise
                 then note_check (path, i) c iv else iv) in
       Inr (enter_block ((if c then 0 else 1, i) # path) (if c then then_nodes else otherwise) iv, m))"
| "exec_node h snaps path i (N_Loop var from to body) iv m =
     rbind (eval_expr h snaps from (lane_of iv) m) (\<lambda>r. rbind (as_index ''loop lower bound'' r) (\<lambda>(a, m).
     rbind (eval_expr h snaps to (lane_of iv) m) (\<lambda>r. rbind (as_index ''loop upper bound'' r) (\<lambda>(b, m).
       Inr (push_frame (F_Loop ((0, i) # path) var a b body) iv, m)))))"
| "exec_node h snaps path i N_Return iv m = Inr (iv\<lparr>iv_frames := [], iv_returned := True\<rparr>, m)"
| "exec_node h snaps path i (N_Block nodes) iv m = Inr (enter_block ((0, i) # path) nodes iv, m)"
| "exec_node h snaps path i (N_Barrier _) iv m = Inr (iv\<lparr>iv_waiting := True\<rparr>, m)"
| "exec_node h snaps path i (N_IndirectDispatch _ count_offset) iv m =
     (if unat count_offset < 2 ^ 32 then Inl (IE_Node NE_IndirectDispatch) else Inl (IE_Node NE_OffsetRange))"
| "exec_node h snaps path i (N_AsyncLoad source destination offset n tag) iv m =
     rbind (eval_async_load h snaps source destination offset n (lane_of iv) m) (\<lambda>(t, m).
     rbind (begin_async tag t iv) (\<lambda>iv. Inr (iv, m)))"
| "exec_node h snaps path i (N_AsyncStore source destination offset n tag) iv m =
     rbind (eval_async_store h snaps source destination offset n (lane_of iv) m) (\<lambda>(t, m).
     rbind (begin_async tag t iv) (\<lambda>iv. Inr (iv, m)))"
| "exec_node h snaps path i (N_AsyncWait tag) iv m =
     rbind (finish_async tag iv) (\<lambda>(t, iv). rbind (apply_async_transfer t m) (\<lambda>m. Inr (iv, m)))"
| "exec_node h snaps path i (N_Trap address tag) iv m =
     rbind (eval_expr h snaps address (lane_of iv) m) (\<lambda>r. rbind (as_index ''trap address'' r) (\<lambda>(a, m).
       Inl (IE_Node (NE_Trap a tag))))"
| "exec_node h snaps path i (N_Resume tag) iv m = Inl (IE_Node (NE_Resume tag))"
| "exec_node h snaps path i (N_AllReduce _ _ _) iv m = Inl (IE_Node NE_Collective)"
| "exec_node h snaps path i (N_AllGather _ _ _) iv m = Inl (IE_Node NE_Collective)"
| "exec_node h snaps path i (N_ReduceScatter _ _ _ _) iv m = Inl (IE_Node NE_Collective)"
| "exec_node h snaps path i (N_Broadcast _ _ _) iv m = Inl (IE_Node NE_Collective)"
| "exec_node h snaps path i (N_Region _ _ body) iv m = Inr (enter_block ((0, i) # path) body iv, m)"
| "exec_node h snaps path i (N_Opaque _) iv m = Inl (IE_Node NE_OpaqueNode)"

definition step_loop_frame ::
  "slice_path \<Rightarrow> string \<Rightarrow> u32 \<Rightarrow> u32 \<Rightarrow> node list \<Rightarrow> invocation \<Rightarrow> interp_error + invocation" where
  "step_loop_frame path var nxt to body iv =
     (if to \<le> nxt then Inr iv
      else
        rbind (bind_loop_var var (V_U32 nxt) (push_scope (push_frame (F_Loop path var (nxt + 1) to body) iv)))
          (\<lambda>iv. Inr (push_frame (F_Nodes path body 0 True) iv)))"

text \<open>The inner loop of \<open>step\<close> continues only past an exhausted frame that closes no scope.\<close>

fun step_frames :: "host \<Rightarrow> lane list \<Rightarrow> frame list \<Rightarrow> invocation \<Rightarrow> memory \<Rightarrow> invocation eval_result" where
  "step_frames h snaps [] iv m = Inr (iv\<lparr>iv_frames := []\<rparr>, m)"
| "step_frames h snaps (F_Nodes path nodes index scoped # fs) iv m =
     (if length nodes \<le> index then
        (if scoped then Inr (pop_scope (iv\<lparr>iv_frames := fs\<rparr>), m) else step_frames h snaps fs iv m)
      else exec_node h snaps path index (nodes ! index)
             (iv\<lparr>iv_frames := F_Nodes path nodes (index + 1) scoped # fs\<rparr>) m)"
| "step_frames h snaps (F_Loop path var nxt to body # fs) iv m =
     rbind (step_loop_frame path var nxt to body (iv\<lparr>iv_frames := fs\<rparr>)) (\<lambda>iv. Inr (iv, m))"

definition idle :: "invocation \<Rightarrow> bool" where
  "idle iv = (iv_done iv \<or> iv_waiting iv)"

definition step_invocation :: "host \<Rightarrow> lane list \<Rightarrow> invocation \<Rightarrow> memory \<Rightarrow> invocation eval_result" where
  "step_invocation h snaps iv m = (if idle iv then Inr (iv, m) else step_frames h snaps (iv_frames iv) iv m)"

subsection \<open>The workgroup scheduler\<close>

fun step_each ::
  "host \<Rightarrow> lane list \<Rightarrow> invocation list \<Rightarrow> memory \<Rightarrow> (bool \<times> invocation list) eval_result" where
  "step_each h snaps [] m = Inr ((False, []), m)"
| "step_each h snaps (iv # ivs) m =
     (if idle iv then
        rbind (step_each h snaps ivs m) (\<lambda>((made, ivs), m). Inr ((made, iv # ivs), m))
      else
        rbind (step_invocation h snaps iv m) (\<lambda>(iv, m).
        rbind (step_each h snaps ivs m) (\<lambda>((_, ivs), m). Inr ((True, iv # ivs), m))))"

definition step_round_robin ::
  "host \<Rightarrow> bool \<Rightarrow> invocation list \<Rightarrow> memory \<Rightarrow> (bool \<times> invocation list) eval_result" where
  "step_round_robin h uses_subgroup_ops ivs m =
     step_each h (if uses_subgroup_ops then map lane_of ivs else []) ivs m"

definition live_waiting_count :: "invocation list \<Rightarrow> nat" where
  "live_waiting_count ivs = length (filter (\<lambda>iv. \<not> iv_done iv \<and> iv_waiting iv) ivs)"

definition release_barrier_if_ready :: "invocation list \<Rightarrow> bool \<times> invocation list" where
  "release_barrier_if_ready ivs =
     (let active = length (filter (\<lambda>iv. \<not> iv_done iv) ivs); waiting = live_waiting_count ivs in
      if 0 < active \<and> active = waiting then (True, map (\<lambda>iv. iv\<lparr>iv_waiting := False\<rparr>) ivs)
      else (False, ivs))"

fun check_uniform :: "(node_addr \<times> bool) list \<Rightarrow> (node_addr \<times> bool) list \<Rightarrow> interp_error + unit" where
  "check_uniform observed [] = Inr ()"
| "check_uniform observed ((addr, v) # cs) =
     (case map_of observed addr of
        Some previous \<Rightarrow>
          if previous \<noteq> v then Inl (IE_Run RE_NonUniformBranch) else check_uniform observed cs
      | None \<Rightarrow> check_uniform (observed @ [(addr, v)]) cs)"

definition verify_uniform_control_flow :: "invocation list \<Rightarrow> interp_error + unit" where
  "verify_uniform_control_flow ivs =
     check_uniform [] (concat (map iv_checks (filter (\<lambda>iv. \<not> iv_done iv) ivs)))"

partial_function (option) run_loop ::
  "host \<Rightarrow> bool \<Rightarrow> invocation list \<Rightarrow> memory \<Rightarrow> (interp_error + invocation list \<times> memory) option" where
  "run_loop h uses ivs m =
     (if list_all iv_done ivs then Some (Inr (ivs, m))
      else case step_round_robin h uses ivs m of
        Inl e \<Rightarrow> Some (Inl e)
      | Inr ((made_progress, ivs'), m') \<Rightarrow>
          (case verify_uniform_control_flow ivs' of
             Inl e \<Rightarrow> Some (Inl e)
           | Inr _ \<Rightarrow>
               (case release_barrier_if_ready ivs' of
                  (released, ivs'') \<Rightarrow>
                    if released then run_loop h uses ivs'' m'
                    else if \<not> made_progress \<and> 0 < live_waiting_count ivs'
                    then Some (Inl (IE_Run RE_BarrierDivergence))
                    else run_loop h uses ivs' m')))"

definition pending_transfers :: "invocation list \<Rightarrow> bool" where
  "pending_transfers ivs = list_ex (\<lambda>iv. iv_pending iv \<noteq> []) ivs"

definition run_invocations ::
  "host \<Rightarrow> bool \<Rightarrow> invocation list \<Rightarrow> memory \<Rightarrow> (interp_error + memory) option" where
  "run_invocations h uses ivs m =
     map_option (\<lambda>r. rbind r (\<lambda>(ivs, m).
       if pending_transfers ivs then Inl (IE_Run RE_AsyncPending) else Inr m)) (run_loop h uses ivs m)"

subsection \<open>Every step consumes work\<close>

text \<open>
  An upper bound on the steps a node, a frame and an invocation can still take.  Loop bounds are \<open>u32\<close>, so
  a loop runs its body fewer than \<open>2 ^ 32\<close> times.
\<close>

fun node_cost :: "node \<Rightarrow> nat" where
  "node_cost (N_If _ t e) = 3 + sum_list (map node_cost t) + sum_list (map node_cost e)"
| "node_cost (N_Loop _ _ _ body) = 2 + 2 ^ 32 * (2 + sum_list (map node_cost body))"
| "node_cost (N_Block body) = 2 + sum_list (map node_cost body)"
| "node_cost (N_Region _ _ body) = 2 + sum_list (map node_cost body)"
| "node_cost _ = 1"

definition nodes_cost :: "node list \<Rightarrow> nat" where
  "nodes_cost ns = sum_list (map node_cost ns)"

definition loop_cost :: "node list \<Rightarrow> nat \<Rightarrow> nat" where
  "loop_cost body k = k * (2 + nodes_cost body)"

fun frame_cost :: "frame \<Rightarrow> nat" where
  "frame_cost (F_Nodes _ nodes index _) = 1 + nodes_cost (drop index nodes)"
| "frame_cost (F_Loop _ _ nxt to body) = 1 + loop_cost body (unat to - unat nxt)"

definition frames_cost :: "frame list \<Rightarrow> nat" where
  "frames_cost fs = sum_list (map frame_cost fs)"

definition total_cost :: "invocation list \<Rightarrow> nat" where
  "total_cost ivs = sum_list (map (\<lambda>iv. frames_cost (iv_frames iv)) ivs)"

lemma frames_cost_simps [simp]:
  "frames_cost [] = 0" "frames_cost (f # fs) = frame_cost f + frames_cost fs"
  by (simp_all add: frames_cost_def)

lemma node_cost_pos: "0 < node_cost n"
  by (cases n) simp_all

lemma bind_local_frames: "bind_local name v iv = Inr iv' \<Longrightarrow> iv_frames iv' = iv_frames iv"
  by (auto simp: bind_local_def split: if_splits)

lemma assign_local_frames: "assign_local name v iv = Inr iv' \<Longrightarrow> iv_frames iv' = iv_frames iv"
  by (auto simp: assign_local_def split: if_splits)

lemma bind_loop_var_frames: "bind_loop_var name v iv = Inr iv' \<Longrightarrow> iv_frames iv' = iv_frames iv"
  by (auto simp: bind_loop_var_def rbind_eq_Inr dest: bind_local_frames)

lemma async_frames:
  "begin_async tag t iv = Inr iv' \<Longrightarrow> iv_frames iv' = iv_frames iv"
  "finish_async tag iv = Inr (t, iv') \<Longrightarrow> iv_frames iv' = iv_frames iv"
  by (auto simp: begin_async_def finish_async_def split: if_splits option.splits)

lemma enter_block_frames [simp]:
  "iv_frames (enter_block path nodes iv) = F_Nodes path nodes 0 True # iv_frames iv"
  by (simp add: enter_block_def push_frame_def push_scope_def)

lemma note_check_frames [simp]: "iv_frames (note_check a c iv) = iv_frames iv"
  by (simp add: note_check_def)

lemma push_frame_frames [simp]: "iv_frames (push_frame f iv) = f # iv_frames iv"
  by (simp add: push_frame_def)

lemma pop_scope_frames [simp]: "iv_frames (pop_scope iv) = iv_frames iv"
  by (simp add: pop_scope_def split: list.split)

lemma push_scope_frames [simp]: "iv_frames (push_scope iv) = iv_frames iv"
  by (simp add: push_scope_def)

lemma u32_range: "unat (b :: u32) - unat (a :: u32) < 2 ^ 32"
  using unsigned_less[of b, where 'a = nat] by simp

lemma node_cost_loop: "node_cost (N_Loop v a b body) = 2 + loop_cost body (2 ^ 32)"
  by (simp only: node_cost.simps loop_cost_def nodes_cost_def)

lemma loop_cost_Suc: "loop_cost body (Suc k) = 2 + nodes_cost body + loop_cost body k"
  by (simp add: loop_cost_def)

lemma loop_cost_mono: "k \<le> k' \<Longrightarrow> loop_cost body k \<le> loop_cost body k'"
  unfolding loop_cost_def by (rule mult_le_mono1)

lemma exec_node_cost:
  assumes "exec_node h snaps path i n iv m = Inr (iv', m')"
  shows "frames_cost (iv_frames iv') < frames_cost (iv_frames iv) + node_cost n"
proof (cases n)
  case (N_Loop var e1 e2 body)
  have "loop_cost body (unat b - unat a) \<le> loop_cost body (2 ^ 32)" for a b :: u32
    using u32_range[of b a] by (intro loop_cost_mono) simp
  then show ?thesis using assms unfolding N_Loop
    by (auto simp: rbind_eq_Inr as_index_def node_cost_loop le_imp_less_Suc simp del: node_cost.simps)
qed (use assms in \<open>auto simp: rbind_eq_Inr as_index_def Let_def nodes_cost_def
    dest!: bind_local_frames assign_local_frames async_frames split: if_splits\<close>)

lemma step_frames_cost:
  assumes "step_frames h snaps fs iv m = Inr (iv', m')" "fs \<noteq> []"
  shows "frames_cost (iv_frames iv') < frames_cost fs"
  using assms
proof (induction h snaps fs iv m rule: step_frames.induct)
  case (2 h snaps path nodes index scoped fs iv m)
  show ?case
  proof (cases "length nodes \<le> index")
    case True
    with 2 show ?thesis by (cases fs) (auto split: if_splits)
  next
    case False
    then have "drop index nodes = nodes ! index # drop (Suc index) nodes"
      by (simp add: Cons_nth_drop_Suc)
    then have "nodes_cost (drop index nodes) = node_cost (nodes ! index) + nodes_cost (drop (Suc index) nodes)"
      by (simp add: nodes_cost_def)
    with False 2(2) show ?thesis by (auto dest!: exec_node_cost)
  qed
next
  case (3 h snaps path var nxt to body fs iv m)
  show ?case
  proof (cases "to \<le> nxt")
    case True
    with 3 show ?thesis by (auto simp: step_loop_frame_def)
  next
    case False
    then have lt: "unat nxt < unat to" by (simp add: word_less_nat_alt not_le)
    have "unat (nxt + 1) = Suc (unat nxt)"
      using lt unsigned_less[of to, where 'a = nat] by (simp add: unat_word_ariths)
    then have "unat to - unat nxt = Suc (unat to - unat (nxt + 1))" using lt by simp
    with False 3 show ?thesis
      by (auto simp: step_loop_frame_def rbind_eq_Inr loop_cost_Suc dest!: bind_loop_var_frames)
  qed
qed simp

lemma step_cost:
  assumes "step_invocation h snaps iv m = Inr (iv', m')" "\<not> idle iv"
  shows "frames_cost (iv_frames iv') < frames_cost (iv_frames iv)"
  using assms step_frames_cost by (auto simp: step_invocation_def idle_def iv_done_def)

lemma total_cost_simps [simp]:
  "total_cost [] = 0" "total_cost (iv # ivs) = frames_cost (iv_frames iv) + total_cost ivs"
  by (simp_all add: total_cost_def)

lemma step_each_cost:
  assumes "step_each h snaps ivs m = Inr ((made, ivs'), m')"
  shows "if made then total_cost ivs' < total_cost ivs else ivs' = ivs \<and> m' = m \<and> list_all idle ivs"
  using assms
proof (induction ivs arbitrary: m ivs' made)
  case (Cons iv ivs)
  show ?case
  proof (cases "idle iv")
    case True
    with Cons.prems obtain ivs1 where "step_each h snaps ivs m = Inr ((made, ivs1), m')" "ivs' = iv # ivs1"
      by (auto simp: rbind_eq_Inr)
    with Cons.IH True show ?thesis by fastforce
  next
    case False
    with Cons.prems obtain iv1 m1 made1 ivs1 where
      "step_invocation h snaps iv m = Inr (iv1, m1)" "step_each h snaps ivs m1 = Inr ((made1, ivs1), m')"
      "made" "ivs' = iv1 # ivs1"
      by (auto simp: rbind_eq_Inr)
    with Cons.IH[of m1 made1 ivs1] step_cost[OF _ False] show ?thesis
      by (cases made1) fastforce+
  qed
qed simp

subsection \<open>Barriers\<close>

text \<open>A round without progress leaves every live invocation at a barrier, so it releases them.\<close>

lemma idle_round_releases:
  assumes "list_all idle ivs" "\<not> list_all iv_done ivs"
  shows "release_barrier_if_ready ivs = (True, map (\<lambda>iv. iv\<lparr>iv_waiting := False\<rparr>) ivs)"
    and "0 < live_waiting_count ivs"
proof -
  have "filter (\<lambda>iv. \<not> iv_done iv \<and> iv_waiting iv) ivs = filter (\<lambda>iv. \<not> iv_done iv) ivs"
    using assms(1) by (intro filter_cong) (auto simp: list_all_iff idle_def)
  moreover have "filter (\<lambda>iv. \<not> iv_done iv) ivs \<noteq> []"
    using assms(2) by (auto simp: list_all_iff filter_empty_conv)
  ultimately show "release_barrier_if_ready ivs = (True, map (\<lambda>iv. iv\<lparr>iv_waiting := False\<rparr>) ivs)"
    and "0 < live_waiting_count ivs"
    by (simp_all add: release_barrier_if_ready_def live_waiting_count_def)
qed

lemma iv_done_waiting [simp]: "iv_done (iv\<lparr>iv_waiting := w\<rparr>) = iv_done iv"
  by (simp add: iv_done_def)

lemma released_cost: "total_cost (map (\<lambda>iv. iv\<lparr>iv_waiting := False\<rparr>) ivs) = total_cost ivs"
  by (induction ivs) simp_all

lemma released_waiting: "live_waiting_count (map (\<lambda>iv. iv\<lparr>iv_waiting := False\<rparr>) ivs) = 0"
  by (induction ivs) (simp_all add: live_waiting_count_def)

lemma release_cases:
  "release_barrier_if_ready ivs =
     (fst (release_barrier_if_ready ivs),
      if fst (release_barrier_if_ready ivs) then map (\<lambda>iv. iv\<lparr>iv_waiting := False\<rparr>) ivs else ivs)"
  by (simp add: release_barrier_if_ready_def Let_def)

text \<open>The order in which rounds go down: less work left, or as much and fewer waiting.\<close>

definition round_order :: "(invocation list \<times> invocation list) set" where
  "round_order = measures [total_cost, live_waiting_count]"

lemma wf_round_order: "wf round_order"
  by (simp add: round_order_def)

lemma round_goes_down:
  assumes "step_round_robin h uses ivs m = Inr ((made, ivs'), m')" "\<not> list_all iv_done ivs"
  shows "(snd (release_barrier_if_ready ivs'), ivs) \<in> round_order"
    and "\<not> made \<Longrightarrow> fst (release_barrier_if_ready ivs')"
proof -
  note c = step_each_cost[OF assms(1)[unfolded step_round_robin_def]]
  have idle: "list_all idle ivs" "ivs' = ivs" if "\<not> made" using c that by auto
  show "\<not> made \<Longrightarrow> fst (release_barrier_if_ready ivs')"
    using idle idle_round_releases(1)[OF _ assms(2)] by simp
  show "(snd (release_barrier_if_ready ivs'), ivs) \<in> round_order"
  proof (cases made)
    case True
    with c have "total_cost (snd (release_barrier_if_ready ivs')) < total_cost ivs"
      by (subst release_cases) (simp add: released_cost)
    then show ?thesis by (simp add: round_order_def)
  next
    case False
    with idle idle_round_releases[OF _ assms(2)] show ?thesis
      by (simp add: round_order_def released_cost released_waiting)
  qed
qed

text \<open>Induction over the rounds of the scheduler.\<close>

lemma run_loop_unfold:
  assumes "step_round_robin h uses ivs m = Inr ((made, ivs'), m')" "\<not> list_all iv_done ivs"
    "verify_uniform_control_flow ivs' = Inr u"
  shows "run_loop h uses ivs m = run_loop h uses (snd (release_barrier_if_ready ivs')) m'"
proof -
  have "fst (release_barrier_if_ready ivs') \<or> made" using round_goes_down(2)[OF assms(1,2)] by blast
  then show ?thesis
    using assms release_cases[of ivs']
    by (subst run_loop.simps) (cases "release_barrier_if_ready ivs'"; auto split: if_splits)
qed

lemma run_loop_induct [case_names finished step_error check_error another_round]:
  assumes "\<And>ivs m. list_all iv_done ivs \<Longrightarrow> P ivs m (Some (Inr (ivs, m)))"
    and "\<And>ivs m e. \<not> list_all iv_done ivs \<Longrightarrow> step_round_robin h uses ivs m = Inl e \<Longrightarrow> P ivs m (Some (Inl e))"
    and "\<And>ivs m made ivs' m' e. \<not> list_all iv_done ivs \<Longrightarrow>
      step_round_robin h uses ivs m = Inr ((made, ivs'), m') \<Longrightarrow> verify_uniform_control_flow ivs' = Inl e \<Longrightarrow>
      P ivs m (Some (Inl e))"
    and "\<And>ivs m made ivs' m' r. \<not> list_all iv_done ivs \<Longrightarrow>
      step_round_robin h uses ivs m = Inr ((made, ivs'), m') \<Longrightarrow> verify_uniform_control_flow ivs' = Inr () \<Longrightarrow>
      P (snd (release_barrier_if_ready ivs')) m' r \<Longrightarrow> P ivs m r"
  shows "P ivs m (run_loop h uses ivs m)"
proof (induction ivs arbitrary: m rule: wf_induct_rule[OF wf_round_order])
  case (1 ivs)
  show ?case
  proof (cases "list_all iv_done ivs")
    case True
    then show ?thesis using assms(1) by (subst run_loop.simps) simp
  next
    case live: False
    show ?thesis
    proof (cases "step_round_robin h uses ivs m")
      case (Inl e)
      with live show ?thesis using assms(2) by (subst run_loop.simps) simp
    next
      case (Inr r)
      obtain made ivs' m' where "r = ((made, ivs'), m')" by (cases r) auto
      with Inr have round: "step_round_robin h uses ivs m = Inr ((made, ivs'), m')" by simp
      show ?thesis
      proof (cases "verify_uniform_control_flow ivs'")
        case (Inl e)
        with live round show ?thesis using assms(3) by (subst run_loop.simps) simp
      next
        case (Inr u)
        show ?thesis
          unfolding run_loop_unfold[OF round live Inr]
          by (rule assms(4)[OF live round]) (use Inr in simp, rule 1, rule round_goes_down(1)[OF round live])
      qed
    qed
  qed
qed

subsection \<open>Invariants of a run\<close>

text \<open>
  Lexical scoping: there is one scope per open block besides the outermost, the bound names are
  exactly the names of the open scopes, each in one of them, and only bound names are marked
  immutable.
\<close>

fun scoped_frame :: "frame \<Rightarrow> bool" where
  "scoped_frame (F_Nodes _ _ _ scoped) = scoped"
| "scoped_frame (F_Loop _ _ _ _ _) = False"

definition scopes_ok :: "nat \<Rightarrow> string list list \<Rightarrow> string set \<Rightarrow> string set \<Rightarrow> bool" where
  "scopes_ok n ss vars immutable =
     (length ss = Suc n \<and> vars = set (concat ss) \<and> distinct (concat ss) \<and> immutable \<subseteq> vars)"

definition scope_inv :: "invocation \<Rightarrow> bool" where
  "scope_inv iv = scopes_ok (length (filter scoped_frame (iv_frames iv))) (iv_scopes iv)
     (dom (iv_vars iv)) (dom (iv_immutable iv))"

definition well_scoped :: "invocation \<Rightarrow> bool" where
  "well_scoped iv = (iv_returned iv \<or> scope_inv iv)"

definition same_lane :: "invocation \<Rightarrow> invocation \<Rightarrow> bool" where
  "same_lane iv iv' = (iv_ids iv' = iv_ids iv \<and> iv_index iv' = iv_index iv)"

lemma scopes_ok_bind:
  "scopes_ok n (names # ss) V I \<Longrightarrow> name \<notin> V \<Longrightarrow> scopes_ok n ((names @ [name]) # ss) (insert name V) I"
  by (auto simp: scopes_ok_def)

lemma scopes_ok_enter: "scopes_ok n ss V I \<Longrightarrow> scopes_ok (Suc n) ([] # ss) V I"
  by (auto simp: scopes_ok_def)

lemma scopes_ok_leave:
  "scopes_ok (Suc n) (names # ss) V I \<Longrightarrow> scopes_ok n ss (V - set names) (I - set names)"
  by (auto simp: scopes_ok_def)

lemma scopes_ok_mark: "scopes_ok n ss V I \<Longrightarrow> name \<in> V \<Longrightarrow> scopes_ok n ss V (insert name I)"
  by (auto simp: scopes_ok_def)

lemma scopes_ok_Cons: "scopes_ok n ss V I \<Longrightarrow> \<exists>names ss'. ss = names # ss'"
  by (cases ss) (simp_all add: scopes_ok_def)

lemma scope_inv_bind: "bind_local name v iv = Inr iv' \<Longrightarrow> scope_inv iv \<Longrightarrow> scope_inv iv'"
  unfolding scope_inv_def
  by (frule scopes_ok_Cons) (auto simp: bind_local_def domIff intro!: scopes_ok_bind split: if_splits)

lemma scope_inv_assign: "assign_local name v iv = Inr iv' \<Longrightarrow> scope_inv iv \<Longrightarrow> scope_inv iv'"
  by (auto simp: assign_local_def scope_inv_def insert_absorb domIff split: if_splits)

lemma scope_inv_loop_var:
  assumes "bind_loop_var name v iv = Inr iv'" "scope_inv iv"
  shows "scope_inv iv'"
proof -
  obtain iv1 where b: "bind_local name v iv = Inr iv1"
    and eq: "iv' = iv1\<lparr>iv_immutable := (iv_immutable iv1)(name \<mapsto> True)\<rparr>"
    using assms(1) by (auto simp: bind_loop_var_def rbind_eq_Inr)
  have "name \<in> dom (iv_vars iv1)" using b by (auto simp: bind_local_def split: if_splits)
  with scope_inv_bind[OF b assms(2)] show ?thesis by (simp add: scope_inv_def eq scopes_ok_mark)
qed

lemma bind_loop_var_push:
  "bind_loop_var name v iv = Inr iv' \<Longrightarrow> bind_loop_var name v (push_frame f iv) = Inr (push_frame f iv')"
  by (auto simp: bind_loop_var_def bind_local_def push_frame_def split: if_splits)

lemma scope_inv_enter: "scope_inv iv \<Longrightarrow> scope_inv (enter_block path nodes iv)"
  by (simp add: scope_inv_def enter_block_def push_frame_def push_scope_def scopes_ok_enter)

lemma scope_inv_pop:
  assumes "scope_inv (iv\<lparr>iv_frames := F_Nodes path nodes i True # fs\<rparr>)"
  shows "scope_inv (pop_scope (iv\<lparr>iv_frames := fs\<rparr>))"
proof -
  have ok: "scopes_ok (Suc (length (filter scoped_frame fs))) (iv_scopes iv) (dom (iv_vars iv)) (dom (iv_immutable iv))"
    using assms by (simp add: scope_inv_def)
  with scopes_ok_Cons obtain names ss where sc: "iv_scopes iv = names # ss" by blast
  show ?thesis
    using scopes_ok_leave[OF ok[unfolded sc]] by (simp add: scope_inv_def sc pop_scope_def Diff_eq)
qed

lemma scope_inv_fields:
  "scope_inv (note_check a c iv) = scope_inv iv"
  "scope_inv (iv\<lparr>iv_waiting := w\<rparr>) = scope_inv iv"
  "scope_inv (iv\<lparr>iv_pending := p\<rparr>) = scope_inv iv"
  "scope_inv (push_frame (F_Loop path v x y body) iv) = scope_inv iv"
  by (simp_all add: scope_inv_def note_check_def push_frame_def)

lemma async_scope_inv:
  "begin_async tag t iv = Inr iv' \<Longrightarrow> scope_inv iv \<Longrightarrow> scope_inv iv'"
  "finish_async tag iv = Inr (t, iv') \<Longrightarrow> scope_inv iv \<Longrightarrow> scope_inv iv'"
  by (auto simp: begin_async_def finish_async_def scope_inv_fields split: if_splits option.splits)

lemma exec_node_scoped:
  assumes "exec_node h snaps path i n iv m = Inr (iv', m')" "scope_inv iv"
  shows "well_scoped iv'"
  using assms
  by (cases n) (auto simp: well_scoped_def rbind_eq_Inr Let_def as_index_def scope_inv_fields
      intro: scope_inv_bind scope_inv_assign scope_inv_enter async_scope_inv split: if_splits)

lemma step_frames_scoped:
  assumes "step_frames h snaps fs iv m = Inr (iv', m')" "scope_inv (iv\<lparr>iv_frames := fs\<rparr>)"
  shows "well_scoped iv'"
  using assms
proof (induction h snaps fs iv m rule: step_frames.induct)
  case (2 h snaps path nodes index scoped fs iv m)
  have shift: "scope_inv (iv\<lparr>iv_frames := F_Nodes path nodes j scoped # fs\<rparr>)" for j
    using 2(3) by (cases scoped) (simp_all add: scope_inv_def)
  show ?case
  proof (cases "length nodes \<le> index")
    case False
    with 2(2) show ?thesis using exec_node_scoped[OF _ shift] by simp
  next
    case True
    show ?thesis
    proof (cases scoped)
      case True
      with 2(2,3) \<open>length nodes \<le> index\<close> show ?thesis
        using scope_inv_pop[where iv = iv and path = path and nodes = nodes and i = index and fs = fs] by (simp add: well_scoped_def)
    next
      case False
      then have "scope_inv (iv\<lparr>iv_frames := fs\<rparr>)" using 2(3) by (simp add: scope_inv_def)
      with 2 True False show ?thesis by simp
    qed
  qed
next
  case (3 h snaps path var nxt to body fs iv m)
  have base: "scope_inv (iv\<lparr>iv_frames := fs\<rparr>)" using 3(2) by (simp add: scope_inv_def)
  then have opened: "scope_inv (enter_block path body (push_frame (F_Loop path var (nxt + 1) to body) (iv\<lparr>iv_frames := fs\<rparr>)))"
    by (intro scope_inv_enter) (simp add: scope_inv_fields)
  have "scope_inv (push_frame (F_Nodes path body 0 True) iv1)"
    if "bind_loop_var var (V_U32 nxt)
      (push_scope (push_frame (F_Loop path var (nxt + 1) to body) (iv\<lparr>iv_frames := fs\<rparr>))) = Inr iv1"
    for iv1
    using scope_inv_loop_var[OF bind_loop_var_push[OF that]] opened by (simp add: enter_block_def)
  with base 3(1) show ?case
    by (auto simp: step_loop_frame_def well_scoped_def rbind_eq_Inr split: if_splits)
qed (simp add: well_scoped_def)

lemma update_store_layout: "update_buffer m name (\<lambda>b. store b i v) = Inr m' \<Longrightarrow> same_layout m m'"
  by (erule update_buffer_layout) (blast dest: store_keeps_shape)

lemma async_transfer_layout: "apply_async_transfer t m = Inr m' \<Longrightarrow> same_layout m m'"
  by (cases t)
    (auto simp: apply_async_transfer_def Let_def length_overwrite intro!: update_buffer_layout split: if_splits)

lemma eval_index_layout:
  "rbind (eval_expr h snaps e l m) (as_index label) = Inr (i, m') \<Longrightarrow> same_layout m m'"
  by (auto simp: rbind_eq_Inr as_index_def dest: eval_expr_layout)

lemma eval_byte_count_layout: "eval_byte_count h snaps label e l m = Inr (n, m') \<Longrightarrow> same_layout m m'"
  by (auto simp: eval_byte_count_def rbind_eq_Inr dest: eval_expr_layout)

lemma eval_async_layout:
  "eval_async_load h snaps s d e1 e2 l m = Inr (t, m') \<Longrightarrow> same_layout m m'"
  "eval_async_store h snaps s d e1 e2 l m = Inr (t, m') \<Longrightarrow> same_layout m m'"
  by (auto simp: eval_async_load_def eval_async_store_def rbind_eq_Inr
      dest!: eval_byte_count_layout intro: same_layout_trans)

lemma exec_node_layout:
  assumes "exec_node h snaps path i n iv m = Inr (iv', m')"
  shows "same_layout m m'"
  using assms
  by (cases n) (auto simp: rbind_eq_Inr as_index_def Let_def
      dest!: eval_expr_layout eval_async_layout update_store_layout async_transfer_layout
      intro: same_layout_trans split: if_splits)

lemma step_frames_layout:
  "step_frames h snaps fs iv m = Inr (iv', m') \<Longrightarrow> same_layout m m'"
  by (induction h snaps fs iv m rule: step_frames.induct)
    (auto simp: rbind_eq_Inr dest: exec_node_layout split: if_splits)

lemma local_lane:
  "bind_local name v iv = Inr iv' \<Longrightarrow> same_lane iv iv'"
  "assign_local name v iv = Inr iv' \<Longrightarrow> same_lane iv iv'"
  "bind_loop_var name v iv = Inr iv' \<Longrightarrow> same_lane iv iv'"
  "begin_async tag t iv = Inr iv' \<Longrightarrow> same_lane iv iv'"
  "finish_async tag iv = Inr (t, iv') \<Longrightarrow> same_lane iv iv'"
  by (auto simp: same_lane_def bind_local_def assign_local_def bind_loop_var_def begin_async_def finish_async_def
      split: if_splits option.splits)

lemma same_lane_ops:
  "same_lane iv (push_frame f iv') = same_lane iv iv'"
  "same_lane iv (push_scope iv') = same_lane iv iv'"
  "same_lane iv (pop_scope iv') = same_lane iv iv'"
  "same_lane iv (note_check a c iv') = same_lane iv iv'"
  "same_lane iv (enter_block path nodes iv') = same_lane iv iv'"
  "same_lane iv (iv'\<lparr>iv_frames := fs\<rparr>) = same_lane iv iv'"
  "same_lane iv (iv'\<lparr>iv_waiting := w\<rparr>) = same_lane iv iv'"
  "same_lane iv (iv'\<lparr>iv_returned := w\<rparr>) = same_lane iv iv'"
  "same_lane (iv\<lparr>iv_frames := fs\<rparr>) iv' = same_lane iv iv'"
  "same_lane (push_scope iv) iv' = same_lane iv iv'"
  "same_lane (push_frame f iv) iv' = same_lane iv iv'"
  "same_lane iv iv"
  by (simp_all add: same_lane_def push_frame_def push_scope_def pop_scope_def note_check_def enter_block_def
      split: list.split)

lemma exec_node_lane: "exec_node h snaps path i n iv m = Inr (iv', m') \<Longrightarrow> same_lane iv iv'"
  by (cases n) (auto simp: rbind_eq_Inr as_index_def Let_def same_lane_ops dest!: local_lane split: if_splits)

lemma step_frames_lane: "step_frames h snaps fs iv m = Inr (iv', m') \<Longrightarrow> same_lane iv iv'"
proof (induction h snaps fs iv m rule: step_frames.induct)
  case (2 h snaps path nodes index scoped fs iv m)
  then show ?case by (auto simp: same_lane_ops dest!: exec_node_lane split: if_splits)
next
  case (3 h snaps path var nxt to body fs iv m)
  then show ?case
    by (auto simp: step_loop_frame_def rbind_eq_Inr same_lane_ops dest!: local_lane split: if_splits)
qed (auto simp: same_lane_ops)

lemma step_keeps:
  assumes "step_invocation h snaps iv m = Inr (iv', m')"
  shows "same_lane iv iv'" "same_layout m m'" "well_scoped iv \<Longrightarrow> well_scoped iv'"
proof -
  show "same_lane iv iv'" "same_layout m m'"
    using assms by (auto simp: step_invocation_def same_lane_ops dest: step_frames_lane step_frames_layout split: if_splits)
  show "well_scoped iv'" if "well_scoped iv"
  proof (cases "idle iv")
    case False
    then have "scope_inv (iv\<lparr>iv_frames := iv_frames iv\<rparr>)" using that by (simp add: well_scoped_def idle_def iv_done_def)
    with False assms show ?thesis using step_frames_scoped by (fastforce simp: step_invocation_def)
  qed (use assms that in \<open>simp add: step_invocation_def\<close>)
qed

lemma step_each_keeps:
  assumes "step_each h snaps ivs m = Inr ((made, ivs'), m')"
  shows "list_all2 same_lane ivs ivs' \<and> same_layout m m' \<and>
    (list_all well_scoped ivs \<longrightarrow> list_all well_scoped ivs')"
  using assms
proof (induction ivs arbitrary: m made ivs' m')
  case (Cons iv ivs)
  then show ?case
    by (fastforce simp: rbind_eq_Inr same_lane_ops dest: step_keeps intro: same_layout_trans split: if_splits)
qed simp

lemma well_scoped_waiting [simp]: "well_scoped (iv\<lparr>iv_waiting := w\<rparr>) = well_scoped iv"
  by (simp add: well_scoped_def scope_inv_fields)

lemma release_keeps:
  assumes "list_all2 same_lane ivs0 ivs"
  shows "list_all2 same_lane ivs0 (snd (release_barrier_if_ready ivs))"
  using assms by (auto simp: release_barrier_if_ready_def Let_def list_all2_map2 same_lane_ops)

lemma release_scoped: "list_all well_scoped ivs \<Longrightarrow> list_all well_scoped (snd (release_barrier_if_ready ivs))"
  by (simp add: release_barrier_if_ready_def Let_def list_all_iff)

lemma same_lanes_trans: "list_all2 same_lane xs ys \<Longrightarrow> list_all2 same_lane ys zs \<Longrightarrow> list_all2 same_lane xs zs"
  by (rule list_all2_trans[where ?P1.0 = same_lane]) (auto simp: same_lane_def)

text \<open>What every round and every release keeps, a run keeps.\<close>

locale run_invariant =
  fixes keeps :: "invocation list \<Rightarrow> memory \<Rightarrow> bool"
  assumes round: "step_each h snaps ivs m = Inr ((made, ivs'), m') \<Longrightarrow> keeps ivs m \<Longrightarrow> keeps ivs' m'"
    and release: "keeps ivs m \<Longrightarrow> keeps (snd (release_barrier_if_ready ivs)) m"
begin

lemma run_keeps:
  assumes "run_loop h uses ivs m = Some (Inr (ivs', m'))" "keeps ivs m"
  shows "keeps ivs' m' \<and> list_all iv_done ivs'"
proof -
  define P where "P ivs m r = (r = Some (Inr (ivs', m')) \<longrightarrow> keeps ivs m \<longrightarrow> keeps ivs' m' \<and> list_all iv_done ivs')"
    for ivs m and r :: "(interp_error + invocation list \<times> memory) option"
  have "P ivs m (run_loop h uses ivs m)"
    by (rule run_loop_induct) (auto simp: P_def step_round_robin_def dest: round release)
  then have "run_loop h uses ivs m = Some (Inr (ivs', m')) \<longrightarrow> keeps ivs m \<longrightarrow> keeps ivs' m' \<and> list_all iv_done ivs'"
    by (simp add: P_def)
  with assms show ?thesis by simp
qed

end

interpretation scoping: run_invariant "\<lambda>ivs m. list_all well_scoped ivs"
  by unfold_locales (simp_all add: step_each_keeps release_scoped)

interpretation lanes: run_invariant "\<lambda>ivs m. list_all2 same_lane ivs0 ivs \<and> same_layout m0 m" for ivs0 m0
  by unfold_locales (use step_each_keeps in \<open>blast intro: same_lanes_trans same_layout_trans release_keeps\<close>)+

lemma new_invocation_scoped: "well_scoped (new_invocation ids index entry)"
  by (simp add: well_scoped_def scope_inv_def scopes_ok_def new_invocation_def)

lemma scoped_done:
  "well_scoped iv \<Longrightarrow> iv_done iv \<Longrightarrow> \<not> iv_returned iv \<Longrightarrow>
    \<exists>names. iv_scopes iv = [names] \<and> dom (iv_vars iv) = set names \<and> distinct names"
  by (cases "iv_scopes iv") (auto simp: well_scoped_def scope_inv_def scopes_ok_def iv_done_def)

subsection \<open>Properties of the scheduler\<close>

text \<open>
  C5.  Every workgroup terminates: whatever the invocations and the memory, the scheduler's loop ends, with
  the final memory or with an error.
\<close>

theorem scheduler_terminates: "\<exists>r. run_invocations h uses ivs m = Some r"
proof -
  have "\<exists>r. run_loop h uses ivs m = Some r"
    by (rule run_loop_induct[where P = "\<lambda>ivs m r. \<exists>r'. r = Some r'"]) auto
  then show ?thesis by (auto simp: run_invocations_def)
qed

text \<open>
  C13.  What a run leaves behind: every invocation is finished, is still the lane it was, and has closed
  every block scope it opened unless it returned early, its variables being those of the outermost scope;
  and every buffer has its length, type and name.
\<close>

theorem run_leaves_lanes_and_layout:
  assumes "run_loop h uses (map (\<lambda>(ids, index). new_invocation ids index entry) ls) m = Some (Inr (ivs, m'))"
  shows "list_all iv_done ivs \<and> map (\<lambda>iv. (iv_ids iv, iv_index iv)) ivs = ls \<and> same_layout m m' \<and>
    list_all (\<lambda>iv. iv_returned iv \<or> (case iv_scopes iv of [names] \<Rightarrow> dom (iv_vars iv) = set names \<and> distinct names | _ \<Rightarrow> False)) ivs"
proof -
  let ?ivs = "map (\<lambda>(ids, index). new_invocation ids index entry) ls"
  have "list_all well_scoped ?ivs" by (auto simp: list_all_iff new_invocation_scoped)
  with scoping.run_keeps[OF assms] have scoped: "list_all well_scoped ivs" and fin: "list_all iv_done ivs" by auto
  have "list_all2 same_lane ?ivs ivs \<and> same_layout m m'"
    using lanes.run_keeps[OF assms, of ?ivs m] by (simp add: same_lane_ops list_all2_same same_layout_def)
  then have "map (\<lambda>iv. (iv_ids iv, iv_index iv)) ivs = map (\<lambda>iv. (iv_ids iv, iv_index iv)) ?ivs" "same_layout m m'"
    by (auto simp: list_all2_conv_all_nth same_lane_def intro!: nth_equalityI)
  moreover have "map (\<lambda>iv. (iv_ids iv, iv_index iv)) ?ivs = ls" by (induction ls) (auto simp: new_invocation_def)
  ultimately show ?thesis using scoped fin scoped_done by (fastforce simp: list_all_iff)
qed

theorem run_leaves_lanes_and_layout_witness:
  "\<exists>ivs m'. run_loop \<lparr>h_fp = \<lparr>fh_libm = \<lambda>_ x. x, fh_zero_tie = \<lambda>x _. x\<rparr>, h_dialect = None\<rparr> False
      (map (\<lambda>(ids, index). new_invocation ids index [N_Let ''x'' (E_LitU32 1), N_Block [N_Let ''y'' (E_LitU32 2)]])
        [(\<lparr>ids_global = (0, 0, 0), ids_workgroup = (0, 0, 0), ids_local = (0, 0, 0)\<rparr>, 0 :: u32)])
      \<lparr>mem_storage = [], mem_workgroup = []\<rparr> = Some (Inr (ivs, m')) \<and>
    list_all iv_done ivs \<and> map iv_scopes ivs = [[[''x'']]] \<and> map iv_index ivs = [0] \<and>
    same_layout \<lparr>mem_storage = [], mem_workgroup = []\<rparr> m'"
proof -
  let ?ls = "[(\<lparr>ids_global = (0, 0, 0), ids_workgroup = (0, 0, 0), ids_local = (0, 0, 0)\<rparr>, 0 :: u32)]"
  let ?entry = "[N_Let ''x'' (E_LitU32 1), N_Block [N_Let ''y'' (E_LitU32 2)]]"
  let ?h = "\<lparr>h_fp = \<lparr>fh_libm = \<lambda>_ x. x, fh_zero_tie = \<lambda>x _. x\<rparr>, h_dialect = None\<rparr>"
  let ?m = "\<lparr>mem_storage = [], mem_workgroup = []\<rparr>"
  have "\<exists>ivs m'. run_loop ?h False (map (\<lambda>(ids, index). new_invocation ids index ?entry) ?ls) ?m = Some (Inr (ivs, m')) \<and>
      map iv_scopes ivs = [[[''x'']]]"
    by (simp add: run_loop.simps step_round_robin_def step_invocation_def idle_def iv_done_def new_invocation_def eval_expr.simps
        lift_value_def bind_local_def verify_uniform_control_flow_def release_barrier_if_ready_def
        live_waiting_count_def enter_block_def push_frame_def push_scope_def pop_scope_def)
  then obtain ivs m' where run: "run_loop ?h False (map (\<lambda>(ids, index). new_invocation ids index ?entry) ?ls) ?m = Some (Inr (ivs, m'))"
    and sc: "map iv_scopes ivs = [[[''x'']]]" by (elim exE conjE) (rule that)
  from run_leaves_lanes_and_layout[OF run]
  have "list_all iv_done ivs" "map snd (map (\<lambda>iv. (iv_ids iv, iv_index iv)) ivs) = map snd ?ls" "same_layout ?m m'" by metis+
  with run sc show ?thesis by (auto simp: comp_def)
qed

end
