(* ===== verification/Ref_Errors.thy ===== *)
theory Ref_Errors
  imports Ref_Exec
begin

text \<open>
  Which errors a step of the reference interpreter can raise.  Expressions, memory accesses and statements report
  errors of their own; the errors about the run as a whole (\<open>IE_Run\<close>) come from the scheduler alone.
  Hence a run that reports one has met the scheduler's own test, and the test for divergent barriers
  in \<open>run_invocations\<close> (\<open>vyre-reference/src/execution/hashmap/state.rs\<close>, with the release rule of \<open>sync.rs\<close>)
  is one no run can meet.
\<close>

named_theorems local_intros \<open>operations that raise no error about the run\<close>

definition raises_local :: "interp_error + 'a \<Rightarrow> bool" where
  "raises_local r = (case r of Inl (IE_Run _) \<Rightarrow> False | _ \<Rightarrow> True)"

lemma raises_local_Inr [simp]: "raises_local (Inr x)"
  by (simp add: raises_local_def)

lemma raises_local_Inl [simp]: "raises_local (Inl (IE_Run e)) = False"
  "raises_local (Inl (IE_Op oe))" "raises_local (Inl (IE_Node ne))" "raises_local (Inl (IE_UndeclaredVariable s))"
  "raises_local (Inl (IE_MissingBuffer s))" "raises_local (Inl (IE_AtomicTarget s))" "raises_local (Inl (IE_NotU32 s))"
  "raises_local (Inl IE_NotFloat)" "raises_local (Inl (IE_AxisOutOfRange a))" "raises_local (Inl IE_MixedLanes)"
  "raises_local (Inl IE_NoDialect)" "raises_local (Inl (IE_UnknownOp s))" "raises_local (Inl (IE_Arity i j))"
  "raises_local (Inl IE_CallInput)" "raises_local (Inl (IE_CpuRefPanic s))" "raises_local (Inl IE_OpaqueExpr)"
  "raises_local (Inl IE_UnknownExpr)" "raises_local (Inl IE_Panic)"
  by (simp_all add: raises_local_def)

lemma raises_local_bind [local_intros]:
  "raises_local r \<Longrightarrow> (\<And>x. raises_local (f x)) \<Longrightarrow> raises_local (rbind r f)"
  by (cases r) (auto simp: raises_local_def split: interp_error.splits)

lemma raises_local_ok_or [simp]: "raises_local (ok_or (x :: 'a option) e) = (x \<noteq> None \<or> raises_local (Inl e :: interp_error + 'a))"
  by (cases x) (simp_all add: raises_local_def split: interp_error.split)

lemma raises_local_rguard [simp]: "raises_local (rguard b e) = (b \<or> raises_local (Inl e :: interp_error + unit))"
  by (simp add: rguard_def)

lemma raises_local_lift [local_intros]: "raises_local r \<Longrightarrow> raises_local (lift_value r m)"
  unfolding lift_value_def by (rule raises_local_bind) simp_all

subsection \<open>Operators\<close>

lemma raises_local_int_bin:
  assumes "\<And>l r. raises_local (dv l r)" "\<And>l r. raises_local (rm l r)"
  shows "raises_local (int_bin_helpers val sft dv rm num op l r)"
  using assms by (cases op) (auto intro: raises_local_bind)

lemma raises_local_int_un: "raises_local (int_un_helpers val op v)"
  by (cases op) simp_all

lemma raises_local_binop [local_intros]: "raises_local (eval_binop h op l r)"
proof -
  have int: "raises_local (div_u32 x y)" "raises_local (rem_u32 x y)" "raises_local (div_i32 x y)" "raises_local (rem_i32 x y)"
    "raises_local (div_u64 x' y')" "raises_local (rem_u64 x' y')" for x y :: u32 and x' y' :: u64
    by (simp_all add: div_u32_def rem_u32_def div_i32_def rem_i32_def div_u64_def rem_u64_def)
  have bool: "raises_local (binop_bool op x y)" for x y by (cases op) simp_all
  have float: "raises_local (binop_f32_canonical h op x y)" for x y by (cases op) simp_all
  have other: "raises_local r \<Longrightarrow> raises_local (or_else s r)" for s r by (simp add: or_else_def split: option.split)
  show ?thesis
    by (auto simp: eval_binop_def binop_u32_def binop_i32_def binop_u64_def binop_f32_def bool float
        intro!: other raises_local_int_bin int split: ref_value.split)
qed

lemma raises_local_unop [local_intros]: "raises_local (eval_unop h op v)"
proof -
  have bool: "raises_local (unop_bool op x)" for x by (cases op) simp_all
  have float: "raises_local (unop_f32_canonical h op x)" for x by (cases op) simp_all
  show ?thesis
    by (simp add: eval_unop_def unop_u32_def unop_i32_def unop_u64_def unop_f32_def bool float raises_local_int_un
        split: ref_value.split)
qed

lemma raises_local_cast_or: "raises_local (cast_or t f x)"
  by (simp add: cast_or_def split: option.split)

lemma raises_local_cast [local_intros]: "raises_local (cast_value t v)"
  by (cases t) (simp_all add: raises_local_cast_or split: ref_value.split)

subsection \<open>Memory\<close>

lemma raises_local_memory [local_intros]:
  "raises_local (buffer_len b)" "raises_local (load b i)" "raises_local (store b i v)" "raises_local (resolve_buffer m name)"
  "raises_local (atomic_load b i)" "raises_local (atomic_store b i w)" "raises_local (atomic_buffer_mut m name)"
  by (simp_all add: buffer_len_def load_def store_def resolve_buffer_def atomic_load_def atomic_store_def
      atomic_buffer_mut_def Let_def split: option.split)

lemma raises_local_update [local_intros]:
  "(\<And>b. raises_local (f b)) \<Longrightarrow> raises_local (update_buffer m name f)"
  unfolding update_buffer_def by (intro local_intros) simp_all

lemma raises_local_atomic [local_intros]: "raises_local (atomic_rmw op buffer idx e v m)"
proof -
  have "raises_local (atomic_apply op old e v)" for old
    by (cases op) (simp_all add: atomic_compare_exchange_def split: option.split)
  then show ?thesis
    unfolding atomic_rmw_def by (auto intro!: local_intros split: option.split)
qed

subsection \<open>Expressions\<close>

lemma raises_local_parts [local_intros]:
  "raises_local (axis_value ids axis)" "raises_local (as_index label r)" "raises_local (as_float r)"
  "raises_local (subgroup_slice snaps i)" "raises_local (shuffle_result i vs ls)" "raises_local (add_result vs)"
  "raises_local (atomic_guard op has)" "raises_local (resolve_call h name)" "raises_local (validate_arity k n)"
  "raises_local (call_result def name input m)" "raises_local (call_budget input ty)"
  by (auto simp: axis_value_def as_index_def as_float_def subgroup_slice_def shuffle_result_def add_result_def
      atomic_guard_def resolve_call_def validate_arity_def call_result_def call_budget_def Let_def
      intro!: raises_local_bind split: prod.split option.split)

lemma raises_local_collect [local_intros]:
  "(\<And>l m. raises_local (f l m)) \<Longrightarrow> raises_local (collect_lanes f ls m)"
  by (induction ls arbitrary: m) (auto intro!: raises_local_bind)

lemma raises_local_inputs:
  "(\<And>e l m. e \<in> set es \<Longrightarrow> raises_local (eval_expr h snaps e l m)) \<Longrightarrow>
   raises_local (encode_inputs h snaps es ps input l m)"
proof (induction es arbitrary: ps input m)
  case (Cons e es)
  then show ?case by (cases ps) (auto simp: encode_inputs.simps intro!: local_intros)
qed (simp add: encode_inputs.simps)

lemma raises_local_eval [local_intros]: "raises_local (eval_expr h snaps e l m)"
proof (induction e arbitrary: l m)
  case (E_Call name args)
  then show ?case by (auto simp: eval_expr.simps intro!: local_intros raises_local_inputs)
next
  case (E_Atomic op buffer i e v mo)
  then show ?case by (cases e) (auto simp: eval_expr.simps intro!: local_intros)
qed (auto simp: eval_expr.simps intro!: local_intros)

subsection \<open>Statements and steps\<close>

lemma raises_local_locals [local_intros]:
  "raises_local (bind_local x v iv)" "raises_local (assign_local x v iv)" "raises_local (begin_async tag t iv)"
  "raises_local (finish_async tag iv)"
  by (simp_all add: bind_local_def assign_local_def begin_async_def finish_async_def split: option.split)

lemma raises_local_transfers [local_intros]:
  "raises_local (read_bytes m source start n)" "raises_local (apply_async_transfer t m)"
  "raises_local (eval_byte_count h snaps label e l m)"
  "raises_local (eval_async_load h snaps source destination offset len l m)"
  "raises_local (eval_async_store h snaps source destination offset len l m)"
proof -
  show read: "raises_local (read_bytes m source start n)" for m start n
    unfolding read_bytes_def by (auto simp: Let_def intro!: local_intros)
  show "raises_local (apply_async_transfer t m)"
    unfolding apply_async_transfer_def by (auto simp: Let_def intro!: local_intros split: transfer.split)
  show count: "raises_local (eval_byte_count h snaps label e l m)" for label e m
    unfolding eval_byte_count_def by (auto intro!: local_intros)
  show "raises_local (eval_async_load h snaps source destination offset len l m)"
    "raises_local (eval_async_store h snaps source destination offset len l m)"
    unfolding eval_async_load_def eval_async_store_def by (auto intro!: local_intros read count)
qed

lemma raises_local_exec [local_intros]: "raises_local (exec_node h snaps path i n iv m)"
  by (cases n) (auto simp: Let_def intro!: local_intros)

lemma raises_local_step [local_intros]: "raises_local (step_invocation h snaps iv m)"
proof -
  have "raises_local (step_loop_frame path var nxt to body iv)" for path var nxt to body iv
    unfolding step_loop_frame_def bind_loop_var_def by (auto intro!: local_intros)
  then have "raises_local (step_frames h snaps fs iv m)" for fs
    by (induction h snaps fs iv m rule: step_frames.induct) (auto intro!: local_intros)
  then show ?thesis by (simp add: step_invocation_def)
qed

lemma raises_local_round: "raises_local (step_round_robin h uses ivs m)"
proof -
  have "raises_local (step_each h snaps ivs m)" for snaps
    by (induction ivs arbitrary: m) (auto intro!: local_intros)
  then show ?thesis by (simp add: step_round_robin_def)
qed

lemma check_uniform_error: "check_uniform observed cs = Inl e \<Longrightarrow> e = IE_Run RE_NonUniformBranch"
  by (induction observed cs rule: check_uniform.induct) (auto split: option.splits if_splits)

lemma run_loop_errors:
  "run_loop h uses ivs m = Some (Inl (IE_Run e)) \<Longrightarrow> e = RE_NonUniformBranch"
proof -
  have "run_loop h uses ivs m = Some (Inl (IE_Run e)) \<longrightarrow> e = RE_NonUniformBranch"
  proof (rule run_loop_induct[where P = "\<lambda>ivs m r. r = Some (Inl (IE_Run e)) \<longrightarrow> e = RE_NonUniformBranch"])
    fix ivs m e' assume "step_round_robin h uses ivs m = Inl e'"
    with raises_local_round[of h uses ivs m]
    show "Some (Inl e' :: interp_error + invocation list \<times> memory) = Some (Inl (IE_Run e)) \<longrightarrow> e = RE_NonUniformBranch"
      by auto
  next
    fix ivs' :: "invocation list" and e' assume "verify_uniform_control_flow ivs' = Inl e'"
    then show "Some (Inl e' :: interp_error + invocation list \<times> memory) = Some (Inl (IE_Run e)) \<longrightarrow> e = RE_NonUniformBranch"
      by (auto simp: verify_uniform_control_flow_def dest: check_uniform_error)
  qed simp_all
  then show "run_loop h uses ivs m = Some (Inl (IE_Run e)) \<Longrightarrow> e = RE_NonUniformBranch" by blast
qed

subsection \<open>Barriers\<close>

lemma filter_lengths_eq:
  "length (filter (\<lambda>x. P x \<and> Q x) xs) = length (filter P xs) \<longleftrightarrow> list_all (\<lambda>x. P x \<longrightarrow> Q x) xs"
proof (induction xs)
  case (Cons x xs)
  have "length (filter (\<lambda>x. P x \<and> Q x) xs) \<le> length (filter P xs)"
    by (induction xs) auto
  with Cons.IH show ?case by auto
qed simp

text \<open>The rule for a release: some invocation is live and all live invocations have arrived.\<close>

definition all_arrived :: "invocation list \<Rightarrow> bool" where
  "all_arrived ivs = (\<not> list_all iv_done ivs \<and> list_all idle ivs)"

lemma release_spec:
  "release_barrier_if_ready ivs =
     (all_arrived ivs, if all_arrived ivs then map (\<lambda>iv. iv\<lparr>iv_waiting := False\<rparr>) ivs else ivs)"
proof -
  have "0 < length (filter (\<lambda>iv. \<not> iv_done iv) ivs) \<longleftrightarrow> \<not> list_all iv_done ivs"
    by (auto simp: list_all_iff filter_empty_conv)
  moreover have "length (filter (\<lambda>iv. \<not> iv_done iv) ivs) = live_waiting_count ivs \<longleftrightarrow> list_all idle ivs"
    using filter_lengths_eq[of "\<lambda>iv. \<not> iv_done iv" iv_waiting ivs]
    by (auto simp: live_waiting_count_def idle_def list_all_iff)
  ultimately show ?thesis by (simp add: release_barrier_if_ready_def all_arrived_def Let_def)
qed

text \<open>
  C12.  Barriers release exactly when every live invocation has arrived, and a workgroup never gets stuck
  at one.  First, the release rule: with some invocation live and every live one waiting, all of them are let go
  together; otherwise nobody is.  Second, after the release phase of a round nobody can step only when
  everybody is finished.  Third, no run of any workgroup reports the scheduler's divergent-barrier error:
  the only errors about the run are the one for a non-uniform branch and the one for a transfer left pending.
\<close>

theorem barriers_never_stuck:
  "release_barrier_if_ready ivs =
     (all_arrived ivs, if all_arrived ivs then map (\<lambda>iv. iv\<lparr>iv_waiting := False\<rparr>) ivs else ivs) \<and>
   list_all idle (snd (release_barrier_if_ready ivs)) = list_all iv_done (snd (release_barrier_if_ready ivs)) \<and>
   {e. run_invocations h uses ivs m = Some (Inl (IE_Run e))} \<subseteq> {RE_NonUniformBranch, RE_AsyncPending}"
proof (intro conjI)
  show "list_all idle (snd (release_barrier_if_ready ivs)) = list_all iv_done (snd (release_barrier_if_ready ivs))"
    by (auto simp: release_spec all_arrived_def list_all_iff idle_def)
  show "{e. run_invocations h uses ivs m = Some (Inl (IE_Run e))} \<subseteq> {RE_NonUniformBranch, RE_AsyncPending}"
  proof (cases "run_loop h uses ivs m")
    case (Some r)
    then show ?thesis
      by (cases r) (auto simp: run_invocations_def dest: run_loop_errors split: if_splits)
  qed (simp add: run_invocations_def)
qed (rule release_spec)

end
