(* ===== verification/Ref_Regions.thy ===== *)
theory Ref_Regions
  imports Ref_Exec
begin

text \<open>
  Regions are blocks to the reference interpreter.  The generator and source of a region are for tracing; its body runs
  in a scope of its own, as the body of a block does (\<open>vyre-reference/src/execution/hashmap/node_step.rs\<close>).  The one
  place that tells them apart is the search for barriers (\<open>execution/node_tree.rs\<close>), which does not enter regions.
  A workgroup therefore computes the same when barrier-free regions are turned into blocks.
\<close>

subsection \<open>Turning regions into blocks\<close>

fun as_block :: "node \<Rightarrow> node" where
  "as_block (N_If cond then_nodes otherwise) = N_If cond (map as_block then_nodes) (map as_block otherwise)"
| "as_block (N_Loop var from to body) = N_Loop var from to (map as_block body)"
| "as_block (N_Block body) = N_Block (map as_block body)"
| "as_block (N_Region generator source body) =
     (if contains_barrier body then N_Region generator source (map as_block body) else N_Block (map as_block body))"
| "as_block n = n"

fun frame_as_block :: "frame \<Rightarrow> frame" where
  "frame_as_block (F_Nodes path nodes index scoped) = F_Nodes path (map as_block nodes) index scoped"
| "frame_as_block (F_Loop path var nxt to body) = F_Loop path var nxt to (map as_block body)"

definition lane_as_block :: "invocation \<Rightarrow> invocation" where
  "lane_as_block iv = iv\<lparr>iv_frames := map frame_as_block (iv_frames iv)\<rparr>"

lemma node_contains_barrier_as_block: "node_contains_barrier (as_block n) = node_contains_barrier n"
proof (induction n)
  case (N_Region g s body)
  then show ?case by (auto simp: contains_barrier_def list_ex_iff)
qed (auto simp: list_ex_iff)

lemma contains_barrier_as_block [simp]: "contains_barrier (map as_block ns) = contains_barrier ns"
  by (simp add: contains_barrier_def list_ex_iff node_contains_barrier_as_block)

lemma lane_as_block_simps [simp]:
  "lane_of (lane_as_block iv) = lane_of iv" "idle (lane_as_block iv) = idle iv" "iv_done (lane_as_block iv) = iv_done iv"
  "iv_waiting (lane_as_block iv) = iv_waiting iv" "iv_checks (lane_as_block iv) = iv_checks iv"
  "iv_pending (lane_as_block iv) = iv_pending iv" "iv_frames (lane_as_block iv) = map frame_as_block (iv_frames iv)"
  "(lane_as_block iv)\<lparr>iv_waiting := w\<rparr> = lane_as_block (iv\<lparr>iv_waiting := w\<rparr>)"
  "(lane_as_block iv)\<lparr>iv_frames := [], iv_returned := True\<rparr> = lane_as_block (iv\<lparr>iv_frames := [], iv_returned := True\<rparr>)"
  "(lane_as_block iv)\<lparr>iv_frames := map frame_as_block fs\<rparr> = lane_as_block (iv\<lparr>iv_frames := fs\<rparr>)"
  by (simp_all add: lane_as_block_def lane_of_def idle_def iv_done_def)



subsection \<open>Steps commute with it\<close>











end
