(* ===== verification/Ref_Sem.thy ===== *)
theory Ref_Sem
  imports Ref_Exec
begin

text \<open>
  A structured semantics of statements, and the proof that the frame machine and the scheduler of
  the reference interpreter implement it for a workgroup of one invocation.  The specification has no
  frames, no waiting flag and no rounds: a block runs its statements in order inside a scope, a
  loop counts from its lower to its upper bound, a barrier does nothing and a return ends the run.
\<close>

subsection \<open>The specification\<close>

type_synonym outcome = "interp_error + bool \<times> invocation \<times> memory"

definition snapshots :: "bool \<Rightarrow> invocation \<Rightarrow> lane list" where
  "snapshots uses iv = (if uses then [lane_of iv] else [])"

definition uniform_so_far :: "invocation \<Rightarrow> interp_error + unit" where
  "uniform_so_far iv = check_uniform [] (iv_checks iv)"

definition after :: "outcome \<Rightarrow> (invocation \<Rightarrow> memory \<Rightarrow> outcome) \<Rightarrow> outcome" where
  "after r k = rbind r (\<lambda>(ret, iv, m). if ret then Inr (True, iv, m) else k iv m)"

lemma after_cong [fundef_cong]:
  assumes "r = r'" "\<And>iv m. r' = Inr (False, iv, m) \<Longrightarrow> k iv m = k' iv m"
  shows "after r k = after r' k'"
  using assms by (cases r') (auto simp: after_def)

definition sem_measure where
  "sem_measure = measure (\<lambda>x. case x of
     Inl (h :: host, uses :: bool, path :: slice_path, i :: nat, n, iv :: invocation, m :: memory) \<Rightarrow> 2 * node_cost n
   | Inr (Inl (h :: host, uses :: bool, path :: slice_path, i :: nat, ns, iv :: invocation, m :: memory)) \<Rightarrow> 2 * nodes_cost ns + 1
   | Inr (Inr (h :: host, uses :: bool, path :: slice_path, var :: string, a :: u32, b :: u32, body, iv :: invocation, m :: memory)) \<Rightarrow>
       2 * loop_cost body (unat b - unat a) + 1)"

lemma loop_room: "loop_cost body (unat (b :: u32) - unat (a :: u32)) \<le> loop_cost body (2 ^ 32)"
  using u32_range[of b a] by (intro loop_cost_mono) simp

lemma loop_room_step:
  assumes "\<not> b \<le> (a :: u32)"
  shows "loop_cost body (unat b - unat a) = 2 + nodes_cost body + loop_cost body (unat b - unat (a + 1))"
proof -
  have lt: "unat a < unat b" using assms by (simp add: word_less_nat_alt not_le)
  have "unat (a + 1) = Suc (unat a)"
    using lt unsigned_less[of b, where 'a = nat] by (simp add: unat_word_ariths)
  then have "unat b - unat a = Suc (unat b - unat (a + 1))" using lt by simp
  then show ?thesis by (simp add: loop_cost_Suc)
qed

lemma loop_room_measure: "2 * loop_cost body (unat (b :: u32) - unat (a :: u32)) < Suc (Suc (Suc (2 * loop_cost body 4294967296)))"
  using loop_room[of body b a] by simp

function sem_node :: "host \<Rightarrow> bool \<Rightarrow> slice_path \<Rightarrow> nat \<Rightarrow> node \<Rightarrow> invocation \<Rightarrow> memory \<Rightarrow> outcome"
  and sem_nodes :: "host \<Rightarrow> bool \<Rightarrow> slice_path \<Rightarrow> nat \<Rightarrow> node list \<Rightarrow> invocation \<Rightarrow> memory \<Rightarrow> outcome"
  and sem_loop :: "host \<Rightarrow> bool \<Rightarrow> slice_path \<Rightarrow> string \<Rightarrow> u32 \<Rightarrow> u32 \<Rightarrow> node list \<Rightarrow> invocation \<Rightarrow> memory \<Rightarrow> outcome"
where
  "sem_node h uses path i n iv m =
     (case n of
        N_If cond then_nodes otherwise \<Rightarrow>
          rbind (eval_expr h (snapshots uses iv) cond (lane_of iv) m) (\<lambda>(v, m).
            let c = truthy v;
                iv = (if contains_barrier then_nodes \<or> contains_barrier otherwise
                      then note_check (path, i) c iv else iv) in
            rbind (uniform_so_far iv) (\<lambda>_.
            after (sem_nodes h uses ((if c then 0 else 1, i) # path) 0 (if c then then_nodes else otherwise)
                (push_scope iv) m)
              (\<lambda>iv m. Inr (False, pop_scope iv, m))))
      | N_Loop var start to body \<Rightarrow>
          rbind (eval_expr h (snapshots uses iv) start (lane_of iv) m) (\<lambda>r.
          rbind (as_index ''loop lower bound'' r) (\<lambda>(a, m).
          rbind (eval_expr h (snapshots uses iv) to (lane_of iv) m) (\<lambda>r.
          rbind (as_index ''loop upper bound'' r) (\<lambda>(b, m).
            sem_loop h uses ((0, i) # path) var a b body iv m))))
      | N_Block body \<Rightarrow>
          after (sem_nodes h uses ((0, i) # path) 0 body (push_scope iv) m) (\<lambda>iv m. Inr (False, pop_scope iv, m))
      | N_Region _ _ body \<Rightarrow>
          after (sem_nodes h uses ((0, i) # path) 0 body (push_scope iv) m) (\<lambda>iv m. Inr (False, pop_scope iv, m))
      | N_Return \<Rightarrow> Inr (True, iv, m)
      | N_Barrier _ \<Rightarrow> Inr (False, iv, m)
      | _ \<Rightarrow> rbind (exec_node h (snapshots uses iv) path i n iv m) (\<lambda>(iv, m). Inr (False, iv, m)))"
| "sem_nodes h uses path i [] iv m = Inr (False, iv, m)"
| "sem_nodes h uses path i (n # ns) iv m =
     after (sem_node h uses path i n iv m) (\<lambda>iv m. sem_nodes h uses path (i + 1) ns iv m)"
| "sem_loop h uses path var a b body iv m =
     (if b \<le> a then Inr (False, iv, m)
      else rbind (bind_loop_var var (V_U32 a) (push_scope iv)) (\<lambda>iv.
        after (sem_nodes h uses path 0 body iv m)
          (\<lambda>iv m. sem_loop h uses path var (a + 1) b body (pop_scope iv) m)))"
  by pat_completeness auto

termination
proof (relation sem_measure)
  show "wf sem_measure" by (simp add: sem_measure_def)
qed (auto simp: sem_measure_def node_cost_loop nodes_cost_def node_cost_pos loop_room_step
      loop_room_measure simp del: node_cost.simps(2))

declare sem_node.simps [simp del] sem_loop.simps [simp del]

subsection \<open>One invocation under the scheduler\<close>

definition at_frames :: "frame list \<Rightarrow> invocation \<Rightarrow> invocation" where
  "at_frames fs iv = iv\<lparr>iv_frames := fs, iv_waiting := False, iv_returned := False\<rparr>"

lemma at_frames_simps [simp]:
  "lane_of (at_frames fs iv) = lane_of iv"
  "snapshots uses (at_frames fs iv) = snapshots uses iv"
  "iv_frames (at_frames fs iv) = fs"
  "iv_waiting (at_frames fs iv) = False"
  "iv_returned (at_frames fs iv) = False"
  "iv_done (at_frames fs iv) = (fs = [])"
  "idle (at_frames fs iv) = (fs = [])"
  "iv_checks (at_frames fs iv) = iv_checks iv"
  "iv_pending (at_frames fs iv) = iv_pending iv"
  "uniform_so_far (at_frames fs iv) = uniform_so_far iv"
  "(at_frames fs iv)\<lparr>iv_frames := gs\<rparr> = at_frames gs iv"
  "(at_frames fs iv)\<lparr>iv_waiting := False\<rparr> = at_frames fs iv"
  "at_frames gs (iv\<lparr>iv_waiting := True\<rparr>) = at_frames gs iv"
  "push_frame f (at_frames fs iv) = at_frames (f # fs) iv"
  "push_scope (at_frames fs iv) = at_frames fs (push_scope iv)"
  "pop_scope (at_frames fs iv) = at_frames fs (pop_scope iv)"
  "note_check addr c (at_frames fs iv) = at_frames fs (note_check addr c iv)"
  "enter_block path nodes (at_frames fs iv) = at_frames (F_Nodes path nodes 0 True # fs) (push_scope iv)"
  by (simp_all add: at_frames_def lane_of_def snapshots_def iv_done_def idle_def uniform_so_far_def push_frame_def
      push_scope_def pop_scope_def note_check_def enter_block_def split: list.split)

lemma at_frames_locals:
  "bind_local name v (at_frames fs iv) = rbind (bind_local name v iv) (\<lambda>iv. Inr (at_frames fs iv))"
  "assign_local name v (at_frames fs iv) = rbind (assign_local name v iv) (\<lambda>iv. Inr (at_frames fs iv))"
  "bind_loop_var name v (at_frames fs iv) = rbind (bind_loop_var name v iv) (\<lambda>iv. Inr (at_frames fs iv))"
  "begin_async tag t (at_frames fs iv) = rbind (begin_async tag t iv) (\<lambda>iv. Inr (at_frames fs iv))"
  "finish_async tag (at_frames fs iv) = rbind (finish_async tag iv) (\<lambda>(t, iv). Inr (t, at_frames fs iv))"
  by (simp_all add: at_frames_def bind_local_def assign_local_def bind_loop_var_def begin_async_def finish_async_def
      split: option.split)

lemma checks_simps [simp]:
  "uniform_so_far (push_scope iv) = uniform_so_far iv"
  "uniform_so_far (pop_scope iv) = uniform_so_far iv"
  by (simp_all add: uniform_so_far_def push_scope_def pop_scope_def split: list.split)

lemma locals_checks:
  "bind_local name v iv = Inr iv' \<Longrightarrow> uniform_so_far iv' = uniform_so_far iv"
  "assign_local name v iv = Inr iv' \<Longrightarrow> uniform_so_far iv' = uniform_so_far iv"
  "bind_loop_var name v iv = Inr iv' \<Longrightarrow> uniform_so_far iv' = uniform_so_far iv"
  "begin_async tag t iv = Inr iv' \<Longrightarrow> uniform_so_far iv' = uniform_so_far iv"
  "finish_async tag iv = Inr (t, iv') \<Longrightarrow> uniform_so_far iv' = uniform_so_far iv"
  by (auto simp: uniform_so_far_def bind_local_def assign_local_def bind_loop_var_def begin_async_def finish_async_def
      split: if_splits option.splits)

fun simple_node :: "node \<Rightarrow> bool" where
  "simple_node (N_If _ _ _) = False"
| "simple_node (N_Loop _ _ _ _) = False"
| "simple_node (N_Block _) = False"
| "simple_node (N_Region _ _ _) = False"
| "simple_node N_Return = False"
| "simple_node (N_Barrier _) = False"
| "simple_node _ = True"

lemma exec_simple:
  "simple_node n \<Longrightarrow> exec_node h snaps path i n (at_frames fs iv) m =
     rbind (exec_node h snaps path i n iv m) (\<lambda>(iv, m). Inr (at_frames fs iv, m))"
  by (cases n) (auto simp: at_frames_locals rbind_assoc split_def intro!: rbind_cong)

lemma exec_simple_checks:
  "simple_node n \<Longrightarrow> exec_node h snaps path i n iv m = Inr (iv', m') \<Longrightarrow> uniform_so_far iv' = uniform_so_far iv"
  by (cases n) (auto simp: rbind_eq_Inr dest: locals_checks split: if_splits)

lemma sem_simple:
  "simple_node n \<Longrightarrow> sem_node h uses path i n iv m =
     rbind (exec_node h (snapshots uses iv) path i n iv m) (\<lambda>(iv, m). Inr (False, iv, m))"
  by (cases n) (simp_all add: sem_node.simps)

lemma after_eq_Inr: "after r k = Inr (ret, iv', m') \<longleftrightarrow>
    (ret \<and> r = Inr (True, iv', m')) \<or> (\<exists>iv m. r = Inr (False, iv, m) \<and> k iv m = Inr (ret, iv', m'))"
  by (cases r) (auto simp: after_def split: if_splits)

lemma after_keeps:
  assumes "after r k = Inr (ret, iv', m')" "\<And>ret iv m. r = Inr (ret, iv, m) \<Longrightarrow> P iv"
    and "\<And>iv m. r = Inr (False, iv, m) \<Longrightarrow> P iv \<Longrightarrow> k iv m = Inr (ret, iv', m') \<Longrightarrow> P iv'"
  shows "P iv'"
  using assms unfolding after_eq_Inr by blast

lemma sem_checks:
  "sem_node h uses path i n iv m = Inr (ret, iv', m') \<Longrightarrow> uniform_so_far iv = Inr () \<Longrightarrow> uniform_so_far iv' = Inr ()"
  "sem_nodes h uses path i ns iv m = Inr (ret, iv', m') \<Longrightarrow> uniform_so_far iv = Inr () \<Longrightarrow> uniform_so_far iv' = Inr ()"
  "sem_loop h uses path var a b body iv m = Inr (ret, iv', m') \<Longrightarrow> uniform_so_far iv = Inr () \<Longrightarrow> uniform_so_far iv' = Inr ()"
proof (induction h uses path i n iv m and h uses path i ns iv m and h uses path var a b body iv m
    arbitrary: ret iv' m' and ret iv' m' and ret iv' m' rule: sem_node_sem_nodes_sem_loop.induct)
  case (1 h uses path i n iv m)
  show ?case
  proof (cases "simple_node n")
    case True
    with 1(5,6) show ?thesis by (auto simp: sem_simple rbind_eq_Inr dest: exec_simple_checks)
  next
    case False
    show ?thesis
    proof (cases n)
      case (N_If c t e)
      from 1(5) show ?thesis
        by (auto simp: sem_node.simps N_If Let_def rbind_eq_Inr after_eq_Inr dest!: 1(1)[OF N_If _ refl refl refl])
    next
      case (N_Loop var e1 e2 body)
      from 1(5,6) show ?thesis
        by (auto simp: sem_node.simps N_Loop rbind_eq_Inr dest!: 1(2)[OF N_Loop _ _ refl _ _ refl])
    next
      case (N_Block body)
      from 1(5,6) show ?thesis
        by (auto simp: sem_node.simps N_Block after_eq_Inr dest!: 1(3)[OF N_Block])
    next
      case (N_Region g s body)
      from 1(5,6) show ?thesis
        by (auto simp: sem_node.simps N_Region after_eq_Inr dest!: 1(4)[OF N_Region])
    qed (use 1(5,6) False in \<open>simp_all add: sem_node.simps\<close>)
  qed
next
  case (3 h uses path i n ns iv m)
  from 3(3) show ?case unfolding sem_nodes.simps
    by (rule after_keeps) (use 3(1)[OF _ 3(4)] 3(2) in simp_all)
next
  case (4 h uses path var a b body iv m)
  show ?case
  proof (cases "b \<le> a")
    case False
    with 4(3) obtain x where x: "bind_loop_var var (V_U32 a) (push_scope iv) = Inr x"
      and r: "after (sem_nodes h uses path 0 body x m)
        (\<lambda>iv m. sem_loop h uses path var (a + 1) b body (pop_scope iv) m) = Inr (ret, iv', m')"
      by (subst (asm) sem_loop.simps) (auto simp: rbind_eq_Inr)
    have u: "uniform_so_far x = Inr ()" using locals_checks(3)[OF x] 4(4) by simp
    from r show ?thesis by (rule after_keeps) (use 4(1)[OF False x _ u] 4(2)[OF False x] in simp_all)
  qed (use 4(3,4) in \<open>simp add: sem_loop.simps\<close>)
qed simp

lemma verify_single: "verify_uniform_control_flow [iv] = (if iv_done iv then Inr () else uniform_so_far iv)"
  by (simp add: verify_uniform_control_flow_def uniform_so_far_def)

lemma release_single: "snd (release_barrier_if_ready [iv]) = [if iv_done iv then iv else iv\<lparr>iv_waiting := False\<rparr>]"
  by (simp add: release_barrier_if_ready_def live_waiting_count_def)

lemma round_single:
  "fs \<noteq> [] \<Longrightarrow> step_round_robin h uses [at_frames fs iv] m =
     rbind (step_frames h (snapshots uses iv) fs (at_frames fs iv) m) (\<lambda>(iv', m'). Inr ((True, [iv']), m'))"
  by (cases uses) (simp_all add: step_round_robin_def step_invocation_def snapshots_def)

lemma run_single_ok:
  assumes "fs \<noteq> []" "step_frames h (snapshots uses iv) fs (at_frames fs iv) m = Inr (iv', m')"
    "iv_done iv' \<or> uniform_so_far iv' = Inr ()"
  shows "run_loop h uses [at_frames fs iv] m = run_loop h uses [if iv_done iv' then iv' else iv'\<lparr>iv_waiting := False\<rparr>] m'"
proof -
  have "step_round_robin h uses [at_frames fs iv] m = Inr ((True, [iv']), m')"
    using assms(1,2) by (simp add: round_single)
  from run_loop_unfold[OF this] show ?thesis
    using assms(1,3) by (auto simp: verify_single release_single)
qed

lemma run_single_step_error:
  assumes "fs \<noteq> []" "step_frames h (snapshots uses iv) fs (at_frames fs iv) m = Inl e"
  shows "run_loop h uses [at_frames fs iv] m = Some (Inl e)"
  using assms by (subst run_loop.simps) (simp add: round_single)

lemma run_single_check_error:
  assumes "fs \<noteq> []" "step_frames h (snapshots uses iv) fs (at_frames fs iv) m = Inr (iv', m')"
    "\<not> iv_done iv'" "uniform_so_far iv' = Inl e"
  shows "run_loop h uses [at_frames fs iv] m = Some (Inl e)"
  using assms by (subst run_loop.simps) (simp add: round_single verify_single)

text \<open>What a run does once the statement or block under execution has the given outcome.\<close>

definition resume :: "host \<Rightarrow> bool \<Rightarrow> frame list \<Rightarrow> outcome \<Rightarrow> (interp_error + invocation list \<times> memory) option" where
  "resume h uses fs r =
     (case r of
        Inl e \<Rightarrow> Some (Inl e)
      | Inr (ret, iv, m) \<Rightarrow>
          if ret then Some (Inr ([(at_frames [] iv)\<lparr>iv_returned := True\<rparr>], m)) else run_loop h uses [at_frames fs iv] m)"

lemma resume_simps [simp]:
  "resume h uses fs (Inl e) = Some (Inl e)"
  "resume h uses fs (Inr (False, iv, m)) = run_loop h uses [at_frames fs iv] m"
  "resume h uses fs (Inr (True, iv, m)) = Some (Inr ([(at_frames [] iv)\<lparr>iv_returned := True\<rparr>], m))"
  by (simp_all add: resume_def)

lemma resume_after:
  assumes "\<And>iv m. r = Inr (False, iv, m) \<Longrightarrow> run_loop h uses [at_frames fs iv] m = resume h uses gs (k iv m)"
  shows "resume h uses fs r = resume h uses gs (after r k)"
  using assms by (cases r) (auto simp: after_def resume_def)

lemma run_pop:
  assumes "uniform_so_far iv = Inr ()"
  shows "run_loop h uses [at_frames (F_Nodes path body (length body) True # fs) iv] m =
    run_loop h uses [at_frames fs (pop_scope iv)] m"
  using run_single_ok[of "F_Nodes path body (length body) True # fs"] assms by simp

lemma run_exec:
  assumes "i < length nodes" "nodes ! i = n"
    "exec_node h (snapshots uses iv) path i n (at_frames (F_Nodes path nodes (i + 1) s # fs) iv) m = Inr (iv', m')"
    "iv_done iv' \<or> uniform_so_far iv' = Inr ()"
  shows "run_loop h uses [at_frames (F_Nodes path nodes i s # fs) iv] m =
    run_loop h uses [if iv_done iv' then iv' else iv'\<lparr>iv_waiting := False\<rparr>] m'"
  using run_single_ok[of "F_Nodes path nodes i s # fs"] assms by simp

lemma run_exec_error:
  assumes "i < length nodes" "nodes ! i = n"
    "exec_node h (snapshots uses iv) path i n (at_frames (F_Nodes path nodes (i + 1) s # fs) iv) m = Inl e"
  shows "run_loop h uses [at_frames (F_Nodes path nodes i s # fs) iv] m = Some (Inl e)"
  using run_single_step_error[of "F_Nodes path nodes i s # fs"] assms by simp

lemma run_exec_check_error:
  assumes "i < length nodes" "nodes ! i = n"
    "exec_node h (snapshots uses iv) path i n (at_frames (F_Nodes path nodes (i + 1) s # fs) iv) m = Inr (iv', m')"
    "\<not> iv_done iv'" "uniform_so_far iv' = Inl e"
  shows "run_loop h uses [at_frames (F_Nodes path nodes i s # fs) iv] m = Some (Inl e)"
  using run_single_check_error[of "F_Nodes path nodes i s # fs"] assms by simp

lemma run_simple:
  assumes "simple_node (nodes ! i)" "i < length nodes" "uniform_so_far iv = Inr ()"
  shows "run_loop h uses [at_frames (F_Nodes path nodes i s # fs) iv] m =
    resume h uses (F_Nodes path nodes (i + 1) s # fs) (sem_node h uses path i (nodes ! i) iv m)"
proof (cases "exec_node h (snapshots uses iv) path i (nodes ! i) iv m")
  case (Inl e)
  then show ?thesis
    using run_exec_error[OF assms(2) refl] by (simp add: exec_simple[OF assms(1)] sem_simple[OF assms(1)])
next
  case (Inr r)
  then obtain iv' m' where r: "exec_node h (snapshots uses iv) path i (nodes ! i) iv m = Inr (iv', m')"
    by (cases r) simp
  have step: "exec_node h (snapshots uses iv) path i (nodes ! i) (at_frames gs iv) m = Inr (at_frames gs iv', m')" for gs
    by (simp add: exec_simple[OF assms(1)] r)
  from exec_simple_checks[OF assms(1) r] assms(3) show ?thesis
    using run_exec[OF assms(2) refl step] by (simp add: sem_simple[OF assms(1)] r)
qed

subsection \<open>The scheduler implements the specification\<close>

lemma run_block:
  assumes "\<And>gs. run_loop h uses [at_frames (F_Nodes p nodes 0 True # gs) (push_scope iv)] m =
      resume h uses (F_Nodes p nodes (length nodes) True # gs) (sem_nodes h uses p 0 nodes (push_scope iv) m)"
    and "uniform_so_far iv = Inr ()"
  shows "run_loop h uses [at_frames (F_Nodes p nodes 0 True # fs) (push_scope iv)] m =
    resume h uses fs (after (sem_nodes h uses p 0 nodes (push_scope iv) m) (\<lambda>iv m. Inr (False, pop_scope iv, m)))"
  unfolding assms(1)
  by (rule resume_after) (use assms(2) in \<open>auto intro!: run_pop dest: sem_checks(2)\<close>)

lemma run_return:
  assumes "i < length nodes" "nodes ! i = N_Return"
  shows "run_loop h uses [at_frames (F_Nodes path nodes i s # fs) iv] m =
    Some (Inr ([(at_frames [] iv)\<lparr>iv_returned := True\<rparr>], m))"
proof -
  have "run_loop h uses [at_frames (F_Nodes path nodes i s # fs) iv] m =
      run_loop h uses [(at_frames [] iv)\<lparr>iv_returned := True\<rparr>] m"
    using run_exec[OF assms] by (simp add: iv_done_def)
  also have "\<dots> = Some (Inr ([(at_frames [] iv)\<lparr>iv_returned := True\<rparr>], m))"
    by (subst run_loop.simps) (simp add: iv_done_def)
  finally show ?thesis .
qed

lemma run_barrier:
  assumes "i < length nodes" "nodes ! i = N_Barrier b" "uniform_so_far iv = Inr ()"
  shows "run_loop h uses [at_frames (F_Nodes path nodes i s # fs) iv] m =
    run_loop h uses [at_frames (F_Nodes path nodes (i + 1) s # fs) iv] m"
proof -
  have "\<not> iv_done ((at_frames (F_Nodes path nodes (i + 1) s # fs) iv)\<lparr>iv_waiting := True\<rparr>)"
    "uniform_so_far ((at_frames (F_Nodes path nodes (i + 1) s # fs) iv)\<lparr>iv_waiting := True\<rparr>) = Inr ()"
    "(at_frames gs iv)\<lparr>iv_waiting := True, iv_waiting := False\<rparr> = at_frames gs iv" for gs
    using assms(3) by (simp_all add: uniform_so_far_def at_frames_def iv_done_def)
  then show ?thesis using run_exec[OF assms(1,2)] by simp
qed

lemma run_if:
  assumes at: "i < length nodes" "nodes ! i = N_If c t e" and u: "uniform_so_far iv = Inr ()"
    and branch: "\<And>v m1 iv1 gs. eval_expr h (snapshots uses iv) c (lane_of iv) m = Inr (v, m1) \<Longrightarrow>
      iv1 = (if contains_barrier t \<or> contains_barrier e then note_check (path, i) (truthy v) iv else iv) \<Longrightarrow>
      uniform_so_far iv1 = Inr () \<Longrightarrow>
      run_loop h uses [at_frames (F_Nodes ((if truthy v then 0 else 1, i) # path) (if truthy v then t else e) 0 True # gs)
        (push_scope iv1)] m1 =
      resume h uses (F_Nodes ((if truthy v then 0 else 1, i) # path) (if truthy v then t else e)
          (length (if truthy v then t else e)) True # gs)
        (sem_nodes h uses ((if truthy v then 0 else 1, i) # path) 0 (if truthy v then t else e) (push_scope iv1) m1)"
  shows "run_loop h uses [at_frames (F_Nodes path nodes i s # fs) iv] m =
    resume h uses (F_Nodes path nodes (i + 1) s # fs) (sem_node h uses path i (N_If c t e) iv m)"
proof (cases "eval_expr h (snapshots uses iv) c (lane_of iv) m")
  case (Inl err)
  then show ?thesis by (subst run_exec_error[OF at]) (simp_all add: sem_node.simps)
next
  case (Inr r)
  then obtain v m1 where ev: "eval_expr h (snapshots uses iv) c (lane_of iv) m = Inr (v, m1)" by (cases r) simp
  define iv1 where "iv1 = (if contains_barrier t \<or> contains_barrier e then note_check (path, i) (truthy v) iv else iv)"
  have step: "exec_node h (snapshots uses iv) path i (N_If c t e) (at_frames gs iv) m =
    Inr (at_frames (F_Nodes ((if truthy v then 0 else 1, i) # path) (if truthy v then t else e) 0 True # gs)
      (push_scope iv1), m1)" for gs
    by (simp add: ev iv1_def)
  show ?thesis
  proof (cases "uniform_so_far iv1")
    case (Inl err)
    with ev show ?thesis
      by (subst run_exec_check_error[OF at step]) (simp_all add: sem_node.simps iv1_def)
  next
    case (Inr x)
    then have u1: "uniform_so_far iv1 = Inr ()" by simp
    have "run_loop h uses [at_frames (F_Nodes path nodes i s # fs) iv] m =
      resume h uses (F_Nodes path nodes (i + 1) s # fs)
        (after (sem_nodes h uses ((if truthy v then 0 else 1, i) # path) 0 (if truthy v then t else e)
          (push_scope iv1) m1) (\<lambda>iv m. Inr (False, pop_scope iv, m)))"
      using run_exec[OF at step] u1 run_block[OF branch[OF ev iv1_def u1] u1] by simp
    with ev u1 show ?thesis by (simp add: sem_node.simps iv1_def Let_def)
  qed
qed

lemma run_loop_node:
  assumes at: "i < length nodes" "nodes ! i = N_Loop var e1 e2 body" and u: "uniform_so_far iv = Inr ()"
    and loop: "\<And>r1 a m1 r2 b m2 gs. eval_expr h (snapshots uses iv) e1 (lane_of iv) m = Inr r1 \<Longrightarrow>
      as_index ''loop lower bound'' r1 = Inr (a, m1) \<Longrightarrow>
      eval_expr h (snapshots uses iv) e2 (lane_of iv) m1 = Inr r2 \<Longrightarrow>
      as_index ''loop upper bound'' r2 = Inr (b, m2) \<Longrightarrow>
      run_loop h uses [at_frames (F_Loop ((0, i) # path) var a b body # gs) iv] m2 =
      resume h uses gs (sem_loop h uses ((0, i) # path) var a b body iv m2)"
  shows "run_loop h uses [at_frames (F_Nodes path nodes i s # fs) iv] m =
    resume h uses (F_Nodes path nodes (i + 1) s # fs) (sem_node h uses path i (N_Loop var e1 e2 body) iv m)"
proof -
  let ?bounds = "rbind (eval_expr h (snapshots uses iv) e1 (lane_of iv) m) (\<lambda>r.
    rbind (as_index ''loop lower bound'' r) (\<lambda>(a, m).
    rbind (eval_expr h (snapshots uses iv) e2 (lane_of iv) m) (\<lambda>r.
    rbind (as_index ''loop upper bound'' r) (\<lambda>(b, m). Inr (a, b, m)))))"
  have sem: "sem_node h uses path i (N_Loop var e1 e2 body) iv m =
      rbind ?bounds (\<lambda>(a, b, m). sem_loop h uses ((0, i) # path) var a b body iv m)"
    by (simp add: sem_node.simps rbind_assoc split_def)
  have exec: "exec_node h (snapshots uses iv) path i (N_Loop var e1 e2 body) (at_frames gs iv) m =
      rbind ?bounds (\<lambda>(a, b, m). Inr (at_frames (F_Loop ((0, i) # path) var a b body # gs) iv, m))" for gs
    by (simp add: rbind_assoc split_def)
  show ?thesis
  proof (cases ?bounds)
    case (Inl err)
    then show ?thesis unfolding sem by (subst run_exec_error[OF at]) (simp_all add: exec del: exec_node.simps)
  next
    case (Inr abm)
    then obtain a b m2 where bounds: "?bounds = Inr (a, b, m2)" by (cases abm) simp
    then have "run_loop h uses [at_frames (F_Loop ((0, i) # path) var a b body # gs) iv] m2 =
      resume h uses gs (sem_loop h uses ((0, i) # path) var a b body iv m2)" for gs
      by (auto simp: rbind_eq_Inr loop)
    moreover have step: "exec_node h (snapshots uses iv) path i (N_Loop var e1 e2 body) (at_frames gs iv) m =
        Inr (at_frames (F_Loop ((0, i) # path) var a b body # gs) iv, m2)" for gs
      unfolding exec bounds by simp
    ultimately show ?thesis using run_exec[OF at step] u unfolding sem bounds by simp
  qed
qed

lemma run_refines:
  "i < length nodes \<Longrightarrow> nodes ! i = n \<Longrightarrow> uniform_so_far iv = Inr () \<Longrightarrow>
    run_loop h uses [at_frames (F_Nodes path nodes i s # fs) iv] m =
    resume h uses (F_Nodes path nodes (i + 1) s # fs) (sem_node h uses path i n iv m)"
  "i \<le> length nodes \<Longrightarrow> drop i nodes = ns \<Longrightarrow> uniform_so_far iv = Inr () \<Longrightarrow>
    run_loop h uses [at_frames (F_Nodes path nodes i s # fs) iv] m =
    resume h uses (F_Nodes path nodes (length nodes) s # fs) (sem_nodes h uses path i ns iv m)"
  "uniform_so_far iv = Inr () \<Longrightarrow>
    run_loop h uses [at_frames (F_Loop path var a b body # fs) iv] m =
    resume h uses fs (sem_loop h uses path var a b body iv m)"
proof (induction h uses path i n iv m and h uses path i ns iv m and h uses path var a b body iv m
    arbitrary: nodes s fs and nodes s fs and fs rule: sem_node_sem_nodes_sem_loop.induct)
  case (1 h uses path i n iv m)
  note at = 1(5,6) and u = 1(7)
  show ?case
  proof (cases "simple_node n")
    case True
    with run_simple[of nodes i] at u show ?thesis by simp
  next
    case False
    show ?thesis
    proof (cases n)
      case (N_If c t e)
      show ?thesis unfolding N_If using at[unfolded N_If] u 1(1)[OF N_If _ refl refl] by (intro run_if) simp_all
    next
      case (N_Loop var e1 e2 body)
      show ?thesis unfolding N_Loop using at[unfolded N_Loop] u 1(2)[OF N_Loop _ _ refl _ _ refl] by (intro run_loop_node) simp_all
    next
      case (N_Block body)
      show ?thesis
        using run_exec[OF at(1,2)] run_block[OF 1(3)[OF N_Block] u] u by (simp add: N_Block sem_node.simps)
    next
      case (N_Region g r body)
      show ?thesis
        using run_exec[OF at(1,2)] run_block[OF 1(4)[OF N_Region] u] u by (simp add: N_Region sem_node.simps)
    qed (use False at u in \<open>simp_all add: sem_node.simps run_return run_barrier\<close>)
  qed
next
  case (3 h uses path i n ns iv m)
  have at: "i < length nodes" "nodes ! i = n" "drop (i + 1) nodes = ns"
    using 3(4) nth_via_drop[OF 3(4)]
    by (cases "i < length nodes", simp_all add: drop_Suc flip: tl_drop)
  show ?case
    unfolding 3(1)[OF at(1,2) 3(5)] sem_nodes.simps
    by (rule resume_after, rule 3(2)) (use at sem_checks(1)[OF _ 3(5)] in simp_all)
next
  case (4 h uses path var a b body iv m)
  show ?case
  proof (cases "b \<le> a")
    case True
    with 4(3) show ?thesis
      using run_single_ok[of "F_Loop path var a b body # fs"] by (simp add: step_loop_frame_def sem_loop.simps)
  next
    case False
    show ?thesis
    proof (cases "bind_loop_var var (V_U32 a) (push_scope iv)")
      case (Inl e)
      with False show ?thesis
        using run_single_step_error[of "F_Loop path var a b body # fs"]
        by (simp add: step_loop_frame_def at_frames_locals sem_loop.simps)
    next
      case (Inr x)
      have u: "uniform_so_far x = Inr ()" using locals_checks(3)[OF Inr] 4(3) by simp
      let ?gs = "F_Loop path var (a + 1) b body # fs"
      have "run_loop h uses [at_frames (F_Loop path var a b body # fs) iv] m =
          run_loop h uses [at_frames (F_Nodes path body 0 True # ?gs) x] m"
        using run_single_ok[of "F_Loop path var a b body # fs"] False Inr u
        by (simp add: step_loop_frame_def at_frames_locals)
      also have "\<dots> = resume h uses (F_Nodes path body (length body) True # ?gs) (sem_nodes h uses path 0 body x m)"
        using u by (intro 4(1)[OF False Inr]) simp_all
      also have "\<dots> = resume h uses fs (after (sem_nodes h uses path 0 body x m)
          (\<lambda>iv m. sem_loop h uses path var (a + 1) b body (pop_scope iv) m))"
        by (rule resume_after) (use 4(2)[OF False Inr] sem_checks(2)[OF _ u] in \<open>simp add: run_pop\<close>)
      also have "\<dots> = resume h uses fs (sem_loop h uses path var a b body iv m)"
        using False Inr by (simp add: sem_loop.simps[of h uses path var a])
      finally show ?thesis .
    qed
  qed
qed simp

text \<open>The run of one invocation from the program's entry.\<close>

lemma run_entry:
  "run_loop h uses [new_invocation ids index entry] m =
     Some (rbind (sem_nodes h uses [] 0 entry (new_invocation ids index entry) m) (\<lambda>(ret, iv, m).
       Inr ([(at_frames [] iv)\<lparr>iv_returned := ret\<rparr>], m)))"
proof -
  let ?iv = "new_invocation ids index entry" and ?f = "F_Nodes [] entry (length entry) False"
  have u: "uniform_so_far ?iv = Inr ()" by (simp add: uniform_so_far_def new_invocation_def)
  have "?iv = at_frames [F_Nodes [] entry 0 False] ?iv" by (simp add: new_invocation_def at_frames_def)
  then have run: "run_loop h uses [?iv] m = resume h uses [?f] (sem_nodes h uses [] 0 entry ?iv m)"
    using run_refines(2)[of 0 entry entry ?iv h uses "[]" False "[]" m] u by simp
  have fin: "run_loop h uses [at_frames [?f] iv] m = Some (Inr ([at_frames [] iv], m))" for iv m
    using run_single_ok[of "[?f]" h uses iv m "at_frames [] iv" m]
    by (simp add: run_loop.simps[of h uses "[at_frames [] iv]"])
  have keep: "(at_frames [] iv)\<lparr>iv_returned := False\<rparr> = at_frames [] iv" for iv
    by (simp add: at_frames_def)
  show ?thesis
    by (cases "sem_nodes h uses [] 0 entry ?iv m") (auto simp: run resume_def fin keep)
qed

text \<open>
  C4.  A workgroup of one invocation behaves as the structured semantics says: the scheduler, started on the
  program's entry, returns exactly the outcome of the specification, be it the final memory, an error of
  a statement, the rejection of a branch that took both ways around a barrier, or
  the error for a transfer left pending.  The specification is that of the interpreter: a region runs its body in
  a scope of its own, like a block, although \<open>docs/ir-semantics.md\<close> says that it opens none.
\<close>

theorem scheduler_refines_structured_semantics:
  "run_invocations h uses [new_invocation ids index entry] m =
     Some (rbind (sem_nodes h uses [] 0 entry (new_invocation ids index entry) m) (\<lambda>(ret, iv, m).
       if iv_pending iv \<noteq> [] then Inl (IE_Run RE_AsyncPending) else Inr m))"
  by (cases "sem_nodes h uses [] 0 entry (new_invocation ids index entry) m")
    (auto simp: run_invocations_def run_entry pending_transfers_def)



end
