(* ===== verification/Ir_Stats.thy ===== *)
theory Ir_Stats
  imports Ir_Model
begin

text \<open>
  Program statistics: the single walk of \<open>compute_stats\<close>
  (\<open>vyre-foundation/src/ir_inner/model/program/stats.rs\<close>), its query methods
  (\<open>stats/methods.rs\<close>) and the indirect-dispatch query of \<open>meta.rs\<close> that uses the
  statistics as a fast path.  The mutable counters the walk threads through its calls are
  the record \<open>walk\<close>.
\<close>

subsection \<open>Flags and counters\<close>

definition CAP_SUBGROUP_OPS :: u32 where "CAP_SUBGROUP_OPS = 1"
definition CAP_F16 :: u32 where "CAP_F16 = 2"
definition CAP_BF16 :: u32 where "CAP_BF16 = 4"
definition CAP_F64 :: u32 where "CAP_F64 = 8"
definition CAP_ASYNC_DISPATCH :: u32 where "CAP_ASYNC_DISPATCH = 16"
definition CAP_INDIRECT_DISPATCH :: u32 where "CAP_INDIRECT_DISPATCH = 32"
definition CAP_TENSOR_OPS :: u32 where "CAP_TENSOR_OPS = 64"
definition CAP_TRAP :: u32 where "CAP_TRAP = 128"
definition CAP_DISTRIBUTED_COLLECTIVES :: u32 where "CAP_DISTRIBUTED_COLLECTIVES = 256"

lemmas cap_defs =
  CAP_SUBGROUP_OPS_def CAP_F16_def CAP_BF16_def CAP_F64_def CAP_ASYNC_DISPATCH_def
  CAP_INDIRECT_DISPATCH_def CAP_TENSOR_OPS_def CAP_TRAP_def CAP_DISTRIBUTED_COLLECTIVES_def

definition NODE_KIND_LET :: u32 where "NODE_KIND_LET = push_bit 0 1"
definition NODE_KIND_ASSIGN :: u32 where "NODE_KIND_ASSIGN = push_bit 1 1"
definition NODE_KIND_STORE :: u32 where "NODE_KIND_STORE = push_bit 2 1"
definition NODE_KIND_IF :: u32 where "NODE_KIND_IF = push_bit 3 1"
definition NODE_KIND_LOOP :: u32 where "NODE_KIND_LOOP = push_bit 4 1"
definition NODE_KIND_INDIRECT_DISPATCH :: u32 where "NODE_KIND_INDIRECT_DISPATCH = push_bit 5 1"
definition NODE_KIND_ASYNC_LOAD :: u32 where "NODE_KIND_ASYNC_LOAD = push_bit 6 1"
definition NODE_KIND_ASYNC_STORE :: u32 where "NODE_KIND_ASYNC_STORE = push_bit 7 1"
definition NODE_KIND_ASYNC_WAIT :: u32 where "NODE_KIND_ASYNC_WAIT = push_bit 8 1"
definition NODE_KIND_TRAP :: u32 where "NODE_KIND_TRAP = push_bit 9 1"
definition NODE_KIND_RESUME :: u32 where "NODE_KIND_RESUME = push_bit 10 1"
definition NODE_KIND_RETURN :: u32 where "NODE_KIND_RETURN = push_bit 11 1"
definition NODE_KIND_BARRIER :: u32 where "NODE_KIND_BARRIER = push_bit 12 1"
definition NODE_KIND_BLOCK :: u32 where "NODE_KIND_BLOCK = push_bit 13 1"
definition NODE_KIND_REGION :: u32 where "NODE_KIND_REGION = push_bit 14 1"
definition NODE_KIND_ALL_REDUCE :: u32 where "NODE_KIND_ALL_REDUCE = push_bit 15 1"
definition NODE_KIND_ALL_GATHER :: u32 where "NODE_KIND_ALL_GATHER = push_bit 16 1"
definition NODE_KIND_REDUCE_SCATTER :: u32 where "NODE_KIND_REDUCE_SCATTER = push_bit 17 1"
definition NODE_KIND_BROADCAST :: u32 where "NODE_KIND_BROADCAST = push_bit 18 1"
definition NODE_KIND_OPAQUE :: u32 where "NODE_KIND_OPAQUE = push_bit 19 1"

lemmas node_kind_consts =
  NODE_KIND_LET_def NODE_KIND_ASSIGN_def NODE_KIND_STORE_def
  NODE_KIND_IF_def NODE_KIND_LOOP_def NODE_KIND_INDIRECT_DISPATCH_def
  NODE_KIND_ASYNC_LOAD_def NODE_KIND_ASYNC_STORE_def NODE_KIND_ASYNC_WAIT_def
  NODE_KIND_TRAP_def NODE_KIND_RESUME_def NODE_KIND_RETURN_def
  NODE_KIND_BARRIER_def NODE_KIND_BLOCK_def NODE_KIND_REGION_def
  NODE_KIND_ALL_REDUCE_def NODE_KIND_ALL_GATHER_def NODE_KIND_REDUCE_SCATTER_def
  NODE_KIND_BROADCAST_def NODE_KIND_OPAQUE_def

definition NODE_KIND_EXPRESSION_BEARING_MASK :: u32 where
  "NODE_KIND_EXPRESSION_BEARING_MASK =
     NODE_KIND_LET OR NODE_KIND_ASSIGN OR NODE_KIND_STORE OR NODE_KIND_IF OR NODE_KIND_LOOP
       OR NODE_KIND_ASYNC_LOAD OR NODE_KIND_ASYNC_STORE OR NODE_KIND_TRAP"

record ir_counters =
  ic_instruction_count :: u64
  ic_memory_op_count :: u64
  ic_atomic_op_count :: u64
  ic_control_flow_count :: u64
  ic_live_names :: u32
  ic_max_live_names :: u32

definition ic_default :: ir_counters where
  "ic_default = \<lparr>ic_instruction_count = 0, ic_memory_op_count = 0, ic_atomic_op_count = 0,
     ic_control_flow_count = 0, ic_live_names = 0, ic_max_live_names = 0\<rparr>"

definition ic_instruction :: "ir_counters \<Rightarrow> ir_counters" where
  "ic_instruction c =
     c\<lparr>ic_instruction_count := saturating_inc (ic_instruction_count c)\<rparr>"

definition ic_memory :: "ir_counters \<Rightarrow> ir_counters" where
  "ic_memory c =
     ic_instruction (c\<lparr>ic_memory_op_count := saturating_inc (ic_memory_op_count c)\<rparr>)"

definition ic_atomic :: "ir_counters \<Rightarrow> ir_counters" where
  "ic_atomic c =
     ic_memory (c\<lparr>ic_atomic_op_count := saturating_inc (ic_atomic_op_count c)\<rparr>)"

definition ic_control_flow :: "ir_counters \<Rightarrow> ir_counters" where
  "ic_control_flow c =
     ic_instruction (c\<lparr>ic_control_flow_count := saturating_inc (ic_control_flow_count c)\<rparr>)"

definition ic_bind_name :: "ir_counters \<Rightarrow> ir_counters" where
  "ic_bind_name c =
     (let live = saturating_inc (ic_live_names c) in
      c\<lparr>ic_live_names := live, ic_max_live_names := max (ic_max_live_names c) live\<rparr>)"

definition ic_enter_scope :: "ir_counters \<Rightarrow> u32" where
  "ic_enter_scope c = ic_live_names c"

definition ic_leave_scope :: "u32 \<Rightarrow> ir_counters \<Rightarrow> ir_counters" where
  "ic_leave_scope saved c = c\<lparr>ic_live_names := saved\<rparr>"

record walk =
  wk_nodes :: usize
  wk_regions :: u32
  wk_calls :: u32
  wk_opaque :: u32
  wk_bits :: u32
  wk_kinds :: u32
  wk_ir :: ir_counters

definition wk_start :: walk where
  "wk_start = \<lparr>wk_nodes = 0, wk_regions = 0, wk_calls = 0, wk_opaque = 0, wk_bits = 0,
     wk_kinds = 0, wk_ir = ic_default\<rparr>"

abbreviation wk_count :: "(ir_counters \<Rightarrow> ir_counters) \<Rightarrow> walk \<Rightarrow> walk" where
  "wk_count f w \<equiv> w\<lparr>wk_ir := f (wk_ir w)\<rparr>"

abbreviation wk_cap :: "u32 \<Rightarrow> walk \<Rightarrow> walk" where
  "wk_cap b w \<equiv> w\<lparr>wk_bits := wk_bits w OR b\<rparr>"

abbreviation wk_kind :: "u32 \<Rightarrow> walk \<Rightarrow> walk" where
  "wk_kind k w \<equiv> w\<lparr>wk_kinds := wk_kinds w OR k\<rparr>"

fun mark_datatype_bits :: "data_type \<Rightarrow> u32 \<Rightarrow> u32" where
  "mark_datatype_bits DT_F16 bits = bits OR CAP_F16"
| "mark_datatype_bits DT_BF16 bits = bits OR CAP_BF16"
| "mark_datatype_bits DT_F64 bits = bits OR CAP_F64"
| "mark_datatype_bits DT_Tensor bits = bits OR CAP_TENSOR_OPS"
| "mark_datatype_bits (DT_TensorShaped _ _) bits = bits OR CAP_TENSOR_OPS"
| "mark_datatype_bits _ bits = bits"

fun str_prefix :: "string \<Rightarrow> string \<Rightarrow> bool" where
  "str_prefix [] _ = True"
| "str_prefix (c # cs) [] = False"
| "str_prefix (c # cs) (d # ds) = (c = d \<and> str_prefix cs ds)"

fun str_contains :: "string \<Rightarrow> string \<Rightarrow> bool" where
  "str_contains needle [] = (needle = [])"
| "str_contains needle (c # cs) = (str_prefix needle (c # cs) \<or> str_contains needle cs)"

definition is_subgroup_intrinsic_id :: "string \<Rightarrow> bool" where
  "is_subgroup_intrinsic_id op_id =
     list_ex (\<lambda>marker. str_contains marker op_id)
       [''subgroup_'', ''::subgroup::'', ''::subgroup'', ''wave_'', ''::wave::'',
        ''warp_'', ''::warp::'']"

subsection \<open>The walk\<close>

fun walk_expr :: "expr \<Rightarrow> walk \<Rightarrow> walk" and walk_exprs :: "expr list \<Rightarrow> walk \<Rightarrow> walk" where
  "walk_expr (E_SubgroupAdd v) w =
     walk_expr v (wk_count ic_instruction (wk_cap CAP_SUBGROUP_OPS w))"
| "walk_expr (E_SubgroupBallot c) w =
     walk_expr c (wk_count ic_instruction (wk_cap CAP_SUBGROUP_OPS w))"
| "walk_expr (E_SubgroupShuffle v l) w =
     walk_expr l (walk_expr v (wk_count ic_instruction (wk_cap CAP_SUBGROUP_OPS w)))"
| "walk_expr (E_BinOp _ l r) w = walk_expr r (walk_expr l (wk_count ic_instruction w))"
| "walk_expr (E_UnOp _ e) w = walk_expr e (wk_count ic_instruction w)"
| "walk_expr (E_Fma a b c) w =
     walk_expr c (walk_expr b (walk_expr a (wk_count ic_instruction w)))"
| "walk_expr (E_Select c t f) w =
     walk_expr f (walk_expr t (walk_expr c (wk_count ic_instruction w)))"
| "walk_expr (E_Cast target v) w =
     walk_expr v (wk_count ic_instruction (w\<lparr>wk_bits := mark_datatype_bits target (wk_bits w)\<rparr>))"
| "walk_expr (E_Load _ i) w = walk_expr i (wk_count ic_memory w)"
| "walk_expr (E_Call op_id args) w =
     walk_exprs args
       (wk_count ic_instruction
         ((if is_subgroup_intrinsic_id op_id then wk_cap CAP_SUBGROUP_OPS w else w)
            \<lparr>wk_calls := saturating_inc (wk_calls w)\<rparr>))"
| "walk_expr (E_Atomic _ _ i None v _) w = walk_expr v (walk_expr i (wk_count ic_atomic w))"
| "walk_expr (E_Atomic _ _ i (Some e) v _) w =
     walk_expr v (walk_expr e (walk_expr i (wk_count ic_atomic w)))"
| "walk_expr (E_Opaque _) w =
     wk_count ic_instruction (w\<lparr>wk_opaque := saturating_inc (wk_opaque w)\<rparr>)"
| "walk_expr E_SubgroupLocalId w = wk_count ic_instruction (wk_cap CAP_SUBGROUP_OPS w)"
| "walk_expr E_SubgroupSize w = wk_count ic_instruction (wk_cap CAP_SUBGROUP_OPS w)"
| "walk_expr (E_LitU32 _) w = w"
| "walk_expr (E_LitI32 _) w = w"
| "walk_expr (E_LitF32 _) w = w"
| "walk_expr (E_LitBool _) w = w"
| "walk_expr (E_Var _) w = w"
| "walk_expr (E_BufLen _) w = w"
| "walk_expr (E_InvocationId _) w = w"
| "walk_expr (E_WorkgroupId _) w = w"
| "walk_expr (E_LocalId _) w = w"
| "walk_exprs [] w = w"
| "walk_exprs (e # es) w = walk_exprs es (walk_expr e w)"

fun walk_node :: "node \<Rightarrow> walk \<Rightarrow> walk" and
    walk_nodes :: "node list \<Rightarrow> walk \<Rightarrow> walk" and
    walk_arm :: "node \<Rightarrow> walk \<Rightarrow> walk" where
  "walk_node n w =
     walk_arm n (w\<lparr>wk_nodes := saturating_inc (wk_nodes w)\<rparr>)"
| "walk_nodes [] w = w"
| "walk_nodes (n # ns) w = walk_nodes ns (walk_node n w)"
| "walk_arm (N_Let _ v) w = walk_expr v (wk_count (ic_bind_name \<circ> ic_instruction) (wk_kind NODE_KIND_LET w))"
| "walk_arm (N_Assign _ v) w = walk_expr v (wk_count ic_instruction (wk_kind NODE_KIND_ASSIGN w))"
| "walk_arm (N_Store _ i v) w = walk_expr v (walk_expr i (wk_count ic_memory (wk_kind NODE_KIND_STORE w)))"
| "walk_arm (N_If c t f) w =
     (let w1 = walk_expr c (wk_count ic_control_flow (wk_kind NODE_KIND_IF w));
          saved = ic_enter_scope (wk_ir w1)
      in wk_count (ic_leave_scope saved) (walk_nodes f (walk_nodes t w1)))"
| "walk_arm (N_Loop _ from to body) w =
     (let w1 = walk_expr to (walk_expr from (wk_count ic_control_flow (wk_kind NODE_KIND_LOOP w)));
          saved = ic_enter_scope (wk_ir w1)
      in wk_count (ic_leave_scope saved) (walk_nodes body w1))"
| "walk_arm (N_Block body) w =
     wk_count (ic_leave_scope (ic_enter_scope (wk_ir w))) (walk_nodes body (wk_kind NODE_KIND_BLOCK w))"
| "walk_arm (N_Region _ _ body) w =
     wk_count (ic_leave_scope (ic_enter_scope (wk_ir w)))
       (walk_nodes body ((wk_kind NODE_KIND_REGION w)\<lparr>wk_regions := saturating_inc (wk_regions w)\<rparr>))"
| "walk_arm (N_AsyncLoad _ _ offset n _) w =
     walk_expr n (walk_expr offset (wk_count ic_memory (wk_cap CAP_ASYNC_DISPATCH (wk_kind NODE_KIND_ASYNC_LOAD w))))"
| "walk_arm (N_AsyncStore _ _ offset n _) w =
     walk_expr n (walk_expr offset (wk_count ic_memory (wk_cap CAP_ASYNC_DISPATCH (wk_kind NODE_KIND_ASYNC_STORE w))))"
| "walk_arm (N_AsyncWait _) w = wk_count ic_control_flow (wk_cap CAP_ASYNC_DISPATCH (wk_kind NODE_KIND_ASYNC_WAIT w))"
| "walk_arm (N_IndirectDispatch _ _) w =
     wk_count ic_control_flow (wk_cap CAP_INDIRECT_DISPATCH (wk_kind NODE_KIND_INDIRECT_DISPATCH w))"
| "walk_arm (N_Trap address _) w = walk_expr address (wk_count ic_control_flow (wk_cap CAP_TRAP (wk_kind NODE_KIND_TRAP w)))"
| "walk_arm (N_AllReduce _ _ _) w = wk_count ic_memory (wk_cap CAP_DISTRIBUTED_COLLECTIVES (wk_kind NODE_KIND_ALL_REDUCE w))"
| "walk_arm (N_AllGather _ _ _) w = wk_count ic_memory (wk_cap CAP_DISTRIBUTED_COLLECTIVES (wk_kind NODE_KIND_ALL_GATHER w))"
| "walk_arm (N_ReduceScatter _ _ _ _) w =
     wk_count ic_memory (wk_cap CAP_DISTRIBUTED_COLLECTIVES (wk_kind NODE_KIND_REDUCE_SCATTER w))"
| "walk_arm (N_Broadcast _ _ _) w = wk_count ic_memory (wk_cap CAP_DISTRIBUTED_COLLECTIVES (wk_kind NODE_KIND_BROADCAST w))"
| "walk_arm (N_Opaque _) w =
     wk_count ic_instruction ((wk_kind NODE_KIND_OPAQUE w)\<lparr>wk_opaque := saturating_inc (wk_opaque w)\<rparr>)"
| "walk_arm N_Return w = wk_count ic_control_flow (wk_kind NODE_KIND_RETURN w)"
| "walk_arm (N_Barrier _) w = wk_count ic_control_flow (wk_kind NODE_KIND_BARRIER w)"
| "walk_arm (N_Resume _) w = wk_count ic_control_flow (wk_kind NODE_KIND_RESUME w)"

record program_stats =
  ps_node_count :: usize
  ps_region_count :: u32
  ps_call_count :: u32
  ps_opaque_count :: u32
  ps_top_level_regions :: u32
  ps_static_storage_bytes :: u64
  ps_instruction_count :: u64
  ps_memory_op_count :: u64
  ps_atomic_op_count :: u64
  ps_control_flow_count :: u64
  ps_register_pressure_estimate :: u32
  ps_capability_bits :: u32
  ps_node_kinds_present :: u32

text \<open>
  The product of count and element size is an unchecked \<open>u64\<close> multiplication; it wraps in
  the release profile, which does not enable overflow checks.
\<close>

definition add_static_bytes :: "u64 \<Rightarrow> buffer_decl \<Rightarrow> u64" where
  "add_static_bytes acc b =
     (if bd_count b \<noteq> 0 then
        (case size_bytes (bd_element b) of
           Some elem \<Rightarrow> u64_saturating_add acc (ucast (bd_count b) * elem)
         | None \<Rightarrow> acc)
      else acc)"

definition u32_of_count :: "nat \<Rightarrow> u32" where
  "u32_of_count n = (if n < 2 ^ 32 then of_nat n else -1)"

definition compute_stats :: "program \<Rightarrow> program_stats" where
  "compute_stats p =
     (let bits = foldl (\<lambda>bits b. mark_datatype_bits (bd_element b) bits) 0 (pg_buffers p);
          w = walk_nodes (pg_entry p) (wk_start\<lparr>wk_bits := bits\<rparr>)
      in \<lparr>ps_node_count = wk_nodes w, ps_region_count = wk_regions w, ps_call_count = wk_calls w,
          ps_opaque_count = wk_opaque w,
          ps_top_level_regions = u32_of_count (length (filter is_region (pg_entry p))),
          ps_static_storage_bytes = foldl add_static_bytes 0 (pg_buffers p),
          ps_instruction_count = ic_instruction_count (wk_ir w),
          ps_memory_op_count = ic_memory_op_count (wk_ir w),
          ps_atomic_op_count = ic_atomic_op_count (wk_ir w),
          ps_control_flow_count = ic_control_flow_count (wk_ir w),
          ps_register_pressure_estimate = ic_max_live_names (wk_ir w),
          ps_capability_bits = wk_bits w, ps_node_kinds_present = wk_kinds w\<rparr>)"

definition has_any_node_kind :: "program_stats \<Rightarrow> u32 \<Rightarrow> bool" where
  "has_any_node_kind st wanted = (ps_node_kinds_present st AND wanted \<noteq> 0)"

definition has_capability :: "program_stats \<Rightarrow> u32 \<Rightarrow> bool" where
  "has_capability st cap = (ps_capability_bits st AND cap \<noteq> 0)"

subsection \<open>Indirect dispatch\<close>

text \<open>The explicit stack of the search; its top is the head of the list.\<close>

function indirect_search :: "node list \<Rightarrow> bool" where
  "indirect_search [] = False"
| "indirect_search (n # stack) =
     (case n of
        N_IndirectDispatch _ _ \<Rightarrow> True
      | N_If _ t f \<Rightarrow> indirect_search (t @ f @ stack)
      | N_Loop _ _ _ body \<Rightarrow> indirect_search (body @ stack)
      | N_Block body \<Rightarrow> indirect_search (body @ stack)
      | N_Region _ _ body \<Rightarrow> indirect_search (body @ stack)
      | _ \<Rightarrow> indirect_search stack)"
  by pat_completeness auto
termination by (relation "measure (size_list size)") auto

definition has_indirect_dispatch :: "program \<Rightarrow> bool" where
  "has_indirect_dispatch p =
     (if \<not> has_any_node_kind (compute_stats p) NODE_KIND_INDIRECT_DISPATCH then False
      else indirect_search (pg_entry p))"

text \<open>All nodes of a tree, in the order of the walk.\<close>

fun subnodes :: "node \<Rightarrow> node list" and
    subnodes_list :: "node list \<Rightarrow> node list" and
    below :: "node \<Rightarrow> node list" where
  "subnodes n = n # below n"
| "subnodes_list [] = []"
| "subnodes_list (n # ns) = subnodes n @ subnodes_list ns"
| "below (N_If c t f) = subnodes_list t @ subnodes_list f"
| "below (N_Loop v from to body) = subnodes_list body"
| "below (N_Block body) = subnodes_list body"
| "below (N_Region g s body) = subnodes_list body"
| "below _ = []"

fun is_indirect_dispatch :: "node \<Rightarrow> bool" where
  "is_indirect_dispatch (N_IndirectDispatch _ _) = True"
| "is_indirect_dispatch _ = False"

text \<open>The bit a kind of node has: its position in the declaration of \<open>Node\<close>.\<close>

fun node_kind_bit :: "node \<Rightarrow> nat" where
  "node_kind_bit (N_Let _ _) = 0"
| "node_kind_bit (N_Assign _ _) = 1"
| "node_kind_bit (N_Store _ _ _) = 2"
| "node_kind_bit (N_If _ _ _) = 3"
| "node_kind_bit (N_Loop _ _ _ _) = 4"
| "node_kind_bit (N_IndirectDispatch _ _) = 5"
| "node_kind_bit (N_AsyncLoad _ _ _ _ _) = 6"
| "node_kind_bit (N_AsyncStore _ _ _ _ _) = 7"
| "node_kind_bit (N_AsyncWait _) = 8"
| "node_kind_bit (N_Trap _ _) = 9"
| "node_kind_bit (N_Resume _) = 10"
| "node_kind_bit N_Return = 11"
| "node_kind_bit (N_Barrier _) = 12"
| "node_kind_bit (N_Block _) = 13"
| "node_kind_bit (N_Region _ _ _) = 14"
| "node_kind_bit (N_AllReduce _ _ _) = 15"
| "node_kind_bit (N_AllGather _ _ _) = 16"
| "node_kind_bit (N_ReduceScatter _ _ _ _) = 17"
| "node_kind_bit (N_Broadcast _ _ _) = 18"
| "node_kind_bit (N_Opaque _) = 19"

definition node_kind :: "node \<Rightarrow> u32" where
  "node_kind n = push_bit (node_kind_bit n) 1"

lemma node_kind_simps [simp]:
  "node_kind (N_Let s e) = NODE_KIND_LET"
  "node_kind (N_Assign s e) = NODE_KIND_ASSIGN"
  "node_kind (N_Store s e f) = NODE_KIND_STORE"
  "node_kind (N_If e t f') = NODE_KIND_IF"
  "node_kind (N_Loop s e f t) = NODE_KIND_LOOP"
  "node_kind (N_IndirectDispatch s w) = NODE_KIND_INDIRECT_DISPATCH"
  "node_kind (N_AsyncLoad s s' e f s'') = NODE_KIND_ASYNC_LOAD"
  "node_kind (N_AsyncStore s s' e f s'') = NODE_KIND_ASYNC_STORE"
  "node_kind (N_AsyncWait s) = NODE_KIND_ASYNC_WAIT"
  "node_kind (N_Trap e s) = NODE_KIND_TRAP"
  "node_kind (N_Resume s) = NODE_KIND_RESUME"
  "node_kind N_Return = NODE_KIND_RETURN"
  "node_kind (N_Barrier mo) = NODE_KIND_BARRIER"
  "node_kind (N_Block t) = NODE_KIND_BLOCK"
  "node_kind (N_Region s so t) = NODE_KIND_REGION"
  "node_kind (N_AllReduce s co g) = NODE_KIND_ALL_REDUCE"
  "node_kind (N_AllGather s s' g) = NODE_KIND_ALL_GATHER"
  "node_kind (N_ReduceScatter s s' co g) = NODE_KIND_REDUCE_SCATTER"
  "node_kind (N_Broadcast s g g') = NODE_KIND_BROADCAST"
  "node_kind (N_Opaque x) = NODE_KIND_OPAQUE"
  by (simp_all add: node_kind_def node_kind_consts)

subsection \<open>What the walk leaves alone and what it collects\<close>

lemma walk_expr_frame [simp]:
  "wk_nodes (walk_expr e w) = wk_nodes w"
  "wk_regions (walk_expr e w) = wk_regions w"
  "wk_kinds (walk_expr e w) = wk_kinds w"
  "wk_nodes (walk_exprs es w) = wk_nodes w"
  "wk_regions (walk_exprs es w) = wk_regions w"
  "wk_kinds (walk_exprs es w) = wk_kinds w"
  by (induction e w and es w rule: walk_expr_walk_exprs.induct) simp_all

lemma ic_live_names_simps [simp]:
  "ic_live_names (ic_instruction c) = ic_live_names c"
  "ic_live_names (ic_memory c) = ic_live_names c"
  "ic_live_names (ic_atomic c) = ic_live_names c"
  "ic_live_names (ic_control_flow c) = ic_live_names c"
  "ic_max_live_names (ic_instruction c) = ic_max_live_names c"
  "ic_max_live_names (ic_memory c) = ic_max_live_names c"
  "ic_max_live_names (ic_atomic c) = ic_max_live_names c"
  "ic_max_live_names (ic_control_flow c) = ic_max_live_names c"
  by (simp_all add: ic_instruction_def ic_memory_def ic_atomic_def ic_control_flow_def)

lemma walk_expr_names [simp]:
  "ic_live_names (wk_ir (walk_expr e w)) = ic_live_names (wk_ir w)"
  "ic_max_live_names (wk_ir (walk_expr e w)) = ic_max_live_names (wk_ir w)"
  "ic_live_names (wk_ir (walk_exprs es w)) = ic_live_names (wk_ir w)"
  "ic_max_live_names (wk_ir (walk_exprs es w)) = ic_max_live_names (wk_ir w)"
  by (induction e w and es w rule: walk_expr_walk_exprs.induct) simp_all

lemma bit_walk_kinds:
  "bit (wk_kinds (walk_node n w)) i \<longleftrightarrow>
     bit (wk_kinds w) i \<or> list_ex (\<lambda>m. bit (node_kind m) i) (subnodes n)"
  "bit (wk_kinds (walk_nodes ns w)) i \<longleftrightarrow>
     bit (wk_kinds w) i \<or> list_ex (\<lambda>m. bit (node_kind m) i) (subnodes_list ns)"
  "bit (wk_kinds (walk_arm n w)) i \<longleftrightarrow>
     bit (wk_kinds w) i \<or> list_ex (\<lambda>m. bit (node_kind m) i) (n # below n)"
  by (induction n w and ns w and n w rule: walk_node_walk_nodes_walk_arm.induct)
     (auto simp: Let_def bit_or_iff)

lemma unat_walk_nodes:
  "unat (wk_nodes (walk_node n w)) = min (2 ^ 64 - 1) (unat (wk_nodes w) + length (subnodes n))"
  "unat (wk_nodes (walk_nodes ns w)) =
     min (2 ^ 64 - 1) (unat (wk_nodes w) + length (subnodes_list ns))"
  "unat (wk_nodes (walk_arm n w)) =
     min (2 ^ 64 - 1) (unat (wk_nodes w) + length (below n))"
  by (induction n w and ns w and n w rule: walk_node_walk_nodes_walk_arm.induct)
     (simp_all add: Let_def unat_saturating_inc min_min_add min_min_add[where b = "Suc 0", simplified] add.assoc)

lemma unat_walk_regions:
  "unat (wk_regions (walk_node n w)) =
     min (2 ^ 32 - 1) (unat (wk_regions w) + length (filter is_region (subnodes n)))"
  "unat (wk_regions (walk_nodes ns w)) =
     min (2 ^ 32 - 1) (unat (wk_regions w) + length (filter is_region (subnodes_list ns)))"
  "unat (wk_regions (walk_arm n w)) =
     min (2 ^ 32 - 1)
       (unat (wk_regions w) + (if is_region n then 1 else 0) + length (filter is_region (below n)))"
  by (induction n w and ns w and n w rule: walk_node_walk_nodes_walk_arm.induct)
     (simp_all add: Let_def unat_saturating_inc min_min_add min_min_add[where b = "Suc 0", simplified] add.assoc)

lemma indirect_search_eq:
  "indirect_search ns = list_ex is_indirect_dispatch (subnodes_list ns)"
proof (induction ns rule: indirect_search.induct)
  case (2 n stack)
  have app: "subnodes_list (xs @ ys) = subnodes_list xs @ subnodes_list ys" for xs ys
    by (induction xs) auto
  show ?case using 2 by (cases n) (auto simp: app)
qed simp

lemma bit_node_kind: "bit (node_kind n) i \<longleftrightarrow> i = node_kind_bit n"
proof -
  have "node_kind_bit n < 32" by (cases n) auto
  then show ?thesis by (auto simp: node_kind_def push_bit_of_1 bit_exp_iff)
qed

lemma bit_node_kinds_present:
  "bit (ps_node_kinds_present (compute_stats p)) i \<longleftrightarrow>
     list_ex (\<lambda>m. node_kind_bit m = i) (subnodes_list (pg_entry p))"
  by (auto simp: compute_stats_def Let_def bit_walk_kinds bit_node_kind wk_start_def list_ex_iff)

subsection \<open>Static storage\<close>

definition static_demand :: "buffer_decl \<Rightarrow> nat" where
  "static_demand b = (case size_bytes (bd_element b) of None \<Rightarrow> 0 | Some n \<Rightarrow> unat (bd_count b) * unat n)"

lemma unat_add_static_bytes:
  "unat (add_static_bytes acc b) = min (2 ^ 64 - 1) (unat acc + static_demand b mod 2 ^ 64)"
proof -
  have acc: "unat acc \<le> 2 ^ 64 - 1" using unsigned_less[of acc, where 'a = nat] by simp
  show ?thesis
    using acc by (auto simp: add_static_bytes_def static_demand_def unat_u64_saturating_add unat_word_ariths
        unsigned_ucast_eq take_bit_nat_eq_self min_def split: option.split)
qed

lemma unat_static_fold:
  "unat (foldl add_static_bytes acc bs) =
     min (2 ^ 64 - 1) (unat acc + sum_list (map (\<lambda>b. static_demand b mod 2 ^ 64) bs))"
proof (induction bs arbitrary: acc)
  case Nil
  show ?case using unsigned_less[of acc, where 'a = nat] by simp
next
  case (Cons b bs)
  then show ?case by (simp add: unat_add_static_bytes min_def)
qed

lemma static_demand_le: "static_demand b mod 2 ^ 64 \<le> vram_demand b"
  by (auto simp: static_demand_def vram_demand_def split: option.split)

subsection \<open>Properties\<close>

text \<open>
  C26. The node-kind set of the statistics is exact: a query for a mask of kinds answers
  yes exactly when some node of the tree, at any depth, has one of those kinds.  This is
  what lets an optimizer pass skip its walk on the answer no.
\<close>

theorem node_kinds_present_exact:
  "has_any_node_kind (compute_stats p) wanted \<longleftrightarrow>
     (\<exists>m \<in> set (subnodes_list (pg_entry p)). node_kind m AND wanted \<noteq> 0)"
  by (auto simp: has_any_node_kind_def and_neq_0_iff bit_node_kinds_present bit_node_kind
      list_ex_iff)

text \<open>
  C27. \<open>has_indirect_dispatch\<close>, with its fast path through the statistics and its explicit
  stack, finds an indirect dispatch exactly when the tree has one at any depth.
\<close>

theorem has_indirect_dispatch_exact:
  "has_indirect_dispatch p \<longleftrightarrow> list_ex is_indirect_dispatch (subnodes_list (pg_entry p))"
proof -
  have "is_indirect_dispatch m \<Longrightarrow> node_kind_bit m = 5" for m by (cases m) auto
  moreover have "bit NODE_KIND_INDIRECT_DISPATCH 5"
    by (simp add: NODE_KIND_INDIRECT_DISPATCH_def)
  ultimately show ?thesis
    by (auto simp: has_indirect_dispatch_def has_any_node_kind_def indirect_search_eq
        and_neq_0_iff bit_node_kinds_present list_ex_iff)
qed

text \<open>
  C28. Node and region counts are the exact numbers of nodes and regions in the tree, clamped
  to the width of the counter.
\<close>

theorem stats_counts:
  "unat (ps_node_count (compute_stats p)) = min (2 ^ 64 - 1) (length (subnodes_list (pg_entry p)))
   \<and> unat (ps_region_count (compute_stats p)) =
       min (2 ^ 32 - 1) (length (filter is_region (subnodes_list (pg_entry p))))"
  by (simp add: compute_stats_def Let_def unat_walk_nodes unat_walk_regions wk_start_def)


text \<open>
  C39. The static storage total is the sum, clamped to \<open>u64::MAX\<close>, of the buffers' byte sizes \<^emph>\<open>modulo\<close> \<open>2^64\<close>:
  the product of count and element size wraps before the saturating sum sees it.  The total never exceeds the
  memory estimate of the same program, which multiplies without wrapping.
\<close>

theorem static_storage_bytes_exact:
  "unat (ps_static_storage_bytes (compute_stats p)) =
     min (2 ^ 64 - 1) (sum_list (map (\<lambda>b. static_demand b mod 2 ^ 64) (pg_buffers p))) \<and>
   ps_static_storage_bytes (compute_stats p) \<le> estimate_peak_vram_bytes p"
proof -
  have total: "unat (ps_static_storage_bytes (compute_stats p)) =
      min (2 ^ 64 - 1) (sum_list (map (\<lambda>b. static_demand b mod 2 ^ 64) (pg_buffers p)))"
    by (simp add: compute_stats_def Let_def unat_static_fold)
  moreover have "sum_list (map (\<lambda>b. static_demand b mod 2 ^ 64) bs) \<le> sum_list (map vram_demand bs)" for bs
    by (intro sum_list_mono) (rule static_demand_le)
  ultimately have "unat (ps_static_storage_bytes (compute_stats p)) \<le> unat (estimate_peak_vram_bytes p)"
    by (simp add: estimate_peak_vram_bytes_def unat_vram_fold min.coboundedI2)
  with total show ?thesis by (simp add: word_le_nat_alt)
qed

end
