(* ===== verification/Ir_Collectives.thy ===== *)
theory Ir_Collectives
  imports Ir_Stats "HOL-Library.Multiset"
begin

text \<open>
  Collective communication: the transport plan of a program and the lowering of single-rank collectives
  (\<open>vyre-foundation/src/transform/collectives.rs\<close>), and the capability scan with the check against what a
  backend advertises (\<open>vyre-foundation/src/runtime/program_caps.rs\<close>).  The \<open>usize\<close> counters count nodes held in
  memory, so they cannot overflow and are natural numbers.
\<close>

definition WORLD :: u32 where
  "WORLD = 0"

subsection \<open>The transport plan\<close>

datatype transport_kind = TK_LocalSingleRank | TK_MultiRankTransport

datatype collective_node_kind = CK_AllReduce | CK_AllGather | CK_ReduceScatter | CK_Broadcast

record op_counts =
  oc_all_reduce :: nat
  oc_all_gather :: nat
  oc_reduce_scatter :: nat
  oc_broadcast :: nat

record transport_plan =
  tp_local_single_rank :: nat
  tp_multi_rank_transport :: nat
  tp_local_ops :: op_counts
  tp_transport_ops :: op_counts

definition no_ops :: op_counts where
  "no_ops = \<lparr>oc_all_reduce = 0, oc_all_gather = 0, oc_reduce_scatter = 0, oc_broadcast = 0\<rparr>"

definition no_plan :: transport_plan where
  "no_plan = \<lparr>tp_local_single_rank = 0, tp_multi_rank_transport = 0, tp_local_ops = no_ops, tp_transport_ops = no_ops\<rparr>"

definition ops_total :: "op_counts \<Rightarrow> nat" where
  "ops_total c = oc_all_reduce c + oc_all_gather c + oc_reduce_scatter c + oc_broadcast c"

fun record_op :: "collective_node_kind \<Rightarrow> op_counts \<Rightarrow> op_counts" where
  "record_op CK_AllReduce c = c\<lparr>oc_all_reduce := oc_all_reduce c + 1\<rparr>"
| "record_op CK_AllGather c = c\<lparr>oc_all_gather := oc_all_gather c + 1\<rparr>"
| "record_op CK_ReduceScatter c = c\<lparr>oc_reduce_scatter := oc_reduce_scatter c + 1\<rparr>"
| "record_op CK_Broadcast c = c\<lparr>oc_broadcast := oc_broadcast c + 1\<rparr>"

fun record_collective :: "transport_kind \<Rightarrow> collective_node_kind \<Rightarrow> transport_plan \<Rightarrow> transport_plan" where
  "record_collective TK_LocalSingleRank kind plan =
     plan\<lparr>tp_local_single_rank := tp_local_single_rank plan + 1, tp_local_ops := record_op kind (tp_local_ops plan)\<rparr>"
| "record_collective TK_MultiRankTransport kind plan =
     plan\<lparr>tp_multi_rank_transport := tp_multi_rank_transport plan + 1,
          tp_transport_ops := record_op kind (tp_transport_ops plan)\<rparr>"

definition requires_transport :: "transport_plan \<Rightarrow> bool" where
  "requires_transport plan = (tp_multi_rank_transport plan \<noteq> 0)"

definition plan_is_empty :: "transport_plan \<Rightarrow> bool" where
  "plan_is_empty plan = (tp_local_single_rank plan = 0 \<and> tp_multi_rank_transport plan = 0)"

definition transport_kind_for_group :: "u32 \<Rightarrow> transport_kind" where
  "transport_kind_for_group g = (if g = WORLD then TK_LocalSingleRank else TK_MultiRankTransport)"

text \<open>One node of the list on top of the stack; the bodies it has are pushed, the branch taken first on top.\<close>

fun plan_node :: "node \<Rightarrow> node list list \<times> transport_plan \<Rightarrow> node list list \<times> transport_plan" where
  "plan_node (N_AllReduce _ _ g) (stack, plan) =
     (stack, record_collective (transport_kind_for_group g) CK_AllReduce plan)"
| "plan_node (N_AllGather _ _ g) (stack, plan) =
     (stack, record_collective (transport_kind_for_group g) CK_AllGather plan)"
| "plan_node (N_ReduceScatter _ _ _ g) (stack, plan) =
     (stack, record_collective (transport_kind_for_group g) CK_ReduceScatter plan)"
| "plan_node (N_Broadcast _ root g) (stack, plan) =
     (stack, record_collective
        (if g = WORLD \<and> root = 0 then TK_LocalSingleRank else TK_MultiRankTransport) CK_Broadcast plan)"
| "plan_node (N_If _ t f) (stack, plan) = (t # f # stack, plan)"
| "plan_node (N_Loop _ _ _ body) (stack, plan) = (body # stack, plan)"
| "plan_node (N_Block body) (stack, plan) = (body # stack, plan)"
| "plan_node (N_Region _ _ body) (stack, plan) = (body # stack, plan)"
| "plan_node _ (stack, plan) = (stack, plan)"

definition stack_weight :: "node list list \<Rightarrow> nat" where
  "stack_weight stack = sum_list (map (\<lambda>nodes. Suc (2 * size_list size nodes)) stack)"

lemma plan_node_weight: "stack_weight (fst (plan_node n (stack, plan))) \<le> stack_weight stack + 2 * size n"
  by (cases n) (simp_all add: stack_weight_def)

lemma fold_plan_node_weight:
  "stack_weight (fst (fold plan_node nodes s)) \<le> stack_weight (fst s) + 2 * size_list size nodes"
proof (induction nodes arbitrary: s)
  case (Cons n nodes)
  show ?case
    using Cons.IH[of "plan_node n s"] plan_node_weight[of n "fst s" "snd s"] by simp
qed simp

function record_nodes_transport_plan :: "node list list \<Rightarrow> transport_plan \<Rightarrow> transport_plan" where
  "record_nodes_transport_plan [] plan = plan"
| "record_nodes_transport_plan (nodes # stack) plan =
     (let s = fold plan_node nodes (stack, plan) in record_nodes_transport_plan (fst s) (snd s))"
  by pat_completeness auto
termination
  by (relation "measure (stack_weight \<circ> fst)")
    (auto simp: stack_weight_def[of "_ # _"] stack_weight_def[symmetric] intro: le_less_trans[OF fold_plan_node_weight])

definition collective_transport_plan :: "program \<Rightarrow> transport_plan" where
  "collective_transport_plan p = record_nodes_transport_plan [pg_entry p] no_plan"

definition requires_collective_transport :: "program \<Rightarrow> bool" where
  "requires_collective_transport p = requires_transport (collective_transport_plan p)"

subsection \<open>Lowering of single-rank collectives\<close>

datatype collective_error = CE_NonWorldGroup string u32 | CE_BroadcastRoot u32

record lowering_state =
  ls_lowered :: nat
  ls_next_copy_id :: nat

definition require_world_group :: "u32 \<Rightarrow> string \<Rightarrow> collective_error + unit" where
  "require_world_group g op = (if g = WORLD then Inr () else Inl (CE_NonWorldGroup op g))"

definition copy_index_name :: "nat \<Rightarrow> string" where
  "copy_index_name copy_id = ''__vyre_single_rank_collective_idx_'' @ decimal copy_id"

definition single_rank_copy :: "string \<Rightarrow> string \<Rightarrow> lowering_state \<Rightarrow> node list \<times> lowering_state" where
  "single_rank_copy input output st =
     (let idx = copy_index_name (ls_next_copy_id st) in
      ([N_Let idx (E_InvocationId 0),
        N_If (E_BinOp BO_Lt (E_Var idx) (E_BufLen output))
          [N_If (E_BinOp BO_Lt (E_Var idx) (E_BufLen input))
             [N_Store output (E_Var idx) (E_Load input (E_Var idx))] []] []],
       st\<lparr>ls_next_copy_id := ls_next_copy_id st + 1\<rparr>))"

definition count_lowered :: "lowering_state \<Rightarrow> lowering_state" where
  "count_lowered st = st\<lparr>ls_lowered := ls_lowered st + 1\<rparr>"

fun rewrite_node :: "node \<Rightarrow> lowering_state \<Rightarrow> collective_error + node list \<times> lowering_state" and
    rewrite_nodes :: "node list \<Rightarrow> lowering_state \<Rightarrow> collective_error + node list \<times> lowering_state" where
  "rewrite_node (N_AllReduce _ _ g) st =
     rbind (require_world_group g ''AllReduce'') (\<lambda>_. Inr ([], count_lowered st))"
| "rewrite_node (N_Broadcast _ root g) st =
     rbind (require_world_group g ''Broadcast'') (\<lambda>_.
       if root \<noteq> 0 then Inl (CE_BroadcastRoot root) else Inr ([], count_lowered st))"
| "rewrite_node (N_AllGather input output g) st =
     rbind (require_world_group g ''AllGather'') (\<lambda>_. Inr (single_rank_copy input output (count_lowered st)))"
| "rewrite_node (N_ReduceScatter input output _ g) st =
     rbind (require_world_group g ''ReduceScatter'') (\<lambda>_. Inr (single_rank_copy input output (count_lowered st)))"
| "rewrite_node (N_If c t f) st =
     rbind (rewrite_nodes t st) (\<lambda>(t, st). rbind (rewrite_nodes f st) (\<lambda>(f, st). Inr ([N_If c t f], st)))"
| "rewrite_node (N_Loop var from to body) st =
     rbind (rewrite_nodes body st) (\<lambda>(body, st). Inr ([N_Loop var from to body], st))"
| "rewrite_node (N_Block body) st = rbind (rewrite_nodes body st) (\<lambda>(body, st). Inr ([N_Block body], st))"
| "rewrite_node (N_Region g s body) st =
     rbind (rewrite_nodes body st) (\<lambda>(body, st). Inr ([N_Region g s body], st))"
| "rewrite_node n st = Inr ([n], st)"
| "rewrite_nodes [] st = Inr ([], st)"
| "rewrite_nodes (n # ns) st =
     rbind (rewrite_node n st) (\<lambda>(out, st). rbind (rewrite_nodes ns st) (\<lambda>(outs, st). Inr (out @ outs, st)))"

definition lower_single_rank_collectives :: "program \<Rightarrow> collective_error + program option" where
  "lower_single_rank_collectives p =
     (if \<not> has_capability (compute_stats p) CAP_DISTRIBUTED_COLLECTIVES then Inr None
      else rbind (rewrite_nodes (pg_entry p) \<lparr>ls_lowered = 0, ls_next_copy_id = 0\<rparr>) (\<lambda>(entry, st).
        if ls_lowered st = 0 then Inr None else Inr (Some (with_rewritten_entry p entry))))"

subsection \<open>Required capabilities\<close>

record required_capabilities =
  rc_subgroup_ops :: bool
  rc_f16 :: bool
  rc_bf16 :: bool
  rc_f64 :: bool
  rc_async_dispatch :: bool
  rc_indirect_dispatch :: bool
  rc_tensor_ops :: bool
  rc_trap :: bool
  rc_distributed_collectives :: bool
  rc_local_single_rank_collectives :: nat
  rc_transport_collectives :: nat
  rc_max_workgroup_size :: "u32 \<times> u32 \<times> u32"
  rc_static_storage_bytes :: u64

definition caps_none :: required_capabilities where
  "caps_none =
     \<lparr>rc_subgroup_ops = False, rc_f16 = False, rc_bf16 = False, rc_f64 = False, rc_async_dispatch = False,
      rc_indirect_dispatch = False, rc_tensor_ops = False, rc_trap = False, rc_distributed_collectives = False,
      rc_local_single_rank_collectives = 0, rc_transport_collectives = 0, rc_max_workgroup_size = (0, 0, 0),
      rc_static_storage_bytes = 0\<rparr>"

definition caps_union :: "required_capabilities \<Rightarrow> required_capabilities \<Rightarrow> required_capabilities" where
  "caps_union a b =
     (let (ax, ay, az) = rc_max_workgroup_size a; (bx, by', bz) = rc_max_workgroup_size b in
      \<lparr>rc_subgroup_ops = rc_subgroup_ops a \<or> rc_subgroup_ops b, rc_f16 = rc_f16 a \<or> rc_f16 b,
       rc_bf16 = rc_bf16 a \<or> rc_bf16 b, rc_f64 = rc_f64 a \<or> rc_f64 b,
       rc_async_dispatch = rc_async_dispatch a \<or> rc_async_dispatch b,
       rc_indirect_dispatch = rc_indirect_dispatch a \<or> rc_indirect_dispatch b,
       rc_tensor_ops = rc_tensor_ops a \<or> rc_tensor_ops b, rc_trap = rc_trap a \<or> rc_trap b,
       rc_distributed_collectives = rc_distributed_collectives a \<or> rc_distributed_collectives b,
       rc_local_single_rank_collectives =
         min (2 ^ 64 - 1) (rc_local_single_rank_collectives a + rc_local_single_rank_collectives b),
       rc_transport_collectives = min (2 ^ 64 - 1) (rc_transport_collectives a + rc_transport_collectives b),
       rc_max_workgroup_size = (max ax bx, max ay by', max az bz),
       rc_static_storage_bytes = u64_saturating_add (rc_static_storage_bytes a) (rc_static_storage_bytes b)\<rparr>)"

definition scan_capabilities :: "program \<Rightarrow> required_capabilities" where
  "scan_capabilities p =
     (let stats = compute_stats p; plan = collective_transport_plan p in
      \<lparr>rc_subgroup_ops = has_capability stats CAP_SUBGROUP_OPS, rc_f16 = has_capability stats CAP_F16,
       rc_bf16 = has_capability stats CAP_BF16, rc_f64 = has_capability stats CAP_F64,
       rc_async_dispatch = has_capability stats CAP_ASYNC_DISPATCH,
       rc_indirect_dispatch = has_capability stats CAP_INDIRECT_DISPATCH,
       rc_tensor_ops = has_capability stats CAP_TENSOR_OPS, rc_trap = has_capability stats CAP_TRAP,
       rc_distributed_collectives = requires_transport plan,
       rc_local_single_rank_collectives = tp_local_single_rank plan,
       rc_transport_collectives = tp_multi_rank_transport plan,
       rc_max_workgroup_size = pg_workgroup_size p,
       rc_static_storage_bytes = ps_static_storage_bytes stats\<rparr>)"

text \<open>What a backend advertises, in the order of the parameters of the check.\<close>

record backend_support =
  bs_subgroup_ops :: bool
  bs_half_precision :: bool
  bs_brain_float :: bool
  bs_indirect_dispatch :: bool
  bs_trap_propagation :: bool
  bs_distributed_collectives :: bool
  bs_max_workgroup_size :: "u32 \<times> u32 \<times> u32"

definition push_if :: "bool \<Rightarrow> string \<Rightarrow> string list \<Rightarrow> string list" where
  "push_if c name missing = (if c then missing @ [name] else missing)"

definition check_axis :: "nat \<times> u32 \<times> u32 \<Rightarrow> string list \<Rightarrow> string list" where
  "check_axis a missing =
     (case a of (axis, req, limit) \<Rightarrow>
       if limit < req \<and> limit \<noteq> 0 then
         (if ''workgroup_size'' \<in> set missing then missing else missing @ [''workgroup_size'']) @
         [''workgroup_size axis '' @ decimal axis @ '' (requested '' @ decimal (unat req) @ '', max '' @
          decimal (unat limit) @ '')'']
       else missing)"

definition axes :: "u32 \<times> u32 \<times> u32 \<Rightarrow> u32 \<times> u32 \<times> u32 \<Rightarrow> (nat \<times> u32 \<times> u32) list" where
  "axes req limit = (case (req, limit) of ((rx, ry, rz), (lx, ly, lz)) \<Rightarrow> [(0, rx, lx), (1, ry, ly), (2, rz, lz)])"

definition check_backend_capabilities :: "backend_support \<Rightarrow> required_capabilities \<Rightarrow> string list + unit" where
  "check_backend_capabilities s r =
     (let missing = push_if (rc_subgroup_ops r \<and> \<not> bs_subgroup_ops s) ''subgroup_ops'' [];
          missing = push_if (rc_f16 r \<and> \<not> bs_half_precision s) ''f16'' missing;
          missing = push_if (rc_bf16 r \<and> \<not> bs_brain_float s) ''bf16'' missing;
          missing = push_if (rc_indirect_dispatch r \<and> \<not> bs_indirect_dispatch s) ''indirect_dispatch'' missing;
          missing = push_if (rc_trap r \<and> \<not> bs_trap_propagation s) ''trap_propagation'' missing;
          missing = (if rc_distributed_collectives r \<and> \<not> bs_distributed_collectives s
                     then missing @ [''distributed_collectives'',
                       ''distributed_collectives transport_collectives='' @ decimal (rc_transport_collectives r) @
                       '' local_single_rank_collectives='' @ decimal (rc_local_single_rank_collectives r)]
                     else missing);
          missing = fold check_axis (axes (rc_max_workgroup_size r) (bs_max_workgroup_size s)) missing in
      if missing = [] then Inr () else Inl missing)"

subsection \<open>The plan counts the collectives\<close>

fun collective_class :: "node \<Rightarrow> (transport_kind \<times> collective_node_kind) option" where
  "collective_class (N_AllReduce _ _ g) = Some (transport_kind_for_group g, CK_AllReduce)"
| "collective_class (N_AllGather _ _ g) = Some (transport_kind_for_group g, CK_AllGather)"
| "collective_class (N_ReduceScatter _ _ _ g) = Some (transport_kind_for_group g, CK_ReduceScatter)"
| "collective_class (N_Broadcast _ root g) =
     Some (if g = WORLD \<and> root = 0 then TK_LocalSingleRank else TK_MultiRankTransport, CK_Broadcast)"
| "collective_class _ = None"

definition node_classes :: "node \<Rightarrow> (transport_kind \<times> collective_node_kind) multiset" where
  "node_classes n = mset (List.map_filter collective_class (subnodes n))"

definition classes :: "node list \<Rightarrow> (transport_kind \<times> collective_node_kind) multiset" where
  "classes nodes = mset (List.map_filter collective_class (subnodes_list nodes))"

fun plan_ops :: "transport_kind \<Rightarrow> transport_plan \<Rightarrow> op_counts" where
  "plan_ops TK_LocalSingleRank plan = tp_local_ops plan"
| "plan_ops TK_MultiRankTransport plan = tp_transport_ops plan"

fun op_count :: "collective_node_kind \<Rightarrow> op_counts \<Rightarrow> nat" where
  "op_count CK_AllReduce c = oc_all_reduce c"
| "op_count CK_AllGather c = oc_all_gather c"
| "op_count CK_ReduceScatter c = oc_reduce_scatter c"
| "op_count CK_Broadcast c = oc_broadcast c"

definition plan_counts :: "transport_plan \<Rightarrow> (transport_kind \<times> collective_node_kind) multiset \<Rightarrow> bool" where
  "plan_counts plan M =
     (tp_local_single_rank plan = ops_total (tp_local_ops plan) \<and>
      tp_multi_rank_transport plan = ops_total (tp_transport_ops plan) \<and>
      (\<forall>t k. op_count k (plan_ops t plan) = count M (t, k)))"

lemma op_count_record: "op_count k' (record_op k c) = op_count k' c + (if k' = k then 1 else 0)"
  by (cases k; cases k') simp_all

lemma ops_total_record: "ops_total (record_op k c) = ops_total c + 1"
  by (cases k) (simp_all add: ops_total_def)

lemma plan_ops_record:
  "plan_ops t' (record_collective t k plan) = (if t' = t then record_op k (plan_ops t' plan) else plan_ops t' plan)"
  by (cases t; cases t') simp_all

lemma plan_counts_record:
  assumes "plan_counts plan M"
  shows "plan_counts (record_collective t k plan) (add_mset (t, k) M)"
proof -
  have "op_count k' (plan_ops t' (record_collective t k plan)) = count (add_mset (t, k) M) (t', k')" for t' k'
    using assms by (simp add: plan_counts_def plan_ops_record op_count_record)
  with assms show ?thesis by (cases t) (simp_all add: plan_counts_def ops_total_record)
qed

definition stack_classes :: "node list list \<Rightarrow> (transport_kind \<times> collective_node_kind) multiset" where
  "stack_classes stack = sum_list (map classes stack)"

lemma subnodes_list_append: "subnodes_list (xs @ ys) = subnodes_list xs @ subnodes_list ys"
  by (induction xs) simp_all

lemma classes_simps [simp]:
  "classes [] = {#}"
  "classes (n # ns) = node_classes n + classes ns"
  "stack_classes [] = {#}"
  "stack_classes (ns # stack) = classes ns + stack_classes stack"
  by (simp_all add: classes_def node_classes_def stack_classes_def List.map_filter_def)

lemma plan_node_counts:
  assumes "plan_counts plan M"
  shows "\<exists>M'. plan_counts (snd (plan_node n (stack, plan))) M' \<and>
    M' + stack_classes (fst (plan_node n (stack, plan))) = M + node_classes n + stack_classes stack"
proof (cases "collective_class n")
  case None
  then have "snd (plan_node n (stack, plan)) = plan" by (cases n) simp_all
  moreover from None have "stack_classes (fst (plan_node n (stack, plan))) = node_classes n + stack_classes stack"
    by (cases n) (simp_all add: node_classes_def classes_def List.map_filter_def)
  ultimately show ?thesis using assms by (intro exI[of _ M]) simp
next
  case (Some tk)
  obtain t k where tk: "tk = (t, k)" by (cases tk)
  have "plan_node n (stack, plan) = (stack, record_collective t k plan)" "node_classes n = {#(t, k)#}"
    using Some tk by (cases n; auto simp: node_classes_def List.map_filter_def)+
  with plan_counts_record[OF assms, of t k] show ?thesis by (intro exI[of _ "add_mset (t, k) M"]) simp
qed

lemma fold_plan_node_counts:
  "plan_counts (snd s) M \<Longrightarrow> \<exists>M'. plan_counts (snd (fold plan_node nodes s)) M' \<and>
    M' + stack_classes (fst (fold plan_node nodes s)) = M + classes nodes + stack_classes (fst s)"
proof (induction nodes arbitrary: s M)
  case (Cons n nodes)
  obtain M1 where "plan_counts (snd (plan_node n s)) M1"
    and eq: "M1 + stack_classes (fst (plan_node n s)) = M + node_classes n + stack_classes (fst s)"
    using plan_node_counts[OF Cons.prems, of n "fst s"] by auto
  from Cons.IH[OF this(1)] obtain M' where "plan_counts (snd (fold plan_node (n # nodes) s)) M'"
    "M' + stack_classes (fst (fold plan_node (n # nodes) s)) = M1 + classes nodes + stack_classes (fst (plan_node n s))"
    by auto
  with eq show ?case by (intro exI[of _ M']) (simp add: ac_simps)
qed auto

lemma record_nodes_counts:
  "plan_counts plan M \<Longrightarrow> plan_counts (record_nodes_transport_plan stack plan) (M + stack_classes stack)"
proof (induction stack plan arbitrary: M rule: record_nodes_transport_plan.induct)
  case (2 nodes stack plan)
  obtain M' where "plan_counts (snd (fold plan_node nodes (stack, plan))) M'"
    and eq: "M' + stack_classes (fst (fold plan_node nodes (stack, plan))) = M + classes nodes + stack_classes stack"
    using fold_plan_node_counts[of "(stack, plan)" M nodes] 2(2) by auto
  from 2(1)[OF refl this(1)] eq show ?case by (simp add: Let_def ac_simps)
qed simp

lemma plan_exact: "plan_counts (collective_transport_plan p) (classes (pg_entry p))"
proof -
  have "plan_counts no_plan {#}"
    unfolding plan_counts_def
  proof (intro conjI allI)
    show "op_count k (plan_ops t no_plan) = count {#} (t, k)" for t k
      by (cases k; cases t) (simp_all add: no_plan_def no_ops_def)
  qed (simp_all add: no_plan_def no_ops_def ops_total_def)
  from record_nodes_counts[OF this, of "[pg_entry p]"] show ?thesis by (simp add: collective_transport_plan_def)
qed

subsection \<open>The capability bit\<close>

definition is_collective :: "node \<Rightarrow> bool" where
  "is_collective n = (collective_class n \<noteq> None)"

lemma collective_bit_apart:
  "\<not> bit CAP_SUBGROUP_OPS 8" "\<not> bit CAP_F16 8" "\<not> bit CAP_BF16 8" "\<not> bit CAP_F64 8" "\<not> bit CAP_ASYNC_DISPATCH 8"
  "\<not> bit CAP_INDIRECT_DISPATCH 8" "\<not> bit CAP_TENSOR_OPS 8" "\<not> bit CAP_TRAP 8" "bit CAP_DISTRIBUTED_COLLECTIVES 8"
  by (simp_all add: CAP_SUBGROUP_OPS_def CAP_F16_def CAP_BF16_def CAP_F64_def CAP_ASYNC_DISPATCH_def
      CAP_INDIRECT_DISPATCH_def CAP_TENSOR_OPS_def CAP_TRAP_def CAP_DISTRIBUTED_COLLECTIVES_def)

lemma mark_datatype_collective [simp]: "bit (mark_datatype_bits ty bits) 8 = bit bits 8"
  by (cases "(ty, bits)" rule: mark_datatype_bits.cases) (simp_all add: bit_or_iff collective_bit_apart)

lemma walk_expr_collective [simp]:
  "bit (wk_bits (walk_expr e w)) 8 = bit (wk_bits w) 8"
  "bit (wk_bits (walk_exprs es w)) 8 = bit (wk_bits w) 8"
  by (induction e w and es w rule: walk_expr_walk_exprs.induct) (simp_all add: bit_or_iff collective_bit_apart)

lemma walk_nodes_collective:
  "bit (wk_bits (walk_node n w)) 8 \<longleftrightarrow> bit (wk_bits w) 8 \<or> list_ex is_collective (subnodes n)"
  "bit (wk_bits (walk_nodes ns w)) 8 \<longleftrightarrow> bit (wk_bits w) 8 \<or> list_ex is_collective (subnodes_list ns)"
  "bit (wk_bits (walk_arm n w)) 8 \<longleftrightarrow> bit (wk_bits w) 8 \<or> is_collective n \<or> list_ex is_collective (below n)"
  by (induction n w and ns w and n w rule: walk_node_walk_nodes_walk_arm.induct)
     (auto simp: Let_def bit_or_iff collective_bit_apart is_collective_def)

lemma collective_capability:
  "has_capability (compute_stats p) CAP_DISTRIBUTED_COLLECTIVES \<longleftrightarrow> list_ex is_collective (subnodes_list (pg_entry p))"
proof -
  have "bit (foldl (\<lambda>bits b. mark_datatype_bits (bd_element b) bits) acc bs) 8 = bit acc 8" for acc and bs :: "buffer_decl list"
    by (induction bs arbitrary: acc) simp_all
  moreover have "bit CAP_DISTRIBUTED_COLLECTIVES i \<longleftrightarrow> i = 8" for i
  proof -
    have "CAP_DISTRIBUTED_COLLECTIVES = push_bit 8 1" by (simp add: CAP_DISTRIBUTED_COLLECTIVES_def)
    then have "bit CAP_DISTRIBUTED_COLLECTIVES i = bit (push_bit 8 (1 :: u32)) i" by (simp only:)
    then show ?thesis by (auto simp only: bit_push_bit_iff bit_1_iff) auto
  qed
  then have "w AND CAP_DISTRIBUTED_COLLECTIVES \<noteq> 0 \<longleftrightarrow> bit w 8" for w :: u32
    by (simp add: and_neq_0_iff)
  ultimately show ?thesis by (simp add: has_capability_def compute_stats_def Let_def walk_nodes_collective)
qed

subsection \<open>Lowering\<close>

definition needs_transport :: "node \<Rightarrow> bool" where
  "needs_transport n = (\<exists>k. collective_class n = Some (TK_MultiRankTransport, k))"

lemma collective_cases [simp]:
  "is_collective (N_AllReduce b op g)" "is_collective (N_AllGather i out g)" "is_collective (N_ReduceScatter i out op g)"
  "is_collective (N_Broadcast b root g)" "\<not> is_collective (N_Let x e)" "\<not> is_collective (N_If c t f)"
  "\<not> is_collective (N_Store b j e)" "\<not> is_collective (N_Loop v e1 e2 body)" "\<not> is_collective (N_Block body)"
  "\<not> is_collective (N_Region gen src body)"
  "needs_transport (N_AllReduce b op g) = (g \<noteq> WORLD)" "needs_transport (N_AllGather i out g) = (g \<noteq> WORLD)"
  "needs_transport (N_ReduceScatter i out op g) = (g \<noteq> WORLD)"
  "needs_transport (N_Broadcast b root g) = (g \<noteq> WORLD \<or> root \<noteq> 0)"
  by (simp_all add: is_collective_def needs_transport_def transport_kind_for_group_def)

lemma needs_transport_collective: "\<not> is_collective n \<Longrightarrow> \<not> needs_transport n"
  by (simp add: is_collective_def needs_transport_def)

definition lowered_to :: "node list \<Rightarrow> lowering_state \<Rightarrow> node list \<Rightarrow> lowering_state \<Rightarrow> bool" where
  "lowered_to ns st out st' =
     (list_all (\<lambda>m. \<not> is_collective m) (subnodes_list out) \<and> list_all (\<lambda>m. \<not> needs_transport m) ns \<and>
      ls_lowered st' = ls_lowered st + length (filter is_collective ns))"

lemma lowered_to_append:
  "lowered_to xs st out st1 \<Longrightarrow> lowered_to ys st1 outs st2 \<Longrightarrow> lowered_to (xs @ ys) st (out @ outs) st2"
  by (simp add: lowered_to_def subnodes_list_append)

lemma lowered_to_wrap:
  "lowered_to xs st out st' \<Longrightarrow> \<not> is_collective n \<Longrightarrow> \<not> is_collective n' \<Longrightarrow> below n' = subnodes_list out \<Longrightarrow>
    lowered_to (n # xs) st [n'] st'"
  by (simp add: lowered_to_def needs_transport_collective)

lemma lowered_to_same: "\<not> is_collective n \<Longrightarrow> below n = [] \<Longrightarrow> lowered_to [n] st [n] st"
  by (simp add: lowered_to_def needs_transport_collective)

lemma lowered_to_drop: "is_collective n \<Longrightarrow> \<not> needs_transport n \<Longrightarrow> lowered_to [n] st [] (count_lowered st)"
  by (simp add: lowered_to_def count_lowered_def)

lemma lowered_to_copy:
  "is_collective n \<Longrightarrow> \<not> needs_transport n \<Longrightarrow> single_rank_copy i out (count_lowered st) = (ns, st') \<Longrightarrow>
    lowered_to [n] st ns st'"
  by (auto simp: lowered_to_def single_rank_copy_def Let_def count_lowered_def)

lemma rewrite_ok:
  "rewrite_node n st = Inr (out, st') \<Longrightarrow> lowered_to (subnodes n) st out st'"
  "rewrite_nodes ns st = Inr (out, st') \<Longrightarrow> lowered_to (subnodes_list ns) st out st'"
proof (induction n st and ns st arbitrary: out st' and out st' rule: rewrite_node_rewrite_nodes.induct)
  case (5 c t f st)
  then obtain t' st1 f' where "rewrite_nodes t st = Inr (t', st1)" "rewrite_nodes f st1 = Inr (f', st')" "out = [N_If c t' f']"
    by (auto simp: rbind_eq_Inr)
  with 5(1) 5(2)[OF _ refl] show ?case
    by (auto simp: subnodes_list_append intro!: lowered_to_wrap lowered_to_append)
next
  case (11 n ns st)
  then obtain o1 st1 o2 where "rewrite_node n st = Inr (o1, st1)" "rewrite_nodes ns st1 = Inr (o2, st')" "out = o1 @ o2"
    by (auto simp: rbind_eq_Inr)
  with 11(1) 11(2)[OF _ refl] show ?case by (auto intro: lowered_to_append simp del: subnodes.simps)
qed (auto simp: rbind_eq_Inr require_world_group_def is_collective_def lowered_to_def[of "[]"]
    intro!: lowered_to_wrap lowered_to_same lowered_to_drop lowered_to_copy split: if_splits)

lemma rewrite_error:
  "rewrite_node n st = Inl e \<Longrightarrow> list_ex needs_transport (subnodes n)"
  "rewrite_nodes ns st = Inl e \<Longrightarrow> list_ex needs_transport (subnodes_list ns)"
  by (induction n st and ns st rule: rewrite_node_rewrite_nodes.induct)
    (auto simp: rbind_eq_Inl require_world_group_def split: if_splits)

lemma classes_iff: "(t, k) \<in># classes nodes \<longleftrightarrow> (\<exists>n\<in>set (subnodes_list nodes). collective_class n = Some (t, k))"
  by (force simp: classes_def List.map_filter_def)

lemma ops_total_zero: "ops_total c = 0 \<longleftrightarrow> (\<forall>k. op_count k c = 0)"
proof
  show "ops_total c = 0 \<Longrightarrow> \<forall>k. op_count k c = 0"
  proof
    show "ops_total c = 0 \<Longrightarrow> op_count k c = 0" for k by (cases k) (simp_all add: ops_total_def)
  qed
  show "\<forall>k. op_count k c = 0 \<Longrightarrow> ops_total c = 0"
    by (metis ops_total_def op_count.simps add_0)
qed

lemma plan_total_zero:
  "plan_counts plan M \<Longrightarrow> ops_total (plan_ops t plan) = 0 \<longleftrightarrow> (\<forall>k. (t, k) \<notin># M)"
  by (simp add: ops_total_zero plan_counts_def count_eq_zero_iff)

lemma requires_transport_iff:
  "requires_collective_transport p \<longleftrightarrow> list_ex needs_transport (subnodes_list (pg_entry p))"
  using plan_exact[of p] plan_total_zero[OF plan_exact[of p], of TK_MultiRankTransport]
  by (auto simp: requires_collective_transport_def requires_transport_def plan_counts_def classes_iff
      list_ex_iff needs_transport_def)

lemma plan_empty_iff:
  "plan_is_empty (collective_transport_plan p) \<longleftrightarrow> \<not> list_ex is_collective (subnodes_list (pg_entry p))"
proof -
  have "plan_is_empty (collective_transport_plan p) \<longleftrightarrow> (\<forall>t k. (t, k) \<notin># classes (pg_entry p))"
    using plan_exact[of p] plan_total_zero[OF plan_exact[of p], of TK_MultiRankTransport]
      plan_total_zero[OF plan_exact[of p], of TK_LocalSingleRank]
    by (auto simp: plan_is_empty_def plan_counts_def) (metis transport_kind.exhaust)
  then show ?thesis by (auto simp: classes_iff list_ex_iff is_collective_def)
qed

text \<open>
  C17.  Lowering fails closed and completely: it is refused exactly when the transport plan finds a collective that
  needs transport between ranks, it changes nothing exactly when there is no collective, and a
  lowered program has no collective left.
\<close>

theorem collectives_lowered_or_refused:
  "case lower_single_rank_collectives p of
     Inl _ \<Rightarrow> requires_collective_transport p
   | Inr None \<Rightarrow> plan_is_empty (collective_transport_plan p)
   | Inr (Some q) \<Rightarrow> \<not> requires_collective_transport p \<and> \<not> plan_is_empty (collective_transport_plan p) \<and>
       plan_is_empty (collective_transport_plan q) \<and> q = with_rewritten_entry p (pg_entry q)"
proof (cases "list_ex is_collective (subnodes_list (pg_entry p))")
  case False
  then show ?thesis by (simp add: lower_single_rank_collectives_def collective_capability plan_empty_iff)
next
  case True
  show ?thesis
  proof (cases "rewrite_nodes (pg_entry p) \<lparr>ls_lowered = 0, ls_next_copy_id = 0\<rparr>")
    case (Inl e)
    then show ?thesis
      using True rewrite_error(2)[OF Inl]
      by (simp add: lower_single_rank_collectives_def collective_capability requires_transport_iff)
  next
    case (Inr r)
    then obtain entry st where r: "rewrite_nodes (pg_entry p) \<lparr>ls_lowered = 0, ls_next_copy_id = 0\<rparr> = Inr (entry, st)"
      by (cases r) simp
    have "ls_lowered st \<noteq> 0" using True rewrite_ok(2)[OF r] by (auto simp: lowered_to_def list_ex_iff filter_empty_conv)
    with True r rewrite_ok(2)[OF r] show ?thesis
      by (auto simp: lower_single_rank_collectives_def collective_capability requires_transport_iff plan_empty_iff
          with_rewritten_entry_def lowered_to_def list_ex_iff list_all_iff)
  qed
qed

definition axis_fits :: "u32 \<Rightarrow> u32 \<Rightarrow> bool" where
  "axis_fits req limit = (req \<le> limit \<or> limit = 0)"

definition supported :: "backend_support \<Rightarrow> required_capabilities \<Rightarrow> bool" where
  "supported s r =
     ((rc_subgroup_ops r \<longrightarrow> bs_subgroup_ops s) \<and> (rc_f16 r \<longrightarrow> bs_half_precision s) \<and>
      (rc_bf16 r \<longrightarrow> bs_brain_float s) \<and> (rc_indirect_dispatch r \<longrightarrow> bs_indirect_dispatch s) \<and>
      (rc_trap r \<longrightarrow> bs_trap_propagation s) \<and> (rc_distributed_collectives r \<longrightarrow> bs_distributed_collectives s) \<and>
      list_all (\<lambda>(_, req, limit). axis_fits req limit) (axes (rc_max_workgroup_size r) (bs_max_workgroup_size s)))"

lemma check_axis_empty:
  "check_axis a missing = [] \<longleftrightarrow> missing = [] \<and> (case a of (_, req, limit) \<Rightarrow> axis_fits req limit)"
  by (auto simp: check_axis_def axis_fits_def split: prod.split)

lemma fold_check_axis_empty:
  "fold check_axis as missing = [] \<longleftrightarrow> missing = [] \<and> list_all (\<lambda>(_, req, limit). axis_fits req limit) as"
  by (induction as arbitrary: missing) (auto simp: check_axis_empty)

lemma check_iff: "check_backend_capabilities s r = Inr () \<longleftrightarrow> supported s r"
  by (auto simp: check_backend_capabilities_def supported_def Let_def push_if_def fold_check_axis_empty)

lemma axis_fits_max: "axis_fits (max x y) limit \<longleftrightarrow> axis_fits x limit \<and> axis_fits y limit"
  by (auto simp: axis_fits_def)

lemma supported_union: "supported s (caps_union r r') \<longleftrightarrow> supported s r \<and> supported s r'"
  by (cases "rc_max_workgroup_size r"; cases "rc_max_workgroup_size r'"; cases "bs_max_workgroup_size s")
    (simp add: supported_def caps_union_def axes_def axis_fits_max imp_disjL conj_ac)

text \<open>
  C29.  The capability check is exact for what it compares and ignores the rest: it accepts a program exactly when
  every required capability it looks at is supported; a set of programs is accepted together
  exactly when each is; and 64-bit floats, asynchronous copies and tensor operands are never checked.
\<close>

theorem capability_check_exact:
  "(check_backend_capabilities s r = Inr ()) = supported s r \<and>
   (check_backend_capabilities s (caps_union r r') = Inr ()) =
     (check_backend_capabilities s r = Inr () \<and> check_backend_capabilities s r' = Inr ()) \<and>
   check_backend_capabilities s (r\<lparr>rc_f64 := f, rc_async_dispatch := a, rc_tensor_ops := t\<rparr>) =
     check_backend_capabilities s r"
proof (intro conjI)
  show "(check_backend_capabilities s r = Inr ()) = supported s r" by (rule check_iff)
  show "(check_backend_capabilities s (caps_union r r') = Inr ()) =
      (check_backend_capabilities s r = Inr () \<and> check_backend_capabilities s r' = Inr ())"
    unfolding check_iff by (rule supported_union)
qed (simp add: check_backend_capabilities_def cong: if_cong)

end
