(* ===== verification/Ref_Run.thy ===== *)
theory Ref_Run
  imports Ref_Sem Ir_Collectives
begin

text \<open>
  A whole dispatch of the reference interpreter: preparing the program (\<open>program_for_interpreter\<close> in
  \<open>vyre-reference/src/execution/mod.rs\<close>), binding inputs to buffers, sizing the grid, running every workgroup and
  collecting the outputs (\<open>run_hashmap_reference\<close> in \<open>execution/hashmap/mod.rs\<close>, after its validation of the
  program), with \<open>create_invocations\<close> of \<open>state.rs\<close> and \<open>element_count\<close> of \<open>sync.rs\<close>.  The grid of a workgroup
  shape with several axes is sized with the platform's \<open>f64::powf\<close>, which is the parameter \<open>root\<close>.
\<close>

subsection \<open>Preparing the program\<close>

fun is_store :: "node \<Rightarrow> bool" where
  "is_store (N_Store _ _ _) = True"
| "is_store _ = False"

datatype prepare_error = PE_TopLevelRegion | PE_Collective collective_error

definition program_for_interpreter :: "program \<Rightarrow> prepare_error + program" where
  "program_for_interpreter p =
     rbind (if top_level_region_violation p \<noteq> None then
              (if pg_entry p = [] \<or> is_store (hd (pg_entry p)) then Inl PE_TopLevelRegion
               else Inr (reconcile_runnable_top_level p))
            else Inr p) (\<lambda>normalized.
     case lower_single_rank_collectives normalized of
       Inr (Some lowered) \<Rightarrow> Inr lowered
     | Inr None \<Rightarrow> Inr normalized
     | Inl e \<Rightarrow> Inl (PE_Collective e))"

subsection \<open>Binding the buffers\<close>

definition backend_allocated_output :: "buffer_decl \<Rightarrow> bool" where
  "backend_allocated_output d =
     (bd_is_output d \<or> bd_access d = BA_WriteOnly \<or> (bd_pipeline_live_out d \<and> bd_access d = BA_ReadWrite))"

definition declared_min_byte_len :: "buffer_decl \<Rightarrow> interp_error + nat" where
  "declared_min_byte_len d =
     (case static_byte_len d of
        Inr (Some n) \<Rightarrow> Inr (unat n)
      | Inr None \<Rightarrow> if bd_count d = 0 then Inr 0 else Inl (IE_Run (RE_BufferLayout (bd_name d)))
      | Inl _ \<Rightarrow> Inl (IE_Run (RE_BufferLayout (bd_name d))))"

definition u32_count :: "string \<Rightarrow> nat \<Rightarrow> interp_error + u32" where
  "u32_count name n = (if n < 2 ^ 32 then Inr (of_nat n) else Inl (IE_Run (RE_BufferLayout name)))"

definition element_count :: "buffer_decl \<Rightarrow> nat \<Rightarrow> interp_error + u32" where
  "element_count d byte_len =
     (case bit_width (bd_element d) of
        Some bits \<Rightarrow>
          if usize_bound \<le> byte_len * 8 then Inl (IE_Run (RE_BufferLayout (bd_name d)))
          else if bits = 0 then Inl IE_Panic
          else u32_count (bd_name d) (byte_len * 8 div unat bits)
      | None \<Rightarrow>
          (case size_bytes (bd_element d) of
             None \<Rightarrow> Inl (IE_Run (RE_BufferLayout (bd_name d)))
           | Some stride \<Rightarrow>
               if stride = 0 then u32_count (bd_name d) byte_len
               else u32_count (bd_name d) (byte_len div unat stride)))"

record binding =
  bn_storage :: buffer_map
  bn_input_index :: nat
  bn_output_decls :: "buffer_decl list"
  bn_max_output_elements :: u32
  bn_max_input_elements :: u32
  bn_graph_node_count :: "u32 option"
  bn_has_workgroup_buffer :: bool

definition no_binding :: binding where
  "no_binding =
     \<lparr>bn_storage = [], bn_input_index = 0, bn_output_decls = [], bn_max_output_elements = 0, bn_max_input_elements = 1,
      bn_graph_node_count = None, bn_has_workgroup_buffer = False\<rparr>"

definition nth_input :: "buffer_decl \<Rightarrow> ref_value list \<Rightarrow> nat \<Rightarrow> interp_error + ref_value" where
  "nth_input d inputs i = (if i < length inputs then Inr (inputs ! i) else Inl (IE_Run (RE_MissingInput (bd_name d))))"

text \<open>The bytes a buffer starts with, and the index of the next input.\<close>

definition initial_bytes :: "bool \<Rightarrow> ref_value list \<Rightarrow> buffer_decl \<Rightarrow> nat \<Rightarrow> nat \<Rightarrow> interp_error + bytes \<times> nat" where
  "initial_bytes legacy inputs d required i =
     (if backend_allocated_output d then
        (if legacy then rbind (nth_input d inputs i) (\<lambda>_. Inr (replicate required 0, i + 1))
         else Inr (replicate required 0, i))
      else rbind (nth_input d inputs i) (\<lambda>v. Inr (to_bytes v, i + 1)))"

definition note_elements :: "buffer_decl \<Rightarrow> u32 \<Rightarrow> binding \<Rightarrow> binding" where
  "note_elements d elements bn =
     (if backend_allocated_output d \<or> bd_access d = BA_ReadWrite
      then bn\<lparr>bn_max_output_elements := max (bn_max_output_elements bn) elements,
               bn_output_decls := bn_output_decls bn @ [d]\<rparr>
      else bn\<lparr>bn_max_input_elements := max (bn_max_input_elements bn) elements\<rparr>)"

definition bind_buffer :: "bool \<Rightarrow> ref_value list \<Rightarrow> buffer_decl \<Rightarrow> binding \<Rightarrow> interp_error + binding" where
  "bind_buffer legacy inputs d bn =
     (if bd_access d = BA_Workgroup then Inr (bn\<lparr>bn_has_workgroup_buffer := True\<rparr>)
      else
        let bn = (if bd_binding d = 0 \<and> bd_name d = ''pg_nodes''
                  then bn\<lparr>bn_graph_node_count := Some (bd_count d)\<rparr> else bn) in
        rbind (declared_min_byte_len d) (\<lambda>required.
        rbind (initial_bytes legacy inputs d required (bn_input_index bn)) (\<lambda>(bytes, i).
          if length bytes < required then Inl (IE_Run (RE_ShortInput (bd_name d)))
          else
            rbind (element_count d (length bytes)) (\<lambda>elements.
              Inr (note_elements d elements
                (bn\<lparr>bn_input_index := i,
                     bn_storage := AList.update (bd_name d) \<lparr>rb_bytes = bytes, rb_element = bd_element d\<rparr>
                                     (bn_storage bn)\<rparr>))))))"

fun bind_buffers :: "bool \<Rightarrow> ref_value list \<Rightarrow> buffer_decl list \<Rightarrow> binding \<Rightarrow> interp_error + binding" where
  "bind_buffers legacy inputs [] bn = Inr bn"
| "bind_buffers legacy inputs (d # ds) bn =
     rbind (bind_buffer legacy inputs d bn) (\<lambda>bn. bind_buffers legacy inputs ds bn)"

definition legacy_input_mode :: "program \<Rightarrow> ref_value list \<Rightarrow> bool" where
  "legacy_input_mode p inputs =
     (let logical_input_count =
            length (filter (\<lambda>d. bd_access d \<noteq> BA_Workgroup \<and> \<not> backend_allocated_output d) (pg_buffers p));
          legacy_input_count = length (filter (\<lambda>d. bd_access d \<noteq> BA_Workgroup) (pg_buffers p)) in
      length inputs = legacy_input_count \<and> length inputs \<noteq> logical_input_count)"

subsection \<open>The grid\<close>

definition u32_saturating_mul :: "u32 \<Rightarrow> u32 \<Rightarrow> u32" where
  "u32_saturating_mul a b = (if unat a * unat b < 2 ^ 32 then a * b else - 1)"

fun invocations_per_workgroup :: "u32 \<times> u32 \<times> u32 \<Rightarrow> u32" where
  "invocations_per_workgroup (sx, sy, sz) =
     max (u32_saturating_mul (u32_saturating_mul (u32_saturating_mul 1 sx) sy) sz) 1"

definition dispatch_elements :: "program \<Rightarrow> binding \<Rightarrow> u32" where
  "dispatch_elements p bn =
     (let force_full_span = bn_has_workgroup_buffer bn \<or> 0 < ps_atomic_op_count (compute_stats p) in
      max (max (max (bn_max_output_elements bn) (case bn_graph_node_count bn of None \<Rightarrow> 0 | Some c \<Rightarrow> c)) 1)
        (if bn_output_decls bn = [] \<or> force_full_span then bn_max_input_elements bn else 1))"

definition div_ceil :: "u32 \<Rightarrow> u32 \<Rightarrow> u32" where
  "div_ceil a b = of_nat ((unat a + unat b - 1) div unat b)"

fun workgroup_counts :: "(u32 \<Rightarrow> nat \<Rightarrow> u32) \<Rightarrow> u32 \<times> u32 \<times> u32 \<Rightarrow> u32 \<Rightarrow> u32 \<times> u32 \<times> u32" where
  "workgroup_counts root (sx, sy, sz) total_wg =
     (let active = length (filter (\<lambda>s. 1 < s) [sx, sy, sz]); n = max active 1 in
      if active = 0 then (total_wg, 1, 1)
      else let base = max (root total_wg n) 1;
               count = (\<lambda>s. if 1 < s then base else 1) in
        (count sx, count sy, count sz))"

definition u32s_below :: "u32 \<Rightarrow> u32 list" where
  "u32s_below n = map of_nat [0..<unat n]"

fun grid :: "u32 \<times> u32 \<times> u32 \<Rightarrow> (u32 \<times> u32 \<times> u32) list" where
  "grid (cx, cy, cz) =
     concat (map (\<lambda>z. concat (map (\<lambda>y. map (\<lambda>x. (x, y, z)) (u32s_below cx)) (u32s_below cy))) (u32s_below cz))"

definition global_dim :: "u32 \<Rightarrow> u32 \<Rightarrow> u32 \<Rightarrow> interp_error + u32" where
  "global_dim wgid sz local =
     (if 2 ^ 32 \<le> unat wgid * unat sz \<or> 2 ^ 32 \<le> unat wgid * unat sz + unat local
      then Inl (IE_Run RE_GlobalIdOverflow) else Inr (wgid * sz + local))"

fun invocation_ids :: "u32 \<times> u32 \<times> u32 \<Rightarrow> u32 \<times> u32 \<times> u32 \<Rightarrow> u32 \<times> u32 \<times> u32 \<Rightarrow> interp_error + inv_ids" where
  "invocation_ids (sx, sy, sz) (wx, wy, wz) (x, y, z) =
     rbind (global_dim wx sx x) (\<lambda>gx. rbind (global_dim wy sy y) (\<lambda>gy. rbind (global_dim wz sz z) (\<lambda>gz.
       Inr \<lparr>ids_global = (gx, gy, gz), ids_workgroup = (wx, wy, wz), ids_local = (x, y, z)\<rparr>)))"

fun make_invocations ::
  "u32 \<times> u32 \<times> u32 \<Rightarrow> u32 \<times> u32 \<times> u32 \<Rightarrow> node list \<Rightarrow> nat \<Rightarrow> (u32 \<times> u32 \<times> u32) list \<Rightarrow>
    interp_error + invocation list" where
  "make_invocations s wg entry i [] = Inr []"
| "make_invocations s wg entry i (l # ls) =
     rbind (invocation_ids s wg l) (\<lambda>ids.
     rbind (make_invocations s wg entry (i + 1) ls) (\<lambda>ivs. Inr (new_invocation ids (of_nat i) entry # ivs)))"

definition create_invocations :: "program \<Rightarrow> u32 \<times> u32 \<times> u32 \<Rightarrow> node list \<Rightarrow> interp_error + invocation list" where
  "create_invocations p wg entry =
     (case pg_workgroup_size p of (sx, sy, sz) \<Rightarrow>
        if 2 ^ 32 \<le> unat sx * unat sy \<or> 2 ^ 32 \<le> unat sx * unat sy * unat sz
        then Inl (IE_Run RE_InvocationCount)
        else make_invocations (sx, sy, sz) wg entry 0 (grid (sx, sy, sz)))"

subsection \<open>The dispatch\<close>

fun run_workgroups ::
  "host \<Rightarrow> bool \<Rightarrow> program \<Rightarrow> (u32 \<times> u32 \<times> u32) list \<Rightarrow> memory \<Rightarrow> (interp_error + memory) option" where
  "run_workgroups h uses p [] m = Some (Inr m)"
| "run_workgroups h uses p (wg # wgs) m =
     (case rbind (reset_workgroup m p) (\<lambda>m. rbind (create_invocations p wg (pg_entry p)) (\<lambda>ivs. Inr (ivs, m))) of
        Inl e \<Rightarrow> Some (Inl e)
      | Inr (ivs, m) \<Rightarrow>
          (case run_invocations h uses ivs m of
             None \<Rightarrow> None
           | Some (Inl e) \<Rightarrow> Some (Inl e)
           | Some (Inr m) \<Rightarrow> run_workgroups h uses p wgs m))"

fun collect_outputs :: "buffer_map \<Rightarrow> buffer_decl list \<Rightarrow> interp_error + ref_value list" where
  "collect_outputs storage [] = Inr []"
| "collect_outputs storage (d # ds) =
     (case map_of storage (bd_name d) of
        None \<Rightarrow> Inl (IE_Run (RE_MissingOutput (bd_name d)))
      | Some b \<Rightarrow>
          rbind (collect_outputs (AList.delete (bd_name d) storage) ds) (\<lambda>vs. Inr (output_value b d # vs)))"

definition bind_inputs :: "program \<Rightarrow> ref_value list \<Rightarrow> interp_error + binding" where
  "bind_inputs p inputs =
     rbind (bind_buffers (legacy_input_mode p inputs) inputs (pg_buffers p) no_binding) (\<lambda>bn.
       if bn_input_index bn \<noteq> length inputs then Inl (IE_Run RE_UnusedInput)
       else case pg_workgroup_size p of (sx, sy, sz) \<Rightarrow>
         if sx = 0 \<or> sy = 0 \<or> sz = 0 then Inl (IE_Run RE_ZeroWorkgroup) else Inr bn)"

definition run_dispatch ::
  "host \<Rightarrow> (u32 \<Rightarrow> nat \<Rightarrow> u32) \<Rightarrow> program \<Rightarrow> ref_value list \<Rightarrow> (interp_error + ref_value list) option" where
  "run_dispatch h root p inputs =
     (case bind_inputs p inputs of
        Inl e \<Rightarrow> Some (Inl e)
      | Inr bn \<Rightarrow>
          let total_wg = max (div_ceil (dispatch_elements p bn) (invocations_per_workgroup (pg_workgroup_size p))) 1;
              counts = workgroup_counts root (pg_workgroup_size p) total_wg;
              uses = rc_subgroup_ops (scan_capabilities p) in
          map_option (\<lambda>r. rbind r (\<lambda>m. collect_outputs (mem_storage m) (bn_output_decls bn)))
            (run_workgroups h uses p (grid counts) \<lparr>mem_storage = bn_storage bn, mem_workgroup = []\<rparr>))"

subsection \<open>The layout of the memory through a dispatch\<close>

definition shape_of :: "ref_buffer \<Rightarrow> data_type \<times> nat" where
  "shape_of b = (rb_element b, length (rb_bytes b))"

lemma map_of_layout: "map_option shape_of (map_of wg name) = map_of (layout wg) name"
  by (induction wg) (auto simp: layout_def shape_of_def)

lemma run_invocations_layout:
  assumes "run_invocations h uses ivs m = Some (Inr m')"
  shows "same_layout m m'"
proof -
  obtain ivs' where "run_loop h uses ivs m = Some (Inr (ivs', m'))"
    using assms by (auto simp: run_invocations_def rbind_eq_Inr split: if_splits)
  from lanes.run_keeps[OF this, of ivs m] show ?thesis by (simp add: same_lane_ops list_all2_same)
qed

lemma run_workgroups_layout:
  "run_workgroups h uses p wgs m = Some (Inr m') \<Longrightarrow> layout (mem_storage m') = layout (mem_storage m)"
proof (induction wgs arbitrary: m)
  case (Cons wg wgs)
  from Cons.prems obtain m1 ivs m2 where "reset_workgroup m p = Inr m1" "run_invocations h uses ivs m1 = Some (Inr m2)"
    "run_workgroups h uses p wgs m2 = Some (Inr m')"
    by (auto simp: rbind_eq_Inr split: sum.splits option.splits prod.splits)
  moreover from this(1) have "mem_storage m1 = mem_storage m"
    by (auto simp: reset_workgroup_def rbind_eq_Inr split: option.splits)
  ultimately show ?case
    using Cons.IH run_invocations_layout by (fastforce simp: same_layout_def)
qed simp

subsection \<open>The grid and its lanes\<close>

lemma unat_of_nat_below: "k < unat (n :: u32) \<Longrightarrow> unat (of_nat k :: u32) = k"
  using unsigned_less[of n, where 'a = nat] by (simp add: unat_of_nat)

lemma set_u32s_below: "set (u32s_below n) = {x. x < n}"
proof (intro equalityI subsetI)
  fix x assume "x \<in> {x. x < n}"
  then have "unat x \<in> {0..<unat n}" by (simp add: word_less_nat_alt)
  then have "of_nat (unat x) \<in> (of_nat :: nat \<Rightarrow> u32) ` {0..<unat n}" by (rule imageI)
  then show "x \<in> set (u32s_below n)" by (simp add: u32s_below_def)
qed (auto simp: u32s_below_def word_less_nat_alt unat_of_nat_below)

lemma length_u32s_below [simp]: "length (u32s_below n) = unat n"
  by (simp add: u32s_below_def)

lemma distinct_u32s_below: "distinct (u32s_below n)"
  by (auto simp: u32s_below_def distinct_map intro!: inj_onI dest: arg_cong[where f = unat] simp: unat_of_nat_below)

lemma grid_product:
  "grid (cx, cy, cz) =
     map (\<lambda>(z, y, x). (x, y, z)) (List.product (u32s_below cz) (List.product (u32s_below cy) (u32s_below cx)))"
  by (simp add: product_concat_map map_concat comp_def)

lemma set_grid: "set (grid (cx, cy, cz)) = {(x, y, z). x < cx \<and> y < cy \<and> z < cz}"
  unfolding grid_product by (auto simp: set_u32s_below image_iff)

lemma distinct_grid: "distinct (grid c)"
  by (cases c) (auto simp: grid_product distinct_map distinct_u32s_below distinct_product inj_on_def simp del: grid.simps)

lemma length_grid: "length (grid (cx, cy, cz)) = unat cx * unat cy * unat cz"
  unfolding grid_product by simp

fun global_id :: "u32 \<times> u32 \<times> u32 \<Rightarrow> u32 \<times> u32 \<times> u32 \<Rightarrow> u32 \<times> u32 \<times> u32 \<Rightarrow> u32 \<times> u32 \<times> u32" where
  "global_id (sx, sy, sz) (wx, wy, wz) (x, y, z) = (wx * sx + x, wy * sy + y, wz * sz + z)"

text \<open>The lanes of all workgroups of a grid, in the order they run.\<close>

definition lanes_of :: "program \<Rightarrow> u32 \<times> u32 \<times> u32 \<Rightarrow> invocation list" where
  "lanes_of p counts =
     concat (map (\<lambda>wg. case create_invocations p wg (pg_entry p) of Inr ivs \<Rightarrow> ivs | Inl _ \<Rightarrow> []) (grid counts))"

lemma make_invocations_ok:
  assumes "\<And>l. l \<in> set ls \<Longrightarrow> \<exists>ids. invocation_ids s wg l = Inr ids"
  shows "\<exists>ivs. make_invocations s wg entry i ls = Inr ivs"
  using assms
proof (induction ls arbitrary: i)
  case (Cons l ls)
  obtain ids where "invocation_ids s wg l = Inr ids" using Cons.prems[of l] by auto
  moreover obtain ivs where "make_invocations s wg entry (i + 1) ls = Inr ivs" using Cons by (metis list.set_intros(2))
  ultimately show ?case by simp
qed simp

lemma make_invocations_globals:
  "make_invocations s wg entry i ls = Inr ivs \<Longrightarrow>
    map (ids_global \<circ> iv_ids) ivs = map (global_id s wg) ls \<and> map (ids_local \<circ> iv_ids) ivs = ls"
proof (induction ls arbitrary: i ivs)
  case (Cons l ls)
  then show ?case
    by (cases s; cases wg; cases l) (auto simp: rbind_eq_Inr new_invocation_def global_dim_def split: if_splits)
qed simp

lemma axis_room:
  assumes "wx < (cx :: u32)" "x < (sx :: u32)" "unat cx * unat sx \<le> 2 ^ 32"
  shows "unat wx * unat sx + unat x < unat cx * unat sx" "unat wx * unat sx + unat x < 2 ^ 32"
proof -
  have "Suc (unat wx) \<le> unat cx" "unat x < unat sx" using assms by (simp_all add: word_less_nat_alt Suc_leI)
  then have "Suc (unat wx) * unat sx \<le> unat cx * unat sx" by (intro mult_le_mono1)
  with \<open>unat x < unat sx\<close> show "unat wx * unat sx + unat x < unat cx * unat sx" by simp
  with assms(3) show "unat wx * unat sx + unat x < 2 ^ 32" by simp
qed

lemma unat_axis:
  assumes "wx < (cx :: u32)" "x < (sx :: u32)" "unat cx * unat sx \<le> 2 ^ 32"
  shows "unat (wx * sx + x) = unat wx * unat sx + unat x"
  using axis_room(2)[OF assms] by (simp add: unat_word_ariths)

lemma global_dim_ok:
  assumes "wx < (cx :: u32)" "x < (sx :: u32)" "unat cx * unat sx \<le> 2 ^ 32"
  shows "global_dim wx sx x = Inr (wx * sx + x)"
  using axis_room(2)[OF assms] by (simp add: global_dim_def)

lemma axis_inj:
  assumes "wx * sx + x = wx' * sx + x'" "wx < (cx :: u32)" "x < (sx :: u32)" "wx' < cx" "x' < sx" "unat cx * unat sx \<le> 2 ^ 32"
  shows "wx = wx' \<and> x = x'"
proof -
  have eq: "unat wx * unat sx + unat x = unat wx' * unat sx + unat x'"
    using unat_axis[OF assms(2,3,6)] unat_axis[OF assms(4,5,6)] assms(1) by simp
  have lt: "unat x < unat sx" "unat x' < unat sx" using assms by (simp_all add: word_less_nat_alt)
  have "unat wx = unat wx'" "unat x = unat x'"
    using arg_cong[OF eq, of "\<lambda>k. k div unat sx"] arg_cong[OF eq, of "\<lambda>k. k mod unat sx"] lt by simp_all
  then show ?thesis by (simp add: word_unat_eq_iff)
qed

lemma axis_onto:
  assumes "unat g < unat cx * unat sx" "unat cx * unat sx \<le> 2 ^ 32"
  shows "\<exists>wx x. wx < (cx :: u32) \<and> x < (sx :: u32) \<and> g = wx * sx + x"
proof -
  have pos: "0 < unat sx" using assms(1) by (cases "unat sx = 0") auto
  have q: "unat g div unat sx < unat cx" using assms(1) by (simp add: less_mult_imp_div_less)
  have "g div sx < cx" "g mod sx < sx"
    using q pos by (simp_all add: word_less_nat_alt unat_div unat_mod)
  then show ?thesis by (intro exI[of _ "g div sx"] exI[of _ "g mod sx"]) (simp add: div_mult_mod_eq)
qed

definition roomy :: "u32 \<times> u32 \<times> u32 \<Rightarrow> u32 \<times> u32 \<times> u32 \<Rightarrow> bool" where
  "roomy s c = (case (s, c) of ((sx, sy, sz), (cx, cy, cz)) \<Rightarrow>
     0 < sz \<and> unat sx * unat sy * unat sz < 2 ^ 32 \<and>
     unat cx * unat sx \<le> 2 ^ 32 \<and> unat cy * unat sy \<le> 2 ^ 32 \<and> unat cz * unat sz \<le> 2 ^ 32)"

lemma create_invocations_ok:
  assumes "pg_workgroup_size p = s" "roomy s c" "wg \<in> set (grid c)"
  shows "\<exists>ivs. create_invocations p wg entry = Inr ivs \<and> map (ids_global \<circ> iv_ids) ivs = map (global_id s wg) (grid s)"
proof -
  obtain sx sy sz cx cy cz wx wy wz where s: "s = (sx, sy, sz)" and c: "c = (cx, cy, cz)" and wg: "wg = (wx, wy, wz)"
    by (metis surj_pair)
  have w: "wx < cx" "wy < cy" "wz < cz" using assms(3) unfolding c wg set_grid by auto
  have r: "0 < unat sz" "unat sx * unat sy * unat sz < 2 ^ 32" "unat cx * unat sx \<le> 2 ^ 32" "unat cy * unat sy \<le> 2 ^ 32"
    "unat cz * unat sz \<le> 2 ^ 32"
    using assms(2) by (simp_all add: roomy_def s c word_less_nat_alt)
  have "unat sx * unat sy \<le> unat sx * unat sy * unat sz" using r(1) by simp
  then have small: "unat sx * unat sy < 2 ^ 32" using r(2) by linarith
  have "\<exists>ids. invocation_ids s wg l = Inr ids" if "l \<in> set (grid s)" for l
  proof -
    obtain x y z where l: "l = (x, y, z)" by (metis surj_pair)
    have "x < sx" "y < sy" "z < sz" using that unfolding l s set_grid by auto
    then show ?thesis
      by (simp add: s wg l global_dim_ok[OF w(1) _ r(3)] global_dim_ok[OF w(2) _ r(4)] global_dim_ok[OF w(3) _ r(5)])
  qed
  from make_invocations_ok[OF this] obtain ivs where "make_invocations s wg entry 0 (grid s) = Inr ivs" by blast
  moreover from this have "map (ids_global \<circ> iv_ids) ivs = map (global_id s wg) (grid s)"
    using make_invocations_globals by blast
  ultimately show ?thesis
    using small r(2) by (simp add: create_invocations_def assms(1) s del: grid.simps)
qed

lemma lanes_globals:
  assumes "pg_workgroup_size p = s" "roomy s c"
  shows "map (ids_global \<circ> iv_ids) (lanes_of p c) = map (\<lambda>(wg, l). global_id s wg l) (List.product (grid c) (grid s))"
proof -
  have "map (ids_global \<circ> iv_ids) (case create_invocations p wg (pg_entry p) of Inr ivs \<Rightarrow> ivs | Inl _ \<Rightarrow> []) =
      map (global_id s wg) (grid s)" if "wg \<in> set (grid c)" for wg
    using create_invocations_ok[OF assms that, of "pg_entry p"] by auto
  then show ?thesis
    by (simp add: lanes_of_def map_concat product_concat_map comp_def cong: map_cong)
qed

lemma global_id_inj:
  assumes "roomy s c"
  shows "inj_on (\<lambda>(wg, l). global_id s wg l) (set (grid c) \<times> set (grid s))"
proof -
  obtain sx sy sz cx cy cz where sc: "s = (sx, sy, sz)" "c = (cx, cy, cz)" by (metis surj_pair)
  from assms have r: "unat cx * unat sx \<le> 2 ^ 32" "unat cy * unat sy \<le> 2 ^ 32" "unat cz * unat sz \<le> 2 ^ 32"
    by (simp_all add: roomy_def sc)
  show ?thesis
    unfolding sc set_grid by (auto intro!: inj_onI dest!: axis_inj[OF _ _ _ _ _ r(1)] axis_inj[OF _ _ _ _ _ r(2)] axis_inj[OF _ _ _ _ _ r(3)])
qed

lemma global_ids_box:
  assumes "roomy (sx, sy, sz) (cx, cy, cz)"
  shows "(\<lambda>(wg, l). global_id (sx, sy, sz) wg l) ` (set (grid (cx, cy, cz)) \<times> set (grid (sx, sy, sz))) =
    {(gx, gy, gz). unat gx < unat cx * unat sx \<and> unat gy < unat cy * unat sy \<and> unat gz < unat cz * unat sz}"
    (is "?f ` ?A = ?B")
proof (intro equalityI subsetI)
  have r: "unat cx * unat sx \<le> 2 ^ 32" "unat cy * unat sy \<le> 2 ^ 32" "unat cz * unat sz \<le> 2 ^ 32"
    using assms by (simp_all add: roomy_def)
  show "g \<in> ?B" if "g \<in> ?f ` ?A" for g
    using that r axis_room(1) by (auto simp: set_grid unat_axis simp del: grid.simps)
  show "g \<in> ?f ` ?A" if "g \<in> ?B" for g
  proof -
    obtain gx gy gz where g: "g = (gx, gy, gz)" "unat gx < unat cx * unat sx" "unat gy < unat cy * unat sy" "unat gz < unat cz * unat sz"
      using \<open>g \<in> ?B\<close> by auto
    obtain wx x wy y wz z where "wx < cx" "x < sx" "gx = wx * sx + x" "wy < cy" "y < sy" "gy = wy * sy + y"
      "wz < cz" "z < sz" "gz = wz * sz + z"
      using axis_onto[OF g(2) r(1)] axis_onto[OF g(3) r(2)] axis_onto[OF g(4) r(3)] by blast
    then show ?thesis
      by (intro image_eqI[of _ _ "((wx, wy, wz), (x, y, z))"]) (simp_all add: g(1) set_grid del: grid.simps)
  qed
qed

lemma lanes_once:
  assumes "pg_workgroup_size p = (sx, sy, sz)" "roomy (sx, sy, sz) (cx, cy, cz)"
  shows "distinct (map (ids_global \<circ> iv_ids) (lanes_of p (cx, cy, cz)))"
    and "set (map (ids_global \<circ> iv_ids) (lanes_of p (cx, cy, cz))) =
      {(gx, gy, gz). unat gx < unat cx * unat sx \<and> unat gy < unat cy * unat sy \<and> unat gz < unat cz * unat sz}"
  unfolding lanes_globals[OF assms]
  using global_id_inj[OF assms(2)] global_ids_box[OF assms(2)]
  by (simp_all add: distinct_map distinct_product distinct_grid del: grid.simps)

subsection \<open>Elements and lanes\<close>

lemma nat_div_ceil:
  assumes "0 < s" "0 < (n :: nat)"
  shows "n \<le> (n + s - 1) div s * s" "(n + s - 1) div s * s \<le> n + s - 1" "(n + s - 1) div s \<le> n" "0 < (n + s - 1) div s"
proof -
  have "n + s - 1 = (n + s - 1) div s * s + (n + s - 1) mod s" "(n + s - 1) mod s < s" using assms by simp_all
  then show "n \<le> (n + s - 1) div s * s" "(n + s - 1) div s * s \<le> n + s - 1" by linarith+
  show "0 < (n + s - 1) div s" using assms by (simp add: div_greater_zero_iff)
  have "n + s - 1 < (n + 1) * s" using assms by (cases s) simp_all
  then show "(n + s - 1) div s \<le> n" by (simp add: less_mult_imp_div_less less_Suc_eq_le[symmetric])
qed

lemma unat_div_ceil:
  assumes "0 < unat b" "0 < unat a"
  shows "unat (div_ceil a b) = (unat a + unat b - 1) div unat b"
  using nat_div_ceil(3)[OF assms] unsigned_less[of a, where 'a = nat] by (simp add: div_ceil_def unat_of_nat)

lemma line_workgroup:
  assumes "\<And>t. root t 1 = t" "0 < t"
  shows "invocations_per_workgroup (sx, 1, 1) = max sx 1" "workgroup_counts root (sx, 1, 1) t = (t, 1, 1)"
proof -
  have "unat (1 :: u32) = 1" by simp
  then show "invocations_per_workgroup (sx, 1, 1) = max sx 1"
    using unsigned_less[of sx, where 'a = nat] by (simp add: u32_saturating_mul_def)
  have "1 \<le> t" using assms(2) by (simp add: word_le_nat_alt word_less_nat_alt)
  then show "workgroup_counts root (sx, 1, 1) t = (t, 1, 1)"
    using assms(1)[of t] by (simp add: Let_def max_absorb1)
qed

lemma count_list_distinct: "distinct xs \<Longrightarrow> x \<in> set xs \<Longrightarrow> count_list xs x = 1"
  by (induction xs) (auto simp: count_list_0_iff)

text \<open>
  C16.  Every element has exactly one lane: for a workgroup shape with one axis, the grid the interpreter
  chooses for a number of elements gives each element index exactly one invocation with that global id,
  provided the last workgroup still fits \<open>u32\<close>.  It relies on \<open>powf(x, 1.0)\<close> being \<open>x\<close>.
\<close>

theorem one_lane_per_element:
  assumes "pg_workgroup_size p = (sx, 1, 1)" "0 < sx" "\<And>t. root t 1 = t" "unat n + unat sx \<le> 2 ^ 32" "i < n"
  shows "count_list (map (ids_global \<circ> iv_ids) (lanes_of p (workgroup_counts root (pg_workgroup_size p)
      (max (div_ceil n (invocations_per_workgroup (pg_workgroup_size p))) 1)))) (i, 0, 0) = 1"
proof -
  define t where "t = max (div_ceil n (invocations_per_workgroup (pg_workgroup_size p))) 1"
  have sx: "0 < unat sx" "1 \<le> sx" using assms(2) by (simp_all add: word_le_nat_alt word_less_nat_alt)
  have n: "0 < unat n" using assms(5) by (simp add: word_less_nat_alt)
  have per: "invocations_per_workgroup (pg_workgroup_size p) = sx"
    using line_workgroup(1)[of root 1 sx] assms(1,3) sx(2) by (simp add: max_absorb1)
  have "unat t = (unat n + unat sx - 1) div unat sx"
    using nat_div_ceil(4)[OF sx(1) n] unat_div_ceil[OF sx(1) n]
    by (simp add: t_def per max_def word_le_nat_alt)
  moreover have "(unat n + unat sx - 1) div unat sx * unat sx \<le> 2 ^ 32"
    using nat_div_ceil(2)[OF sx(1) n] assms(4) by linarith
  ultimately have t: "unat n \<le> unat t * unat sx" "unat t * unat sx \<le> 2 ^ 32" "0 < t"
    using nat_div_ceil(1,4)[OF sx(1) n] by (simp_all only: word_less_nat_alt unat_0)
  have "roomy (sx, 1, 1) (t, 1, 1)"
    using t(2) unsigned_less[of sx, where 'a = nat] by (simp add: roomy_def)
  note once = lanes_once[OF assms(1) this]
  have "(i, 0, 0) \<in> set (map (ids_global \<circ> iv_ids) (lanes_of p (t, 1, 1)))"
    unfolding once(2) using assms(5) t(1) by (simp add: word_less_nat_alt)
  from count_list_distinct[OF once(1) this] have "count_list (map (ids_global \<circ> iv_ids) (lanes_of p (t, 1, 1))) (i, 0, 0) = 1" .
  then show ?thesis
    unfolding t_def[symmetric] using line_workgroup(2)[of root t sx] assms(1,3) t(3) by simp
qed

theorem one_lane_per_element_witness:
  "count_list (map (ids_global \<circ> iv_ids) (lanes_of (wrapped [] (64, 1, 1) [])
     (workgroup_counts (\<lambda>t n. t) (pg_workgroup_size (wrapped [] (64, 1, 1) []))
       (max (div_ceil 100 (invocations_per_workgroup (pg_workgroup_size (wrapped [] (64, 1, 1) [])))) 1)))) (99, 0, 0) = 1"
  by (rule one_lane_per_element[of _ 64]) (simp_all add: wrapped_def new_raw_def)

subsection \<open>Outputs\<close>

definition is_output_decl :: "buffer_decl \<Rightarrow> bool" where
  "is_output_decl d = (bd_access d \<noteq> BA_Workgroup \<and> (backend_allocated_output d \<or> bd_access d = BA_ReadWrite))"

lemma bind_buffer_outputs:
  assumes "bind_buffer legacy inputs d bn = Inr bn'"
  shows "bn_output_decls bn' = bn_output_decls bn @ filter is_output_decl [d]"
proof -
  have "bn_output_decls (note_elements d e bn) =
      bn_output_decls bn @ (if backend_allocated_output d \<or> bd_access d = BA_ReadWrite then [d] else [])" for e bn
    by (simp add: note_elements_def)
  with assms show ?thesis
    by (auto simp: bind_buffer_def rbind_eq_Inr Let_def is_output_decl_def split: if_splits)
qed

lemma bind_buffers_outputs:
  "bind_buffers legacy inputs ds bn = Inr bn' \<Longrightarrow> bn_output_decls bn' = bn_output_decls bn @ filter is_output_decl ds"
  by (induction ds arbitrary: bn) (auto simp: rbind_eq_Inr dest!: bind_buffer_outputs)

text \<open>The bytes a declaration asks for: positions \<open>s\<close> to \<open>e - 1\<close>, or everything without a range inside the buffer.\<close>

definition output_bytes :: "buffer_decl \<Rightarrow> bytes \<Rightarrow> bytes" where
  "output_bytes d bs =
     (case bd_output_byte_range d of
        Some (s, e) \<Rightarrow> if unat s \<le> unat e \<and> unat e \<le> length bs then map (\<lambda>i. bs ! i) [unat s..<unat e] else bs
      | None \<Rightarrow> bs)"

lemma output_value_bytes: "output_value b d = V_Bytes (output_bytes d (rb_bytes b))"
proof -
  have "drop s (take e bs) = map (\<lambda>i. bs ! i) [s..<e]" if "e \<le> length bs" for s e and bs :: bytes
    by (rule nth_equalityI) (use that in auto)
  then show ?thesis
    by (simp add: output_value_def output_bytes_def word_le_nat_alt split: option.split)
qed

lemma collect_outputs_final:
  assumes "collect_outputs storage ds = Inr vs" "map_of storage \<subseteq>\<^sub>m map_of final"
  shows "list_all2 (\<lambda>d v. \<exists>b. map_of final (bd_name d) = Some b \<and> v = V_Bytes (output_bytes d (rb_bytes b))) ds vs"
  using assms
proof (induction ds arbitrary: storage vs)
  case (Cons d ds)
  from Cons.prems(1) obtain b vs' where b: "map_of storage (bd_name d) = Some b"
    and rest: "collect_outputs (AList.delete (bd_name d) storage) ds = Inr vs'" and vs: "vs = output_value b d # vs'"
    by (auto simp: rbind_eq_Inr split: option.splits)
  from Cons.IH[OF rest] Cons.prems(2) b show ?case
    by (auto simp: vs output_value_bytes map_le_def dom_def delete_conv')
qed simp

text \<open>
  C15.  What a dispatch returns: one value for each writable buffer, in declaration order.  Its bytes are those
  the buffer holds in the memory that all workgroups of the computed grid leave behind, run one after the other from
  the bound inputs: the whole buffer, of the length it was bound with, or the declared byte range of it when that
  range lies inside the buffer.
\<close>

theorem dispatch_outputs:
  assumes "run_dispatch h root p inputs = Some (Inr outs)"
  shows "\<exists>bn m. bind_inputs p inputs = Inr bn \<and> bn_output_decls bn = filter is_output_decl (pg_buffers p) \<and>
    run_workgroups h (rc_subgroup_ops (scan_capabilities p)) p
      (grid (workgroup_counts root (pg_workgroup_size p)
        (max (div_ceil (dispatch_elements p bn) (invocations_per_workgroup (pg_workgroup_size p))) 1)))
      \<lparr>mem_storage = bn_storage bn, mem_workgroup = []\<rparr> = Some (Inr m) \<and>
    list_all2 (\<lambda>d v. \<exists>before after.
        map_of (bn_storage bn) (bd_name d) = Some before \<and> map_of (mem_storage m) (bd_name d) = Some after \<and>
        length (rb_bytes after) = length (rb_bytes before) \<and> rb_element after = rb_element before \<and>
        v = V_Bytes (output_bytes d (rb_bytes after)))
      (filter is_output_decl (pg_buffers p)) outs"
proof -
  from assms obtain bn m where bn: "bind_inputs p inputs = Inr bn"
    and run: "run_workgroups h (rc_subgroup_ops (scan_capabilities p)) p
      (grid (workgroup_counts root (pg_workgroup_size p)
        (max (div_ceil (dispatch_elements p bn) (invocations_per_workgroup (pg_workgroup_size p))) 1)))
      \<lparr>mem_storage = bn_storage bn, mem_workgroup = []\<rparr> = Some (Inr m)"
    and outs: "collect_outputs (mem_storage m) (bn_output_decls bn) = Inr outs"
    by (auto simp: run_dispatch_def Let_def rbind_eq_Inr split: sum.splits)
  have decls: "bn_output_decls bn = filter is_output_decl (pg_buffers p)"
    using bn by (auto simp: bind_inputs_def rbind_eq_Inr no_binding_def dest!: bind_buffers_outputs split: if_splits prod.splits)
  have shapes: "map_option shape_of (map_of (mem_storage m) name) = map_option shape_of (map_of (bn_storage bn) name)" for name
    using run_workgroups_layout[OF run] by (simp add: map_of_layout)
  have bound: "\<exists>before. map_of (bn_storage bn) name = Some before \<and>
      length (rb_bytes after) = length (rb_bytes before) \<and> rb_element after = rb_element before"
    if "map_of (mem_storage m) name = Some after" for name after
    using shapes[of name] that by (auto simp: shape_of_def map_option_case split: option.splits)
  from collect_outputs_final[OF outs map_le_refl] show ?thesis
    using bn run decls bound by (intro exI[of _ bn] exI[of _ m] conjI) (auto elim!: list_all2_mono)
qed

definition store_seven :: program where
  "store_seven = wrapped [(bd_output ''out'' 0 DT_U32)\<lparr>bd_count := 1\<rparr>] (1, 1, 1) [N_Store ''out'' (E_LitU32 0) (E_LitU32 7)]"

lemma store_seven_binding:
  "bind_inputs store_seven [] = Inr
     \<lparr>bn_storage = [(''out'', \<lparr>rb_bytes = [0, 0, 0, 0], rb_element = DT_U32\<rparr>)], bn_input_index = 0,
      bn_output_decls = [(bd_output ''out'' 0 DT_U32)\<lparr>bd_count := 1\<rparr>], bn_max_output_elements = 1, bn_max_input_elements = 1,
      bn_graph_node_count = None, bn_has_workgroup_buffer = False\<rparr>"
  by (simp add: bind_inputs_def store_seven_def wrapped_def new_raw_def bind_buffer_def bd_output_def bd_storage_def
      no_binding_def declared_min_byte_len_def static_byte_len_def packed_size_bytes_def initial_bytes_def
      backend_allocated_output_def element_count_def u32_count_def note_elements_def legacy_input_mode_def
      bd_read_write_def usize_checked_mul_def usize_checked_add_def) (simp add: numeral_eq_Suc)

lemma store_seven_entry:
  "pg_entry store_seven = [N_Region ROOT_REGION_GENERATOR None [N_Store ''out'' (E_LitU32 0) (E_LitU32 7)]]"
  "pg_workgroup_size store_seven = (1, 1, 1)"
  by (simp_all add: store_seven_def wrapped_def new_raw_def wrap_entry_def entry_needs_root_region_def)

lemma store_seven_workgroup:
  "reset_workgroup \<lparr>mem_storage = st, mem_workgroup = []\<rparr> store_seven = Inr \<lparr>mem_storage = st, mem_workgroup = []\<rparr>"
  "create_invocations store_seven (0, 0, 0) (pg_entry store_seven) =
     Inr [new_invocation \<lparr>ids_global = (0, 0, 0), ids_workgroup = (0, 0, 0), ids_local = (0, 0, 0)\<rparr> 0 (pg_entry store_seven)]"
  by (simp_all add: reset_workgroup_def zero_existing_workgroup_def workgroup_decls_def store_seven_entry create_invocations_def
      u32s_below_def global_dim_def)
    (simp add: store_seven_def wrapped_def new_raw_def bd_output_def bd_read_write_def bd_storage_def)

lemma seven_bytes: "write_bytes_width_into (V_U32 7) [0, 0, 0, 0] = [7, 0, 0, 0]"
  by (simp add: write_bytes_width_into_def copy_bytes_prefix_def overwrite_def u32_to_le_bytes_def)

lemma store_seven_lane:
  "run_invocations h uses [new_invocation ids 0 (pg_entry store_seven)]
     \<lparr>mem_storage = [(''out'', \<lparr>rb_bytes = [0, 0, 0, 0], rb_element = DT_U32\<rparr>)], mem_workgroup = []\<rparr> =
   Some (Inr \<lparr>mem_storage = [(''out'', \<lparr>rb_bytes = [7, 0, 0, 0], rb_element = DT_U32\<rparr>)], mem_workgroup = []\<rparr>)"
  unfolding run_invocations_def run_entry store_seven_entry
  by (simp add: sem_node.simps eval_expr.simps as_index_def after_def update_buffer_def resolve_buffer_def store_def
      byte_offset_def usize_checked_mul_def beyond_def write_element_def set_buffer_def pending_transfers_def
      overwrite_def new_invocation_def push_scope_def pop_scope_def at_frames_def lift_value_def seven_bytes)

theorem dispatch_outputs_witness:
  "run_dispatch \<lparr>h_fp = \<lparr>fh_libm = \<lambda>_ x. x, fh_zero_tie = \<lambda>x _. x\<rparr>, h_dialect = None\<rparr> (\<lambda>t n. t) store_seven [] =
     Some (Inr [V_Bytes [7, 0, 0, 0]]) \<and>
   (\<exists>bn uses m after. bind_inputs store_seven [] = Inr bn \<and>
     map_of (bn_storage bn) ''out'' = Some \<lparr>rb_bytes = [0, 0, 0, 0], rb_element = DT_U32\<rparr> \<and>
     run_workgroups \<lparr>h_fp = \<lparr>fh_libm = \<lambda>_ x. x, fh_zero_tie = \<lambda>x _. x\<rparr>, h_dialect = None\<rparr> uses store_seven [(0, 0, 0)]
       \<lparr>mem_storage = bn_storage bn, mem_workgroup = []\<rparr> = Some (Inr m) \<and>
     map_of (mem_storage m) ''out'' = Some after \<and> rb_bytes after = [7, 0, 0, 0])"
proof -
  let ?h = "\<lparr>h_fp = \<lparr>fh_libm = \<lambda>_ x. x, fh_zero_tie = \<lambda>x _. x\<rparr>, h_dialect = None\<rparr>"
  have elements: "dispatch_elements store_seven bn = 1" if "bind_inputs store_seven [] = Inr bn" for bn
    using that by (auto simp: store_seven_binding dispatch_elements_def Let_def)
  then have run: "run_dispatch ?h (\<lambda>t n. t) store_seven [] = Some (Inr [V_Bytes [7, 0, 0, 0]])"
    by (simp add: run_dispatch_def store_seven_binding store_seven_entry(2) div_ceil_def u32_saturating_mul_def Let_def
        u32s_below_def store_seven_workgroup store_seven_lane bd_output_def bd_read_write_def bd_storage_def output_value_def)
  have decls: "filter is_output_decl (pg_buffers store_seven) = [(bd_output ''out'' 0 DT_U32)\<lparr>bd_count := 1\<rparr>]"
    by (simp add: store_seven_def wrapped_def new_raw_def bd_output_def bd_read_write_def bd_storage_def is_output_decl_def
        backend_allocated_output_def)
  have one: "grid (workgroup_counts (\<lambda>t n. t) (pg_workgroup_size store_seven)
      (max (div_ceil (dispatch_elements store_seven bn) (invocations_per_workgroup (pg_workgroup_size store_seven))) 1)) = [(0, 0, 0)]"
    if "bind_inputs store_seven [] = Inr bn" for bn
    using elements[OF that] by (simp add: store_seven_entry(2) div_ceil_def u32_saturating_mul_def Let_def u32s_below_def)
  from dispatch_outputs[OF run] obtain bn m where bn: "bind_inputs store_seven [] = Inr bn"
    and wgs: "run_workgroups ?h (rc_subgroup_ops (scan_capabilities store_seven)) store_seven [(0, 0, 0)]
      \<lparr>mem_storage = bn_storage bn, mem_workgroup = []\<rparr> = Some (Inr m)"
    and out: "\<exists>after. map_of (mem_storage m) ''out'' = Some after \<and> rb_bytes after = [7, 0, 0, 0]"
    unfolding decls by (auto simp: one output_bytes_def bd_output_def bd_read_write_def bd_storage_def simp del: grid.simps)
  have "map_of (bn_storage bn) ''out'' = Some \<lparr>rb_bytes = [0, 0, 0, 0], rb_element = DT_U32\<rparr>"
    using bn by (auto simp: store_seven_binding)
  with run bn wgs out show ?thesis by blast
qed

subsection \<open>The copy a lowered collective becomes\<close>

lemma pop_push [simp]: "pop_scope (push_scope iv) = iv"
  by (simp add: pop_scope_def push_scope_def restrict_map_def)

lemma uniform_if_quiet:
  "contains_barrier [] = False" "contains_barrier [N_Store b e1 e2] = False"
  "contains_barrier [N_If c t []] = contains_barrier t"
  by (simp_all add: contains_barrier_def)

lemma eval_u32_lt: "eval_binop fp BO_Lt (V_U32 a) (V_U32 b) = Inr (V_Bool (a < b))"
  by (simp add: eval_binop_def or_else_def binop_u32_def word_less_def)

text \<open>
  C18.  A lowered gather or reduce-scatter copies: the statements the lowering emits, run by an invocation, store the
  input element at the invocation's global index to the output when both buffers have that index, and do
  nothing else but bind the fresh index variable.
\<close>

theorem single_rank_copy_copies:
  assumes "resolve_buffer m input = Inr bi" "resolve_buffer m output = Inr bo"
    and "buffer_len bi = Inr ni" "buffer_len bo = Inr no" "ids_global (iv_ids iv) = (g, gy, gz)"
    and "bind_local (copy_index_name (ls_next_copy_id st)) (V_U32 g) iv = Inr iv'" "uniform_so_far iv = Inr ()"
  shows "sem_nodes h uses path i (fst (single_rank_copy input output st)) iv m =
    (if g < no \<and> g < ni
     then rbind (load bi g) (\<lambda>v. rbind (update_buffer m output (\<lambda>b. store b g v)) (\<lambda>m. Inr (False, iv', m)))
     else Inr (False, iv', m))"
proof -
  let ?idx = "copy_index_name (ls_next_copy_id st)"
  have iv': "iv_vars iv' ?idx = Some (V_U32 g)" "uniform_so_far iv' = Inr ()"
    using assms(6) locals_checks(1)[OF assms(6)] assms(7) by (auto simp: bind_local_def split: if_splits)
  have var: "eval_expr h snaps (E_Var ?idx) (lane_of iv') m = Inr (V_U32 g, m)"
    "eval_expr h snaps (E_Var ?idx) (lane_of (push_scope iv')) m = Inr (V_U32 g, m)"
    "eval_expr h snaps (E_Var ?idx) (lane_of (push_scope (push_scope iv'))) m = Inr (V_U32 g, m)" for snaps m
    by (simp_all add: eval_expr.simps lane_of_def lift_value_def push_scope_def iv'(1))
  have lt: "eval_expr h snaps (E_BinOp BO_Lt (E_Var ?idx) (E_BufLen output)) (lane_of iv') m = Inr (V_Bool (g < no), m)"
    "eval_expr h snaps (E_BinOp BO_Lt (E_Var ?idx) (E_BufLen input)) (lane_of (push_scope iv')) m = Inr (V_Bool (g < ni), m)" for snaps
    using assms(1-4) by (simp_all add: eval_expr.simps(7,11) var eval_u32_lt lift_value_def)
  show ?thesis
    using assms(1-6) iv' var
    by (simp add: single_rank_copy_def Let_def sem_node.simps lt uniform_if_quiet after_def as_index_def
        eval_expr.simps(6,8) axis_value_def lift_value_def lane_of_def[of iv] rbind_assoc split_def)
qed

theorem single_rank_copy_copies_witness:
  "\<exists>iv' m'. sem_nodes \<lparr>h_fp = \<lparr>fh_libm = \<lambda>_ x. x, fh_zero_tie = \<lambda>x _. x\<rparr>, h_dialect = None\<rparr> False [] 0
      (fst (single_rank_copy ''in'' ''out'' \<lparr>ls_lowered = 1, ls_next_copy_id = 0\<rparr>))
      (new_invocation \<lparr>ids_global = (0, 0, 0), ids_workgroup = (0, 0, 0), ids_local = (0, 0, 0)\<rparr> 0 [])
      \<lparr>mem_storage = [(''in'', \<lparr>rb_bytes = [5, 0, 0, 0], rb_element = DT_U32\<rparr>), (''out'', \<lparr>rb_bytes = [0, 0, 0, 0], rb_element = DT_U32\<rparr>)],
       mem_workgroup = []\<rparr> = Inr (False, iv', m') \<and>
    resolve_buffer m' ''out'' = Inr \<lparr>rb_bytes = [5, 0, 0, 0], rb_element = DT_U32\<rparr>"
proof -
  let ?m = "\<lparr>mem_storage = [(''in'', \<lparr>rb_bytes = [5, 0, 0, 0], rb_element = DT_U32\<rparr>), (''out'', \<lparr>rb_bytes = [0, 0, 0, 0], rb_element = DT_U32\<rparr>)],
       mem_workgroup = []\<rparr>"
  let ?iv = "new_invocation \<lparr>ids_global = (0, 0, 0), ids_workgroup = (0, 0, 0), ids_local = (0, 0, 0)\<rparr> 0 []"
  let ?st = "\<lparr>ls_lowered = 1, ls_next_copy_id = 0\<rparr>"
  have r: "resolve_buffer ?m ''in'' = Inr \<lparr>rb_bytes = [5, 0, 0, 0], rb_element = DT_U32\<rparr>"
    "resolve_buffer ?m ''out'' = Inr \<lparr>rb_bytes = [0, 0, 0, 0], rb_element = DT_U32\<rparr>"
    by (simp_all add: resolve_buffer_def)
  have len: "buffer_len \<lparr>rb_bytes = [a, b, c, d], rb_element = DT_U32\<rparr> = Inr 1" for a b c d
    by (simp add: buffer_len_def)
  obtain iv' where b: "bind_local (copy_index_name (ls_next_copy_id ?st)) (V_U32 0) ?iv = Inr iv'"
    by (simp add: bind_local_def new_invocation_def)
  have five: "load \<lparr>rb_bytes = [5, 0, 0, 0], rb_element = DT_U32\<rparr> 0 = Inr (V_U32 5)"
    "write_bytes_width_into (V_U32 5) [0, 0, 0, 0] = [5, 0, 0, 0]"
    by (simp_all add: load_def byte_offset_def usize_checked_mul_def beyond_def need_bytes_def u32_of_le_def u32_from_le_bytes_def
        write_bytes_width_into_def copy_bytes_prefix_def overwrite_def u32_to_le_bytes_def)
  have out: "update_buffer ?m ''out'' (\<lambda>b. store b 0 (V_U32 5)) =
      Inr \<lparr>mem_storage = [(''in'', \<lparr>rb_bytes = [5, 0, 0, 0], rb_element = DT_U32\<rparr>), (''out'', \<lparr>rb_bytes = [5, 0, 0, 0], rb_element = DT_U32\<rparr>)], mem_workgroup = []\<rparr>"
    by (simp add: update_buffer_def r store_def byte_offset_def usize_checked_mul_def beyond_def write_element_def five overwrite_def set_buffer_def)
  have "uniform_so_far ?iv = Inr ()" by (simp add: uniform_so_far_def new_invocation_def)
  from single_rank_copy_copies[OF r len len _ b this] show ?thesis
    by (simp add: new_invocation_def five out resolve_buffer_def)
qed

end
