(* ===== verification/Spec2Isabelle.thy ===== *)
theory Spec2Isabelle
  imports
    Wire_Program
    Ref_Errors
    Ref_Regions
    Ref_Run
begin

text \<open>
  A verification development for vyre, a compiler and runtime for portable GPU programs.

  \<^bold>\<open>The program.\<close>  A vyre \<open>Program\<close> is a list of typed buffer declarations, a workgroup size and a
  tree of statements over expressions (\<open>vyre-spec\<close>, \<open>vyre-foundation/src/ir_inner\<close>).  Programs travel between
  tools as \<^emph>\<open>wire\<close> blobs (\<open>vyre-foundation/src/serial\<close>): a header with magic, version, flags and a BLAKE3
  digest, then metadata and statement records, memory regions and the set of output buffers.
  The meaning of a program is defined by a reference interpreter (\<open>vyre-reference\<close>), the oracle against which
  every GPU backend is compared: it runs all invocations of a workgroup round-robin, one statement
  at a time, over bounds-checked byte buffers.

  \<^bold>\<open>The theories.\<close>
  \<^item> \<open>Vyre_Prelude\<close>: machine-integer types, the result type \<open>error + value\<close> with \<open>rbind\<close>, \<open>rguard\<close> and
    \<open>ok_or\<close>, checked and saturating arithmetic, and the shared lemma collections.
  \<^item> \<open>Spec_DataType\<close>, \<open>Spec_Ops\<close>: data types with their size tables, packed sizes and layout validation;
    operators with their frozen and wire tags, memory orderings, extension ids (\<open>vyre-spec\<close>, \<open>serial/wire/tags\<close>).
  \<^item> \<open>Ir_Model\<close>, \<open>Ir_Stats\<close>: expressions, statements, buffer declarations, programs and their rewriting
    operations; the statistics walk and the queries on it (\<open>ir_inner/model\<close>).
  \<^item> \<open>Ir_Collectives\<close>: the transport plan of collective statements and their single-rank lowering
    (\<open>transform/collectives.rs\<close>), required capabilities and the backend check (\<open>runtime/program_caps.rs\<close>).
  \<^item> \<open>Wire_Framing\<close>, \<open>Wire_Leb\<close>, \<open>Wire_DataType\<close>, \<open>Wire_Expr\<close>, \<open>Wire_Node\<close>, \<open>Wire_Region\<close>, \<open>Output_Set\<close>,
    \<open>Wire_Program\<close>: the encoder and decoder, bottom-up; a decoder is a function from a cursor to an error or a
    value and a new cursor.
  \<^item> \<open>Ref_Float\<close>, \<open>Ref_Value\<close>, \<open>Ref_Ops\<close>, \<open>Ref_Memory\<close>, \<open>Ref_Eval\<close>, \<open>Ref_Exec\<close>, \<open>Ref_Errors\<close>, \<open>Ref_Regions\<close>,
    \<open>Ref_Sem\<close>, \<open>Ref_Run\<close>: the reference interpreter; IEEE arithmetic on bit patterns, values, operators, memory,
    expressions, statements with the scheduler, the errors a run can end with, regions as blocks, a structured semantics the scheduler is proved to
    implement, and the dispatch that binds inputs, sizes the grid, runs every workgroup and collects outputs
    (\<open>program_for_interpreter\<close>, \<open>run_hashmap_reference\<close>, \<open>create_invocations\<close>).

  \<^bold>\<open>State and errors.\<close>  Records of the source are records, enums are datatypes whose constructors carry a
  prefix (\<open>E_\<close> expressions, \<open>N_\<close> statements, \<open>DT_\<close> types, \<open>BO_\<close>, \<open>UO_\<close>, \<open>AO_\<close> operators, \<open>V_\<close> values, \<open>F_\<close>
  frames); \<open>u8\<close> to \<open>u64\<close> and \<open>usize\<close> are words, \<open>i32\<close>, \<open>f32\<close> and \<open>f64\<close> are their bit patterns, strings are
  lists of bytes.  Functions that take \<open>&mut\<close> return the new state.  Every error return is a constructor
  of an error datatype, with the message left out; a Rust panic is the error \<open>IE_Panic\<close>
  in the interpreter and \<open>EE_Panic\<close> in the encoder.  The uniformity check of the scheduler identifies a branch by its
  path in the program where the source takes the address of its node; the two differ when one region body is
  shared between several places of a program, which decoding never produces.

  \<^bold>\<open>What the theorems show.\<close>
  \<^item> Wire format: encoding then decoding returns the program, up to what the format drops, and the
    encoding is stable; an accepted blob has exactly the encoder's header and is consumed to the
    last byte; whatever the bytes, a decoded program satisfies the format's invariants and limits.  The parts
    (LEB128, types, expressions, statements, output sets) have the same theorems, and the stack-based
    expression encoder equals the recursive one.
  \<^item> IR: the region contract, the consistency of lookup tables and cached outputs under rewriting, exact statistics and
    memory totals, exact packed sizes and layout validation; collectives are lowered completely or refused exactly when the plan
    needs transport, and the capability check is exact for what it compares.
  \<^item> Reference interpreter: operators are typed and canonical; the three byte writers of a value agree;
    a load returns the last store to its index; a reset workgroup memory is a fresh one; every workgroup
    terminates; no workgroup gets stuck at a barrier; barriers release exactly
    when all live invocations wait; a run closes its scopes, keeps its lanes
    and the layout of memory; regions run as blocks do; a workgroup of one invocation computes the structured semantics;
    a dispatch gives each element one lane and returns the final bytes of the writable buffers in order, cut to the
    declared ranges; the
    statements a collective is lowered to copy the element of their lane.
  \<^item> Discrepancies, stated as theorems about the code as it is: programs the encoder accepts and the decoder refuses,
    opaque type ids only the encoder accepts, differing tag tables, overlong LEB128 numbers, a storage total whose
    products wrap, uniform loops rejected as non-uniform, a divergent-barrier error that no run can reach.
    Where the documentation disagrees, the definitions follow the code: a region opens a scope
    (\<open>docs/ir-semantics.md\<close> says it does not), float operators flush subnormals (\<open>README.md\<close> says they are
    preserved), and the memory estimate counts workgroup buffers (\<open>meta.rs\<close> speaks of storage and uniform buffers).

  \<^bold>\<open>Bounds and termination.\<close>  The recursive decoders take the number of levels left, started at the source's
  limit \<open>MAX_DECODE_DEPTH\<close>, and fail at zero as the source does.  The scheduler's loop is a
  \<open>partial_function\<close>, so that its termination is a theorem: a loop statement runs its body fewer
  than \<open>2 ^ 32\<close> times because its bounds are \<open>u32\<close>, which bounds the steps left to every frame.

  \<^bold>\<open>Parameters.\<close>  BLAKE3 is an argument of the codec, with no assumption but the length of its result where a
  theorem needs it.  The registry of opaque extensions, the registry of callable operators and the
  platform's transcendental functions are arguments as well, and so is the root taken with \<open>f64::powf\<close> to spread
  workgroups over several axes; the theorem on lanes assumes of it that the first root of a number is the number.

  \<^bold>\<open>Not modelled.\<close>  Error messages (but for the length of those the encoder assembles in a fixed buffer), capacity hints, caches and performance scopes, which do not affect
  results.  The IR validator (a dispatch is modelled from the point where the
  program has passed it, and no theorem assumes that it has), the optimizer, analyses and execution planning.  The drivers and code generators,
  which call GPU toolchains; the runtime, kernel libraries and frontends; procedural macros,
  harnesses and build tools.  The second frame machine of the interpreter (\<open>execution/node.rs\<close>, \<open>expr.rs\<close>),
  which the entry points do not use, and the entry point for graphs of programs.
\<close>

end
